(* ===== verification/Prelude.thy ===== *)
theory Prelude
  imports Main "HOL-Library.Word" "HOL-Library.Monad_Syntax"
begin

text \<open>
  What every component of the model shares: the machine types of the Go source, the
  conversions between them, arrays and slices as lists, and the iteration of Go maps.

  Go's \<^verbatim>\<open>uint8\<close>, \<^verbatim>\<open>uint32\<close>, \<^verbatim>\<open>uint64\<close> are words of that width, so that every
  \<open>+\<close>, \<open>-\<close>, \<open>*\<close> wraps as the machine does. A \<^verbatim>\<open>[]byte\<close> is a list of 8-bit words.
  A Go string is a sequence of bytes; it is a HOL \<open>string\<close>, whose characters are bytes.
  A \<^verbatim>\<open>time.Time\<close> is its instant, in nanoseconds since the Unix epoch, as an integer.
\<close>

unbundle bit_operations_syntax

type_synonym u8 = "8 word"
type_synonym u32 = "32 word"
type_synonym u64 = "64 word"
type_synonym bytes = "u8 list"
type_synonym gotime = int

named_theorems go_defs "definitions of the model that a proof unfolds as a group"
named_theorems wf_intros "rules that build a well-formedness fact"

subsection \<open>Errors\<close>

text \<open>
  A Go function that returns \<^verbatim>\<open>(T, error)\<close> is a function into \<open>'e + 'a\<close>, with \<open>Inl\<close>
  for the error. A run-time panic is an error of its own type, so that no panic of the
  source disappears in a total function.
\<close>

datatype go_panic = DivideByZero | NilDereference | IndexOutOfRange | TypeAssertion | MakeSliceRange
  | CloseClosedChannel | NonPositiveTicker

definition is_ok :: "'e + 'a \<Rightarrow> bool" where
  "is_ok r = (case r of Inl _ \<Rightarrow> False | Inr _ \<Rightarrow> True)"

lemma is_ok_simps [simp]: "is_ok (Inr x)" "\<not> is_ok (Inl e)"
  by (simp_all add: is_ok_def)

lemma is_ok_iff: "is_ok r \<longleftrightarrow> (\<exists>x. r = Inr x)"
  by (cases r) simp_all

fun rbind :: "'e + 'a \<Rightarrow> ('a \<Rightarrow> 'e + 'b) \<Rightarrow> 'e + 'b" where
  "rbind (Inl e) f = Inl e"
| "rbind (Inr x) f = f x"

lemma rbind_eq_Inr: "rbind r f = Inr y \<longleftrightarrow> (\<exists>x. r = Inr x \<and> f x = Inr y)"
  by (cases r) auto

subsection \<open>Arrays and slices\<close>

text \<open>\<^verbatim>\<open>copy(out[:], b)\<close> into a zeroed array of \<open>n\<close> bytes: what is too long is cut,
  what is missing stays zero.\<close>

definition copy_into :: "nat \<Rightarrow> bytes \<Rightarrow> bytes" where
  "copy_into n bs = take n bs @ replicate (n - length bs) 0"

lemma length_copy_into [simp]: "length (copy_into n bs) = n"
  by (simp add: copy_into_def)

lemma copy_into_exact [simp]: "length bs = n \<Longrightarrow> copy_into n bs = bs"
  by (simp add: copy_into_def)

subsection \<open>Ranging over a map\<close>

text \<open>
  A Go map is a partial function. \<^verbatim>\<open>for k, v := range m\<close> visits the entries in an order
  the runtime chooses at random, so a function that ranges takes that order, a list
  \<open>ord\<close> of the keys, as an argument. \<open>range_order m ord\<close> says that \<open>ord\<close> is one of
  the orders the runtime can choose.
\<close>

definition range_order :: "('k \<rightharpoonup> 'v) \<Rightarrow> 'k list \<Rightarrow> bool" where
  "range_order m ord \<longleftrightarrow> distinct ord \<and> set ord = dom m"

definition range_vals :: "('k \<rightharpoonup> 'v) \<Rightarrow> 'k list \<Rightarrow> 'v list" where
  "range_vals m ord = List.map_filter m ord"

lemma range_vals_Nil [simp]: "range_vals m [] = []"
  by (simp add: range_vals_def map_filter_simps split: option.splits)

lemma range_vals_Cons [simp]:
  "range_vals m (k # ks) = (case m k of None \<Rightarrow> range_vals m ks | Some v \<Rightarrow> v # range_vals m ks)"
  by (simp add: range_vals_def map_filter_simps split: option.splits)

lemma range_orderD:
  assumes "range_order m ord"
  shows range_order_distinct: "distinct ord" and range_order_set: "set ord = dom m"
  using assms by (simp_all add: range_order_def)

lemma set_range_vals: "set ord = dom m \<Longrightarrow> set (range_vals m ord) = ran m"
  by (fastforce simp: range_vals_def map_filter_def ran_def dom_def image_iff)

lemma range_vals_filter:
  "filter P (range_vals m ord) = range_vals m (filter (\<lambda>k. \<forall>v. m k = Some v \<longrightarrow> P v) ord)"
  by (induction ord) (auto split: option.splits)

lemma distinct_range_vals:
  assumes "distinct ord" and "\<And>k v. m k = Some v \<Longrightarrow> k = f v"
  shows "distinct (range_vals m ord)"
  using assms(1)
proof (induction ord)
  case Nil
  show ?case by simp
next
  case (Cons k ord)
  have "v \<notin> set (range_vals m ord)" if v: "m k = Some v" for v
  proof
    assume "v \<in> set (range_vals m ord)"
    then obtain j where "j \<in> set ord" "m j = Some v"
      by (auto simp: range_vals_def map_filter_def)
    with assms(2) [OF v] assms(2) [of j v] Cons.prems show False by simp
  qed
  with Cons show ?case by (auto split: option.splits)
qed

text \<open>A commutative fold over the visited entries does not depend on the order.\<close>

lemma range_sum_eq:
  fixes f :: "'v \<Rightarrow> 'a::comm_monoid_add"
  assumes "distinct ord"
  shows "sum_list (map f (range_vals m ord)) = (\<Sum>k\<in>set ord. case m k of None \<Rightarrow> 0 | Some v \<Rightarrow> f v)"
  using assms by (induction ord) (auto split: option.splits)

lemma range_sum_order_irrelevant:
  fixes f :: "'v \<Rightarrow> 'a::comm_monoid_add"
  assumes "range_order m ord" and "range_order m ord'"
  shows "sum_list (map f (range_vals m ord)) = sum_list (map f (range_vals m ord'))"
  using assms by (simp add: range_sum_eq range_order_def)

lemma finite_dom_range_order: "range_order m ord \<Longrightarrow> finite (dom m)"
  by (metis range_order_def List.finite_set)

subsection \<open>The interface of a keyed store\<close>

text \<open>
  The node keeps most of its state in Go maps behind a lock: transaction outputs and pending
  transactions by hash, state values by name, peers and connections by address. What a client
  may rely on is the same each time. Storing an entry changes what is found under the entry's
  key and under no other; deleting a key does the same.
\<close>

locale keyed_store =
  fixes look :: "'s \<Rightarrow> 'k \<Rightarrow> 'v option"
    and ins :: "'e \<Rightarrow> 's \<Rightarrow> 's"
    and key :: "'e \<Rightarrow> 'k"
    and val :: "'e \<Rightarrow> 'v"
  assumes look_ins: "look (ins e s) j = (if j = key e then Some (val e) else look s j)"
begin

lemma look_ins_same: "look (ins e s) (key e) = Some (val e)"
  by (simp add: look_ins)

lemma ins_overwrites: "key e = key e' \<Longrightarrow> look (ins e (ins e' s)) = look (ins e s)"
  by (rule ext) (simp add: look_ins)

lemma ins_commutes: "key e \<noteq> key e' \<Longrightarrow> look (ins e (ins e' s)) = look (ins e' (ins e s))"
  by (rule ext) (simp add: look_ins)

lemma dom_ins: "dom (look (ins e s)) = insert (key e) (dom (look s))"
  by (auto simp: look_ins dom_def)

lemma look_fold_ins:
  "look (fold ins es s) = look s ++ map_of (rev (map (\<lambda>e. (key e, val e)) es))"
proof (induction es arbitrary: s)
  case Nil
  show ?case by simp
next
  case (Cons e es)
  have "look (ins e s) = (look s)(key e \<mapsto> val e)"
    by (rule ext) (simp add: look_ins)
  then show ?case
    by (simp add: Cons map_add_upd_left [symmetric] map_add_def fun_eq_iff split: option.splits)
qed

end

locale keyed_table = keyed_store +
  fixes del :: "'k \<Rightarrow> 's \<Rightarrow> 's"
  assumes look_del: "look (del k s) j = (if j = k then None else look s j)"
begin

lemma del_ins: "look (del (key e) (ins e s)) = look (del (key e) s)"
  by (rule ext) (simp add: look_ins look_del)

lemma dom_del: "dom (look (del k s)) = dom (look s) - {k}"
  by (auto simp: look_del dom_def)

lemma look_fold_del:
  "look (fold del ks s) j = (if j \<in> set ks then None else look s j)"
  by (induction ks arbitrary: s) (auto simp: look_del)

end

text \<open>
  An operation that works on the entry of one key: it leaves every other entry, and what it makes of
  its own depends on that entry alone. So the entry of a key depends on the operations with that key
  only, whatever happens to other keys in between.
\<close>

locale keyed_update =
  fixes look :: "'s \<Rightarrow> 'k \<Rightarrow> 'v option"
    and upd :: "'e \<Rightarrow> 's \<Rightarrow> 's"
    and key :: "'e \<Rightarrow> 'k"
  assumes upd_other: "j \<noteq> key e \<Longrightarrow> look (upd e s) j = look s j"
    and upd_local: "look s (key e) = look s' (key e) \<Longrightarrow> look (upd e s) (key e) = look (upd e s') (key e)"
begin

lemma fold_other: "j \<notin> key ` set es \<Longrightarrow> look (fold upd es s) j = look s j"
  by (induction es arbitrary: s) (simp_all add: upd_other)

lemma upd_cong: "look s j = look s' j \<Longrightarrow> look (upd e s) j = look (upd e s') j"
proof (cases "j = key e")
  case True
  assume "look s j = look s' j"
  then show ?thesis unfolding True by (rule upd_local)
next
  case False
  assume "look s j = look s' j"
  then show ?thesis unfolding upd_other [OF False] .
qed

lemma fold_cong: "look s j = look s' j \<Longrightarrow> look (fold upd es s) j = look (fold upd es s') j"
proof (induction es arbitrary: s s')
  case (Cons e es)
  from Cons.IH [OF upd_cong [OF Cons.prems]] show ?case by simp
qed simp

lemma fold_own: "look (fold upd es s) j = look (fold upd (filter (\<lambda>e. key e = j) es) s) j"
proof (induction es arbitrary: s)
  case (Cons e es)
  show ?case
  proof (cases "key e = j")
    case False
    then have "look (fold upd es (upd e s)) j = look (fold upd es s) j"
      by (intro fold_cong upd_other) simp
    with False Cons show ?thesis by simp
  qed (simp add: Cons)
qed simp

end

end
