(* ===== verification/Bytes.thy ===== *)
theory Bytes
  imports Prelude
begin

text \<open>
  Byte strings: the big-endian encoding of \<^verbatim>\<open>encoding/binary\<close>, the fixed arrays
  \<^verbatim>\<open>core.Hash\<close> (32 bytes) and \<^verbatim>\<open>core.Address\<close> (20 bytes) as words with their byte
  view, hexadecimal text, and the operations of \<^verbatim>\<open>strings\<close> the program calls, UTF-8
  decoding included, because Go ranges over the runes of a string.
\<close>

subsection \<open>Big-endian words\<close>

primrec be_put :: "nat \<Rightarrow> 'a::len word \<Rightarrow> bytes" where
  "be_put 0 w = []"
| "be_put (Suc n) w = ucast (drop_bit (8 * n) w) # be_put n w"

primrec be_get :: "bytes \<Rightarrow> 'a::len word" where
  "be_get [] = 0"
| "be_get (b # bs) = push_bit (8 * length bs) (ucast b) OR be_get bs"

lemma length_be_put [simp]: "length (be_put n w) = n"
  by (induction n) simp_all

lemma be_get_be_put_take: "be_get (be_put n w) = take_bit (8 * n) w"
proof (induction n)
  case 0
  show ?case by simp
next
  case (Suc n)
  show ?case
    by (rule bit_word_eqI) (auto simp: Suc bit_simps not_less)
qed

lemma be_get_be_put:
  "8 * n = LENGTH('a) \<Longrightarrow> be_get (be_put n (w :: 'a::len word)) = w"
  by (simp add: be_get_be_put_take take_bit_word_eq_self)

lemma not_bit_be_get: "8 * length bs \<le> k \<Longrightarrow> \<not> bit (be_get bs :: 'a::len word) k"
  by (induction bs arbitrary: k) (auto simp: bit_simps dest: bit_imp_le_length)

lemma be_put_cong:
  "(\<And>k. k < 8 * n \<Longrightarrow> bit x k = bit y k) \<Longrightarrow> be_put n (x :: 'a::len word) = be_put n y"
proof (induction n)
  case 0
  show ?case by simp
next
  case (Suc n)
  then have "be_put n x = be_put n y" by simp
  moreover have "(ucast (drop_bit (8 * n) x) :: u8) = ucast (drop_bit (8 * n) y)"
    by (rule bit_word_eqI) (auto simp: bit_simps Suc.prems)
  ultimately show ?case by simp
qed

lemma be_put_be_get:
  "8 * length bs \<le> LENGTH('a) \<Longrightarrow> be_put (length bs) (be_get bs :: 'a::len word) = bs"
proof (induction bs)
  case Nil
  show ?case by simp
next
  case (Cons b bs)
  let ?w = "be_get (b # bs) :: 'a word"
  have "be_put (length bs) ?w = be_put (length bs) (be_get bs :: 'a word)"
    by (rule be_put_cong) (simp add: bit_simps)
  moreover have "(ucast (drop_bit (8 * length bs) ?w) :: u8) = b"
    using Cons.prems by (intro bit_word_eqI) (auto simp: bit_simps not_bit_be_get)
  ultimately show ?case using Cons by simp
qed

text \<open>
  An encoding of fixed width with a decoder. Two messages that are built from such
  fields in the same order agree only where the fields agree: this is what makes the
  preimages of the block and transaction hashes unambiguous.
\<close>

locale fixed_codec =
  fixes enc :: "'x \<Rightarrow> bytes"
    and dec :: "bytes \<Rightarrow> 'x"
    and width :: nat
  assumes enc_length: "length (enc x) = width"
    and dec_enc: "dec (enc x) = x"
begin

lemma enc_inj: "enc x = enc y \<longleftrightarrow> x = y"
  by (metis dec_enc)

lemma enc_append_inj: "enc x @ bs = enc y @ cs \<longleftrightarrow> x = y \<and> bs = cs"
  by (auto simp: append_eq_append_conv enc_length enc_inj)

lemma take_enc: "take width (enc x @ bs) = enc x"
  by (simp add: enc_length)

lemma drop_enc: "drop width (enc x @ bs) = bs"
  by (simp add: enc_length)

lemma dec_prefix: "dec (take width (enc x @ bs)) = x"
  by (simp only: take_enc dec_enc)

end

interpretation be64: fixed_codec "be_put 8 :: u64 \<Rightarrow> bytes" be_get 8
  by unfold_locales (simp_all add: be_get_be_put)

interpretation be32: fixed_codec "be_put 4 :: u32 \<Rightarrow> bytes" be_get 4
  by unfold_locales (simp_all add: be_get_be_put)

subsection \<open>Hashes and addresses\<close>

text \<open>
  A \<^verbatim>\<open>[32]byte\<close> has exactly 32 bytes and compares by content: it is a 256-bit word,
  with the array's byte 0 as the most significant byte. The same for \<^verbatim>\<open>[20]byte\<close>.
\<close>

type_synonym hash = "256 word"
type_synonym address = "160 word"

definition hash_bytes :: "hash \<Rightarrow> bytes" where
  "hash_bytes h = be_put 32 h"

definition hash_of :: "bytes \<Rightarrow> hash" where
  "hash_of bs = be_get (copy_into 32 bs)"

definition addr_bytes :: "address \<Rightarrow> bytes" where
  "addr_bytes a = be_put 20 a"

definition addr_of :: "bytes \<Rightarrow> address" where
  "addr_of bs = be_get (copy_into 20 bs)"

interpretation hashc: fixed_codec hash_bytes hash_of 32
  by unfold_locales (simp_all add: hash_bytes_def hash_of_def be_get_be_put)

lemma hash_bytes_hash_of: "length bs = 32 \<Longrightarrow> hash_bytes (hash_of bs) = bs"
  using be_put_be_get [of bs, where 'a = 256] by (simp add: hash_bytes_def hash_of_def)

lemma addr_bytes_addr_of: "length bs = 20 \<Longrightarrow> addr_bytes (addr_of bs) = bs"
  using be_put_be_get [of bs, where 'a = 160] by (simp add: addr_bytes_def addr_of_def)

interpretation addrc: fixed_codec addr_bytes addr_of 20
  by unfold_locales (simp_all add: addr_bytes_def addr_of_def be_get_be_put)

lemma length_hash_bytes [simp]: "length (hash_bytes h) = 32"
  by (rule hashc.enc_length)

lemma length_addr_bytes [simp]: "length (addr_bytes a) = 20"
  by (rule addrc.enc_length)

lemmas codec_inj = be64.enc_append_inj be32.enc_append_inj hashc.enc_append_inj
  addrc.enc_append_inj be64.enc_inj be32.enc_inj hashc.enc_inj addrc.enc_inj

subsection \<open>The number a byte string spells\<close>

primrec be_val :: "bytes \<Rightarrow> nat" where
  "be_val [] = 0"
| "be_val (b # bs) = unat b * 256 ^ length bs + be_val bs"

lemma be_val_less: "be_val bs < 256 ^ length bs"
proof (induction bs)
  case Nil
  show ?case by simp
next
  case (Cons b bs)
  have "unat b < 2 ^ LENGTH(8)"
    by (rule unsigned_less)
  then have "(unat b + 1) * 256 ^ length bs \<le> 256 * 256 ^ length bs"
    by (intro mult_right_mono) simp_all
  then have "unat b * 256 ^ length bs + 256 ^ length bs \<le> 256 * 256 ^ length bs"
    by (simp only: add_mult_distrib mult_1)
  with Cons have "be_val (b # bs) < 256 * 256 ^ length bs"
    by (simp only: be_val.simps)
  then show ?case by simp
qed

lemma be_val_append: "be_val (xs @ ys) = be_val xs * 256 ^ length ys + be_val ys"
  by (induction xs) (simp_all add: algebra_simps power_add)

lemma be_val_be_put: "be_val (be_put n w) = unat w mod 256 ^ n"
proof (induction n)
  case 0
  show ?case by simp
next
  case (Suc n)
  have p: "(256::nat) ^ n = 2 ^ (8 * n)"
    by (simp add: power_mult)
  have "unat (ucast (drop_bit (8 * n) w) :: u8) = unat w div 256 ^ n mod 256"
    by (simp add: unsigned_ucast_eq unsigned_drop_bit_eq take_bit_eq_mod drop_bit_eq_div [where 'a = nat] p)
  moreover have "unat w mod 256 ^ Suc n = 256 ^ n * (unat w div 256 ^ n mod 256) + unat w mod 256 ^ n"
    using mod_mult2_eq [of "unat w" "256 ^ n" 256] by (simp add: mult.commute)
  ultimately show ?case
    by (simp add: Suc mult.commute)
qed

lemma be_val_be_put_exact:
  assumes "8 * n = LENGTH('a)"
  shows "be_val (be_put n (w :: 'a::len word)) = unat w"
proof -
  have "(256::nat) ^ n = 2 ^ (8 * n)"
    by (simp add: power_mult)
  with assms have "(256::nat) ^ n = 2 ^ LENGTH('a)"
    by simp
  then show ?thesis
    by (simp add: be_val_be_put)
qed

lemma be_val_hash_bytes: "be_val (hash_bytes h) = unat h"
  by (simp add: hash_bytes_def be_val_be_put_exact)

subsection \<open>Strings as bytes\<close>

lemma of_char_nat_less [simp]: "(of_char c :: nat) < 256"
proof -
  have "(of_char c :: nat) = of_char c mod 256"
    by simp
  then show ?thesis
    by (metis mod_less_divisor zero_less_numeral)
qed

text \<open>A byte and its character: the same number.\<close>

definition byte_of :: "char \<Rightarrow> u8" where
  "byte_of c = of_nat (of_char c)"

definition char_byte :: "u8 \<Rightarrow> char" where
  "char_byte b = char_of (unat b)"

lemma unat_byte_of [simp]: "unat (byte_of c) = of_char c"
  by (simp add: byte_of_def unat_of_nat)

lemma char_byte_of [simp]: "char_byte (byte_of c) = c"
  by (simp add: char_byte_def)

lemma unat_u8_less [simp]: "unat (b :: u8) < 256"
  using unsigned_less [of b] by simp

lemma byte_of_char_byte [simp]: "byte_of (char_byte b) = b"
  by (simp add: byte_of_def char_byte_def)

definition str_bytes :: "string \<Rightarrow> bytes" where
  "str_bytes s = map byte_of s"

definition bytes_str :: "bytes \<Rightarrow> string" where
  "bytes_str bs = map char_byte bs"

lemma bytes_str_bytes [simp]: "bytes_str (str_bytes s) = s"
  by (simp add: bytes_str_def str_bytes_def o_def)

lemma str_bytes_str [simp]: "str_bytes (bytes_str bs) = bs"
  by (simp add: bytes_str_def str_bytes_def o_def)

lemma length_str_bytes [simp]: "length (str_bytes s) = length s"
  by (simp add: str_bytes_def)

lemma length_bytes_str [simp]: "length (bytes_str bs) = length bs"
  by (simp add: bytes_str_def)

subsection \<open>Hexadecimal text\<close>

text \<open>\<^verbatim>\<open>hex.EncodeToString\<close> writes two lower-case digits a byte; \<^verbatim>\<open>hex.DecodeString\<close>
  reads both cases, and fails on any other character and on an odd length.\<close>

definition hex_digit :: "nat \<Rightarrow> char" where
  "hex_digit n = ''0123456789abcdef'' ! n"

definition hex_value :: "char \<Rightarrow> nat option" where
  "hex_value c = (let n = of_char c :: nat in
     if 48 \<le> n \<and> n \<le> 57 then Some (n - 48)
     else if 97 \<le> n \<and> n \<le> 102 then Some (n - 87)
     else if 65 \<le> n \<and> n \<le> 70 then Some (n - 55)
     else None)"

primrec hex_encode :: "bytes \<Rightarrow> string" where
  "hex_encode [] = []"
| "hex_encode (b # bs) = hex_digit (unat b div 16) # hex_digit (unat b mod 16) # hex_encode bs"

fun hex_decode :: "string \<Rightarrow> bytes option" where
  "hex_decode [] = Some []"
| "hex_decode [c] = None"
| "hex_decode (c # d # s) =
     (case (hex_value c, hex_value d) of
        (Some x, Some y) \<Rightarrow> map_option (\<lambda>bs. of_nat (16 * x + y) # bs) (hex_decode s)
      | _ \<Rightarrow> None)"

lemma nat_less_16: "n < 16 \<Longrightarrow> n \<in> {0, 1, 2, 3, 4, 5, 6, 7, 8, 9, 10, 11, 12, 13, 14, 15::nat}"
  by (simp only: insert_iff empty_iff) presburger

lemma hex_value_digit [simp]: "n < 16 \<Longrightarrow> hex_value (hex_digit n) = Some n"
  by (drule nat_less_16) (auto simp: hex_value_def hex_digit_def)

definition hex_alphabet :: "char set" where
  "hex_alphabet = set ''0123456789abcdef''"

lemma hex_digit_in: "n < 16 \<Longrightarrow> hex_digit n \<in> hex_alphabet"
  unfolding hex_digit_def hex_alphabet_def by (rule nth_mem) simp

lemma length_hex_encode [simp]: "length (hex_encode bs) = 2 * length bs"
  by (induction bs) simp_all

lemma hex_decode_encode [simp]: "hex_decode (hex_encode bs) = Some bs"
proof (induction bs)
  case Nil
  show ?case by simp
next
  case (Cons b bs)
  have "unat b < 2 ^ LENGTH(8)"
    by (rule unsigned_less)
  then have "unat b div 16 < 16" "unat b mod 16 < 16"
    by (auto simp: less_mult_imp_div_less)
  moreover have "(of_nat (16 * (unat b div 16) + unat b mod 16) :: u8) = b"
    by (simp del: of_nat_add of_nat_mult)
  ultimately show ?case
    by (simp add: Cons del: of_nat_add of_nat_mult)
qed

lemma hex_decode_length: "hex_decode s = Some bs \<Longrightarrow> length s = 2 * length bs"
  by (induction s arbitrary: bs rule: hex_decode.induct) (auto split: option.splits)

lemma set_hex_encode: "set (hex_encode bs) \<subseteq> hex_alphabet"
proof (induction bs)
  case Nil
  show ?case by simp
next
  case (Cons b bs)
  have "unat b < 2 ^ LENGTH(8)"
    by (rule unsigned_less)
  then have "hex_digit (unat b div 16) \<in> hex_alphabet" "hex_digit (unat b mod 16) \<in> hex_alphabet"
    by (auto intro!: hex_digit_in simp: less_mult_imp_div_less)
  with Cons show ?case by simp
qed

lemma hex_alphabet_value: "c \<in> hex_alphabet \<Longrightarrow> hex_value c \<noteq> None"
  by (auto simp: hex_alphabet_def hex_value_def)

end
