(* ===== verification/GoStrings.thy ===== *)
theory GoStrings
  imports Bytes
begin

text \<open>
  The parts of Go's string semantics the program relies on: a string is bytes, \<^verbatim>\<open>range\<close>
  over it yields runes (UTF-8 decoded, \<open>65533\<close> of width one for an invalid byte), and
  \<^verbatim>\<open>strings.TrimSpace\<close>, \<^verbatim>\<open>HasPrefix\<close>, \<^verbatim>\<open>TrimPrefix\<close>, \<^verbatim>\<open>LastIndex\<close>.
\<close>

subsection \<open>Runes\<close>

abbreviation rune_error :: nat where
  "rune_error \<equiv> 65533"

definition is_cont :: "nat \<Rightarrow> bool" where
  "is_cont b \<longleftrightarrow> 128 \<le> b \<and> b \<le> 191"

text \<open>The rune a byte sequence starts with and the number of bytes it takes.\<close>

fun decode_rune :: "nat list \<Rightarrow> nat \<times> nat" where
  "decode_rune [] = (rune_error, 0)"
| "decode_rune (b0 # bs) =
     (if b0 < 128 then (b0, 1)
      else if b0 < 194 \<or> 244 < b0 then (rune_error, 1)
      else if b0 < 224 then
        (case bs of
           b1 # _ \<Rightarrow> if is_cont b1 then ((b0 - 192) * 64 + (b1 - 128), 2) else (rune_error, 1)
         | _ \<Rightarrow> (rune_error, 1))
      else if b0 < 240 then
        (case bs of
           b1 # b2 # _ \<Rightarrow>
             if (if b0 = 224 then 160 else 128) \<le> b1 \<and> b1 \<le> (if b0 = 237 then 159 else 191) \<and> is_cont b2
             then ((b0 - 224) * 4096 + (b1 - 128) * 64 + (b2 - 128), 3) else (rune_error, 1)
         | _ \<Rightarrow> (rune_error, 1))
      else
        (case bs of
           b1 # b2 # b3 # _ \<Rightarrow>
             if (if b0 = 240 then 144 else 128) \<le> b1 \<and> b1 \<le> (if b0 = 244 then 143 else 191)
                \<and> is_cont b2 \<and> is_cont b3
             then ((b0 - 240) * 262144 + (b1 - 128) * 4096 + (b2 - 128) * 64 + (b3 - 128), 4)
             else (rune_error, 1)
         | _ \<Rightarrow> (rune_error, 1)))"

text \<open>The runes of a string, each with the bytes it was read from.\<close>

function go_segs :: "string \<Rightarrow> (nat \<times> string) list" where
  "go_segs [] = []"
| "go_segs (c # cs) =
     (let (r, w) = decode_rune (map of_char (take 4 (c # cs)))
      in (r, take w (c # cs)) # go_segs (drop (w - 1) cs))"
  by pat_completeness auto
termination
  by (relation "measure length") auto

definition go_runes :: "string \<Rightarrow> nat list" where
  "go_runes s = map fst (go_segs s)"

definition is_ascii :: "string \<Rightarrow> bool" where
  "is_ascii s \<longleftrightarrow> (\<forall>c\<in>set s. (of_char c :: nat) < 128)"

lemma is_ascii_simps [simp]:
  "is_ascii []"
  "is_ascii (c # s) \<longleftrightarrow> (of_char c :: nat) < 128 \<and> is_ascii s"
  "is_ascii (s @ t) \<longleftrightarrow> is_ascii s \<and> is_ascii t"
  by (auto simp: is_ascii_def)

lemma go_segs_ascii: "is_ascii s \<Longrightarrow> go_segs s = map (\<lambda>c. (of_char c, [c])) s"
  by (induction s) (simp_all)

lemma go_runes_ascii: "is_ascii s \<Longrightarrow> go_runes s = map of_char s"
  by (simp add: go_runes_def go_segs_ascii o_def)

subsection \<open>Trimming\<close>

definition is_space_rune :: "nat \<Rightarrow> bool" where
  "is_space_rune r \<longleftrightarrow>
     r \<in> {9, 10, 11, 12, 13, 32, 133, 160, 5760, 8232, 8233, 8239, 8287, 12288} \<or> (8192 \<le> r \<and> r \<le> 8202)"

definition TrimSpace :: "string \<Rightarrow> string" where
  "TrimSpace s =
     (let sp = (\<lambda>p. is_space_rune (fst p))
      in concat (map snd (rev (dropWhile sp (rev (dropWhile sp (go_segs s)))))))"

lemma dropWhile_none: "(\<forall>x\<in>set xs. \<not> P x) \<Longrightarrow> dropWhile P xs = xs"
  by (cases xs) auto

lemma TrimSpace_id:
  assumes "is_ascii s" and "\<forall>c\<in>set s. \<not> is_space_rune (of_char c)"
  shows "TrimSpace s = s"
proof -
  have none: "dropWhile (\<lambda>p. is_space_rune (fst p)) (map (\<lambda>c. (of_char c, [c])) t) = map (\<lambda>c. (of_char c, [c])) t"
    if "set t \<subseteq> set s" for t :: string
    using assms(2) that by (intro dropWhile_none) auto
  have "concat (map (\<lambda>c. [c]) t) = t" for t :: string
    by (induction t) simp_all
  then show ?thesis
    by (simp add: TrimSpace_def go_segs_ascii [OF assms(1)] none rev_map o_def)
qed

subsection \<open>Prefixes and indices\<close>

definition HasPrefix :: "string \<Rightarrow> string \<Rightarrow> bool" where
  "HasPrefix s p \<longleftrightarrow> take (length p) s = p"

definition TrimPrefix :: "string \<Rightarrow> string \<Rightarrow> string" where
  "TrimPrefix s p = (if HasPrefix s p then drop (length p) s else s)"

lemma HasPrefix_append [simp]: "HasPrefix (p @ s) p"
  by (simp add: HasPrefix_def)

lemma TrimPrefix_append [simp]: "TrimPrefix (p @ s) p = s"
  by (simp add: TrimPrefix_def)

text \<open>\<^verbatim>\<open>strings.LastIndex(s, c)\<close> for a one-character \<open>c\<close>: \<open>-1\<close> where it does not occur.\<close>

primrec LastIndex :: "string \<Rightarrow> char \<Rightarrow> int" where
  "LastIndex [] c = -1"
| "LastIndex (d # s) c =
     (let i = LastIndex s c in if 0 \<le> i then i + 1 else if d = c then 0 else -1)"

lemma LastIndex_ge: "-1 \<le> LastIndex s c"
  by (induction s) (auto simp: Let_def)

lemma LastIndex_notin: "c \<notin> set s \<Longrightarrow> LastIndex s c = -1"
  by (induction s) (auto simp: Let_def)

lemma LastIndex_append:
  assumes "c \<notin> set t"
  shows "LastIndex (s @ c # t) c = int (length s)"
  using assms by (induction s) (auto simp: Let_def LastIndex_notin)

subsection \<open>Text that is safe to trim\<close>

lemma hex_not_space: "c \<in> hex_alphabet \<Longrightarrow> \<not> is_space_rune (of_char c) \<and> (of_char c :: nat) < 128"
  by (auto simp: hex_alphabet_def is_space_rune_def)

lemma TrimSpace_hex [simp]: "TrimSpace (hex_encode bs) = hex_encode bs"
proof (rule TrimSpace_id)
  show "is_ascii (hex_encode bs)"
    using set_hex_encode hex_not_space by (fastforce simp: is_ascii_def)
  show "\<forall>c\<in>set (hex_encode bs). \<not> is_space_rune (of_char c)"
    using set_hex_encode hex_not_space by blast
qed

lemma TrimSpace_prefix_hex:
  assumes "is_ascii p" and "\<forall>c\<in>set p. \<not> is_space_rune (of_char c)"
  shows "TrimSpace (p @ hex_encode bs) = p @ hex_encode bs"
proof (rule TrimSpace_id)
  have "is_ascii (hex_encode bs)"
    using set_hex_encode hex_not_space by (fastforce simp: is_ascii_def)
  with assms(1) show "is_ascii (p @ hex_encode bs)" by simp
  show "\<forall>c\<in>set (p @ hex_encode bs). \<not> is_space_rune (of_char c)"
    using assms(2) set_hex_encode hex_not_space by auto
qed

end
