(* ===== verification/GoFloat.thy ===== *)
theory GoFloat
  imports Prelude Complex_Main
begin

text \<open>
  Go's \<^verbatim>\<open>float64\<close>: the finite values are a sign, a mantissa below \<open>2 ^ 53\<close> and a power of
  two, every operation computes the exact result and rounds it to the nearest value, ties
  to even. Rewards, halvings, fees and every number that crosses the JSON-RPC wire pass
  through this type, so the model keeps its rounding.

  Where a value does not fit the target of an integer conversion the language leaves the
  result to the implementation: it is a field of the \<open>platform\<close>, an argument of every
  definition that converts, and no theorem assumes anything about it.
\<close>

datatype f64 = FNaN | FInf (neg: bool) | FFin (neg: bool) nat int

record platform =
  cv_u64 :: "f64 \<Rightarrow> u64"
  cv_u32 :: "f64 \<Rightarrow> u32"
  cv_u8 :: "f64 \<Rightarrow> u8"
  cv_int :: "f64 \<Rightarrow> int"

subsection \<open>Rounding a fraction\<close>

fun bitlen :: "nat \<Rightarrow> nat" where
  "bitlen n = (if n = 0 then 0 else Suc (bitlen (n div 2)))"

declare bitlen.simps [simp del]

text \<open>Division of naturals, rounded to the nearest, ties to even.\<close>

definition rne :: "nat \<Rightarrow> nat \<Rightarrow> nat" where
  "rne n d = (let k = n div d; r = n mod d in if 2 * r < d \<or> (2 * r = d \<and> even k) then k else k + 1)"

definition num_at :: "nat \<Rightarrow> int \<Rightarrow> nat" where
  "num_at p e = (if 0 \<le> e then p else p * 2 ^ nat (- e))"

definition den_at :: "nat \<Rightarrow> int \<Rightarrow> nat" where
  "den_at q e = (if 0 \<le> e then q * 2 ^ nat e else q)"

definition round_exp :: "nat \<Rightarrow> nat \<Rightarrow> int" where
  "round_exp p q =
     (let e0 = int (bitlen p) - int (bitlen q) - 53;
          e1 = (if 2 ^ 53 * den_at q e0 \<le> num_at p e0 then e0 + 1 else e0)
      in max e1 (- 1074))"

definition f64_round :: "bool \<Rightarrow> nat \<Rightarrow> nat \<Rightarrow> f64" where
  "f64_round s p q =
     (if p = 0 then FFin s 0 (- 1074)
      else let e = round_exp p q;
               m = rne (num_at p e) (den_at q e);
               (m', e') = (if m = 2 ^ 53 then (2 ^ 52, e + 1) else (m, e))
           in if 971 < e' then FInf s else FFin s m' e')"

subsection \<open>Constants and operations\<close>

definition f64_of_nat :: "nat \<Rightarrow> f64" where
  "f64_of_nat n = f64_round False n 1"

definition f64_of_u64 :: "u64 \<Rightarrow> f64" where
  "f64_of_u64 w = f64_of_nat (unat w)"

definition f64_of_int :: "int \<Rightarrow> f64" where
  "f64_of_int i = f64_round (i < 0) (nat \<bar>i\<bar>) 1"

text \<open>\<open>m * 2 ^ e\<close>, exact, rounded.\<close>

definition f64_scaled :: "bool \<Rightarrow> nat \<Rightarrow> int \<Rightarrow> f64" where
  "f64_scaled s m e = (if 0 \<le> e then f64_round s (m * 2 ^ nat e) 1 else f64_round s m (2 ^ nat (- e)))"

fun f64_neg :: "f64 \<Rightarrow> f64" where
  "f64_neg FNaN = FNaN"
| "f64_neg (FInf s) = FInf (\<not> s)"
| "f64_neg (FFin s m e) = FFin (\<not> s) m e"

fun f64_mul :: "f64 \<Rightarrow> f64 \<Rightarrow> f64" where
  "f64_mul (FFin s m e) (FFin t n f) = f64_scaled (s \<noteq> t) (m * n) (e + f)"
| "f64_mul (FInf s) (FInf t) = FInf (s \<noteq> t)"
| "f64_mul (FInf s) (FFin t n f) = (if n = 0 then FNaN else FInf (s \<noteq> t))"
| "f64_mul (FFin s m e) (FInf t) = (if m = 0 then FNaN else FInf (s \<noteq> t))"
| "f64_mul _ _ = FNaN"

fun f64_div :: "f64 \<Rightarrow> f64 \<Rightarrow> f64" where
  "f64_div (FFin s m e) (FFin t n f) =
     (if n = 0 then (if m = 0 then FNaN else FInf (s \<noteq> t))
      else if f \<le> e then f64_round (s \<noteq> t) (m * 2 ^ nat (e - f)) n
      else f64_round (s \<noteq> t) m (n * 2 ^ nat (f - e)))"
| "f64_div (FInf s) (FFin t n f) = FInf (s \<noteq> t)"
| "f64_div (FFin s m e) (FInf t) = FFin (s \<noteq> t) 0 (- 1074)"
| "f64_div _ _ = FNaN"

definition signed_at :: "bool \<Rightarrow> nat \<Rightarrow> int \<Rightarrow> int \<Rightarrow> int" where
  "signed_at s m e g = (if s then -1 else 1) * int (m * 2 ^ nat (e - g))"

fun f64_add :: "f64 \<Rightarrow> f64 \<Rightarrow> f64" where
  "f64_add (FFin s m e) (FFin t n f) =
     (let g = min e f; v = signed_at s m e g + signed_at t n f g
      in if v = 0 then FFin (s \<and> t) 0 (- 1074) else f64_scaled (v < 0) (nat \<bar>v\<bar>) g)"
| "f64_add (FInf s) (FInf t) = (if s = t then FInf s else FNaN)"
| "f64_add (FInf s) (FFin t n f) = FInf s"
| "f64_add (FFin s m e) (FInf t) = FInf t"
| "f64_add _ _ = FNaN"

definition f64_sub :: "f64 \<Rightarrow> f64 \<Rightarrow> f64" where
  "f64_sub x y = f64_add x (f64_neg y)"

fun f64_lt :: "f64 \<Rightarrow> f64 \<Rightarrow> bool" where
  "f64_lt (FFin s m e) (FFin t n f) = (let g = min e f in signed_at s m e g < signed_at t n f g)"
| "f64_lt (FInf s) (FInf t) = (s \<and> \<not> t)"
| "f64_lt (FInf s) (FFin t n f) = s"
| "f64_lt (FFin s m e) (FInf t) = (\<not> t)"
| "f64_lt _ _ = False"

text \<open>\<^verbatim>\<open>x == 0\<close> holds for both zeros.\<close>

fun f64_is_zero :: "f64 \<Rightarrow> bool" where
  "f64_is_zero (FFin s m e) = (m = 0)"
| "f64_is_zero _ = False"

subsection \<open>Conversion to integers\<close>

definition trunc_mag :: "nat \<Rightarrow> int \<Rightarrow> nat" where
  "trunc_mag m e = (if 0 \<le> e then m * 2 ^ nat e else m div 2 ^ nat (- e))"

fun f64_trunc :: "f64 \<Rightarrow> int option" where
  "f64_trunc (FFin s m e) = Some (if s then - int (trunc_mag m e) else int (trunc_mag m e))"
| "f64_trunc _ = None"

definition u64_of_f64 :: "platform \<Rightarrow> f64 \<Rightarrow> u64" where
  "u64_of_f64 pl x = (case f64_trunc x of
     Some i \<Rightarrow> if 0 \<le> i \<and> i < 2 ^ 64 then of_int i else cv_u64 pl x
   | None \<Rightarrow> cv_u64 pl x)"

definition u32_of_f64 :: "platform \<Rightarrow> f64 \<Rightarrow> u32" where
  "u32_of_f64 pl x = (case f64_trunc x of
     Some i \<Rightarrow> if 0 \<le> i \<and> i < 2 ^ 32 then of_int i else cv_u32 pl x
   | None \<Rightarrow> cv_u32 pl x)"

definition u8_of_f64 :: "platform \<Rightarrow> f64 \<Rightarrow> u8" where
  "u8_of_f64 pl x = (case f64_trunc x of
     Some i \<Rightarrow> if 0 \<le> i \<and> i < 2 ^ 8 then of_int i else cv_u8 pl x
   | None \<Rightarrow> cv_u8 pl x)"

text \<open>\<^verbatim>\<open>int(x)\<close> and \<^verbatim>\<open>int64(x)\<close>: 64 bits, signed.\<close>

definition int_of_f64 :: "platform \<Rightarrow> f64 \<Rightarrow> int" where
  "int_of_f64 pl x = (case f64_trunc x of
     Some i \<Rightarrow> if - (2 ^ 63) \<le> i \<and> i < 2 ^ 63 then i else cv_int pl x
   | None \<Rightarrow> cv_int pl x)"

subsection \<open>Facts about rounding\<close>

lemma bitlen_0 [simp]: "bitlen 0 = 0"
  by (subst bitlen.simps) simp

lemma bitlen_bounds: "0 < n \<Longrightarrow> 0 < bitlen n \<and> 2 ^ (bitlen n - 1) \<le> n \<and> n < 2 ^ bitlen n"
proof (induction n rule: bitlen.induct)
  case (1 n)
  show ?case
  proof (cases "n div 2 = 0")
    case True
    with "1.prems" have "n = 1" by auto
    moreover have "bitlen 1 = 1" by (subst bitlen.simps) simp
    ultimately show ?thesis by simp
  next
    case False
    then have ih: "0 < bitlen (n div 2)" "2 ^ (bitlen (n div 2) - 1) \<le> n div 2" "n div 2 < 2 ^ bitlen (n div 2)"
      using 1 by simp_all
    have "(2::nat) ^ bitlen (n div 2) = 2 * 2 ^ (bitlen (n div 2) - 1)"
      using ih(1) by (cases "bitlen (n div 2)") simp_all
    then have "(2::nat) ^ bitlen (n div 2) \<le> n" and "n < 2 * (2::nat) ^ bitlen (n div 2)"
      using ih(2,3) by linarith+
    then show ?thesis
      using "1.prems" by (simp add: bitlen.simps [of n])
  qed
qed

lemma rne_exact [simp]: "0 < d \<Longrightarrow> rne (k * d) d = k"
  by (simp add: rne_def)

lemma rne_le:
  assumes "0 < d" and "n \<le> k * d"
  shows "rne n d \<le> k"
proof -
  have "n div d \<le> k"
    using assms div_le_mono [OF assms(2), of d] by simp
  moreover have "n div d < k" if "0 < n mod d"
  proof (rule ccontr)
    assume "\<not> n div d < k"
    then have "k * d \<le> n div d * d" by (simp add: mult_right_mono)
    moreover have "n = n div d * d + n mod d" by simp
    ultimately show False using assms(2) that by linarith
  qed
  ultimately show ?thesis
    using assms(1) by (auto simp: rne_def Let_def)
qed

lemma round_exp_nonpos:
  assumes "0 < q" and "0 < p" and "p < 2 ^ 53 * q"
  shows "round_exp p q \<le> 0"
proof (rule ccontr)
  assume neg: "\<not> round_exp p q \<le> 0"
  define e0 where "e0 = int (bitlen p) - int (bitlen q) - 53"
  have "\<not> 2 ^ 53 * den_at q e0 \<le> num_at p e0" if "e0 = 0"
    using assms(3) that by (simp add: den_at_def num_at_def)
  moreover have "0 \<le> e0" and "e0 = 0 \<Longrightarrow> 2 ^ 53 * den_at q e0 \<le> num_at p e0"
    using neg by (auto simp: round_exp_def e0_def [symmetric] Let_def split: if_splits)
  ultimately have "1 \<le> e0"
    by fastforce
  then have "53 + bitlen q \<le> bitlen p - 1"
    by (simp add: e0_def)
  then have "(2::nat) ^ (53 + bitlen q) \<le> 2 ^ (bitlen p - 1)"
    by (rule power_increasing) simp
  also have "\<dots> \<le> p"
    using bitlen_bounds [OF assms(2)] by simp
  finally have "2 ^ 53 * 2 ^ bitlen q \<le> p"
    by (simp add: power_add)
  moreover have "2 ^ 53 * q \<le> 2 ^ 53 * 2 ^ bitlen q"
    using bitlen_bounds [OF assms(1)] by (intro mult_left_mono) simp_all
  ultimately show False using assms(3) by linarith
qed

text \<open>The value of a float that holds a natural number exactly.\<close>

definition holds_nat :: "f64 \<Rightarrow> nat \<Rightarrow> bool" where
  "holds_nat x n \<longleftrightarrow> (\<exists>m e. x = FFin False m e \<and> e \<le> 0 \<and> m = n * 2 ^ nat (- e))"

lemma trunc_mag_nonpos: "e \<le> 0 \<Longrightarrow> trunc_mag m e = m div 2 ^ nat (- e)"
  by (cases "e = 0") (simp_all add: trunc_mag_def)

lemma holds_nat_trunc: "holds_nat x n \<Longrightarrow> f64_trunc x = Some (int n)"
  by (auto simp: holds_nat_def trunc_mag_nonpos)

lemma f64_round_below:
  assumes q: "0 < q" and le: "p \<le> y * q" and y: "y < 2 ^ 53"
  obtains m e where "f64_round s p q = FFin s m e" "e \<le> 0" "m \<le> y * 2 ^ nat (- e)"
    "p = y * q \<Longrightarrow> m = y * 2 ^ nat (- e)"
proof (cases "p = 0")
  case True
  with q that [of 0 "- 1074"] show thesis by (auto simp: f64_round_def)
next
  case False
  have "y * q < 2 ^ 53 * q"
    using q y by (rule mult_strict_right_mono [rotated])
  with le have "p < 2 ^ 53 * q" by linarith
  with q False have e: "round_exp p q \<le> 0"
    by (intro round_exp_nonpos) simp_all
  define k where "k = nat (- round_exp p q)"
  have num: "num_at p (round_exp p q) = p * 2 ^ k" and den: "den_at q (round_exp p q) = q"
    using e by (auto simp: num_at_def den_at_def k_def)
  define m where "m = rne (p * 2 ^ k) q"
  have "p * 2 ^ k \<le> y * 2 ^ k * q"
    using mult_right_mono [OF le, of "2 ^ k"] by (simp add: ac_simps)
  then have m_le: "m \<le> y * 2 ^ k"
    unfolding m_def using q by (rule rne_le [rotated])
  have m_eq: "m = y * 2 ^ k" if "p = y * q"
  proof -
    have "p * 2 ^ k = (y * 2 ^ k) * q" using that by simp
    then show ?thesis unfolding m_def using q by (simp only: rne_exact)
  qed
  show thesis
  proof (cases "m = 2 ^ 53")
    case True
    have "k \<noteq> 0"
    proof
      assume "k = 0"
      with True m_le y show False by simp
    qed
    then have k: "nat (- (round_exp p q + 1)) = k - 1" and "round_exp p q + 1 \<le> 0"
      by (auto simp: k_def)
    moreover have "f64_round s p q = FFin s (2 ^ 52) (round_exp p q + 1)"
      using False True e by (simp add: f64_round_def Let_def num den m_def [symmetric])
    moreover have "(2::nat) ^ k = 2 * 2 ^ (k - 1)"
      using \<open>k \<noteq> 0\<close> by (cases k) simp_all
    moreover have "2 ^ 52 \<le> y * 2 ^ (k - 1)"
      using m_le True calculation(4) by simp
    moreover have "2 ^ 52 = y * 2 ^ (k - 1)" if "p = y * q"
      using m_eq [OF that] True calculation(4) by simp
    ultimately show thesis
      using that [of "2 ^ 52" "round_exp p q + 1", unfolded k] by blast
  next
    case m53: False
    have "f64_round s p q = FFin s m (round_exp p q)"
      using False m53 e by (simp add: f64_round_def Let_def num den m_def [symmetric])
    then show thesis
      using that [of m "round_exp p q"] e m_le m_eq by (simp add: k_def)
  qed
qed

lemma holds_nat_of_nat: "n < 2 ^ 53 \<Longrightarrow> holds_nat (f64_of_nat n) n"
  using f64_round_below [of 1 n n False] by (auto simp: holds_nat_def f64_of_nat_def)

lemma holds_nat_of_u64: "unat w < 2 ^ 53 \<Longrightarrow> holds_nat (f64_of_u64 w) (unat w)"
  by (simp add: f64_of_u64_def holds_nat_of_nat)

text \<open>A factor between zero and one.\<close>

fun f64_unit :: "f64 \<Rightarrow> bool" where
  "f64_unit (FFin s m e) = (\<not> s \<and> e \<le> 0 \<and> m \<le> 2 ^ nat (- e))"
| "f64_unit _ = False"

lemma f64_mul_unit_below:
  assumes x: "holds_nat x n" and n: "n < 2 ^ 53" and r: "f64_unit r"
  obtains i where "f64_trunc (f64_mul x r) = Some (int i)" "i \<le> n"
proof -
  obtain m e where x': "x = FFin False m e" "e \<le> 0" "m = n * 2 ^ nat (- e)"
    using x by (auto simp: holds_nat_def)
  obtain k f where r': "r = FFin False k f" "f \<le> 0" "k \<le> 2 ^ nat (- f)"
    using r by (cases r) auto
  have "nat (- (e + f)) = nat (- e) + nat (- f)"
    using x'(2) r'(2) by simp
  then have q: "(2::nat) ^ nat (- (e + f)) = 2 ^ nat (- e) * 2 ^ nat (- f)"
    by (simp add: power_add)
  have le: "m * k \<le> n * 2 ^ nat (- (e + f))"
    unfolding q x'(3) using r'(3) by (simp add: mult.assoc)
  have "f64_mul x r = f64_round False (m * k) (2 ^ nat (- (e + f)))"
    using x'(1,2) r'(1,2) by (cases "e + f = 0") (simp_all add: f64_scaled_def)
  moreover obtain m' e' where "f64_round False (m * k) (2 ^ nat (- (e + f))) = FFin False m' e'"
    "e' \<le> 0" "m' \<le> n * 2 ^ nat (- e')"
    by (rule f64_round_below [OF _ le n, of False]) simp_all
  moreover have "m' div 2 ^ nat (- e') \<le> n"
    using calculation(4) div_le_mono [OF calculation(4), of "2 ^ nat (- e')"] by simp
  ultimately show thesis
    using that by (simp add: trunc_mag_nonpos)
qed

lemma holds_nat_mul:
  assumes x: "holds_nat x a" and y: "holds_nat y b" and n: "a * b < 2 ^ 53"
  shows "holds_nat (f64_mul x y) (a * b)"
proof -
  obtain m e where x': "x = FFin False m e" "e \<le> 0" "m = a * 2 ^ nat (- e)"
    using x by (auto simp: holds_nat_def)
  obtain k f where y': "y = FFin False k f" "f \<le> 0" "k = b * 2 ^ nat (- f)"
    using y by (auto simp: holds_nat_def)
  have "nat (- (e + f)) = nat (- e) + nat (- f)"
    using x'(2) y'(2) by simp
  then have eq: "m * k = a * b * 2 ^ nat (- (e + f))"
    unfolding x'(3) y'(3) by (simp add: power_add ac_simps)
  have "f64_mul x y = f64_round False (m * k) (2 ^ nat (- (e + f)))"
    using x'(1,2) y'(1,2) by (cases "e + f = 0") (simp_all add: f64_scaled_def)
  with f64_round_below [OF _ eq_imp_le [OF eq] n, of False] eq show ?thesis
    by (auto simp: holds_nat_def)
qed

subsection \<open>Facts about conversion\<close>

lemma u64_of_holds_nat:
  assumes "holds_nat x n" and "n < 2 ^ 64"
  shows "u64_of_f64 pl x = of_nat n"
  using assms by (simp add: u64_of_f64_def holds_nat_trunc nat_less_iff)

lemma unat_u64_of_trunc:
  assumes "f64_trunc x = Some (int n)" and "n < 2 ^ 64"
  shows "unat (u64_of_f64 pl x) = n"
proof -
  have "int n < 2 ^ 64" using assms(2) by simp
  then have "u64_of_f64 pl x = of_nat n"
    using assms(1) by (simp add: u64_of_f64_def)
  then show ?thesis
    using assms(2) by (simp add: unat_of_nat take_bit_eq_mod)
qed

text \<open>Below \<open>2 ^ 53\<close> the trip from an integer to a float and back changes nothing.\<close>

lemma u64_f64_roundtrip: "unat w < 2 ^ 53 \<Longrightarrow> u64_of_f64 pl (f64_of_u64 w) = w"
  using u64_of_holds_nat [OF holds_nat_of_u64] by simp

lemma u64_of_unit_mul_le:
  assumes "unat w < 2 ^ 53" and "f64_unit r"
  shows "unat (u64_of_f64 pl (f64_mul (f64_of_u64 w) r)) \<le> unat w"
proof -
  obtain i where i: "f64_trunc (f64_mul (f64_of_u64 w) r) = Some (int i)" "i \<le> unat w"
    using f64_mul_unit_below [OF holds_nat_of_u64 [OF assms(1)] assms(1,2)] .
  then show ?thesis
    using unat_u64_of_trunc [OF i(1)] assms(1) by simp
qed

subsection \<open>Evaluation\<close>

lemma bitlen_numeral: "bitlen (numeral v) = Suc (bitlen (numeral v div 2))"
  by (subst bitlen.simps) simp

lemma bitlen_one: "bitlen (Suc 0) = Suc 0"
  by (subst bitlen.simps) simp

lemmas f64_evals = f64_round_def round_exp_def bitlen_numeral bitlen_one num_at_def den_at_def rne_def
  f64_of_nat_def f64_scaled_def trunc_mag_def Let_def

text \<open>The literals \<open>0.05\<close>, \<open>0.2\<close>, \<open>0.01\<close> and \<open>100.0\<close> of the configuration and the code.\<close>

lemma f64_literals:
  "f64_round False 5 100 = FFin False 7205759403792794 (- 57)"
  "f64_round False 1 5 = FFin False 7205759403792794 (- 55)"
  "f64_round False 1 100 = FFin False 5764607523034235 (- 59)"
  "f64_of_nat 100 = FFin False 7036874417766400 (- 46)"
  "f64_of_nat 1 = FFin False 4503599627370496 (- 52)"
  by (simp_all add: f64_evals)

text \<open>A platform for concrete evaluations: every unrepresentable conversion gives zero.\<close>

definition zero_platform :: platform where
  "zero_platform = \<lparr>cv_u64 = (\<lambda>_. 0), cv_u32 = (\<lambda>_. 0), cv_u8 = (\<lambda>_. 0), cv_int = (\<lambda>_. 0)\<rparr>"

subsection \<open>Adding to and subtracting from one\<close>

lemma le_rne: "0 < d \<Longrightarrow> k * d \<le> n \<Longrightarrow> k \<le> rne n d"
  using div_le_mono [of "k * d" n d] by (simp add: rne_def Let_def)

lemma round_exp_pos:
  assumes q: "0 < q" and e: "0 < round_exp p q"
  shows "den_at q (round_exp p q) \<le> num_at p (round_exp p q)"
proof -
  define e where "e = nat (round_exp p q)"
  have ri: "round_exp p q = int e" using e by (simp add: e_def)
  have "int e \<le> int (bitlen p) - int (bitlen q) - 52"
    using ri e by (auto simp: round_exp_def Let_def split: if_splits)
  then have le: "bitlen q + e \<le> bitlen p - 1" and "0 < bitlen p"
    by simp_all
  then have p: "0 < p" by (metis bitlen_0 gr0I less_numeral_extra(3))
  have "q * 2 ^ e \<le> 2 ^ bitlen q * 2 ^ e"
    using bitlen_bounds [OF q] by simp
  also have "\<dots> = 2 ^ (bitlen q + e)" by (simp add: power_add)
  also have "\<dots> \<le> 2 ^ (bitlen p - 1)" using le by (intro power_increasing) simp_all
  also have "\<dots> \<le> p" using bitlen_bounds [OF p] by simp
  finally show ?thesis by (simp add: ri den_at_def num_at_def)
qed

text \<open>Non-negative and not \<open>NaN\<close>.\<close>

fun f64_nonneg :: "f64 \<Rightarrow> bool" where
  "f64_nonneg FNaN = False"
| "f64_nonneg (FInf s) = (\<not> s)"
| "f64_nonneg (FFin s m e) = (\<not> s)"

lemma f64_nonneg_round [simp]: "f64_nonneg (f64_round False p q)"
  by (simp add: f64_round_def Let_def split: prod.splits)

lemma f64_nonneg_of_u64 [simp]: "f64_nonneg (f64_of_u64 w)" "f64_nonneg (f64_of_nat n)"
  by (simp_all add: f64_of_u64_def f64_of_nat_def)

lemma f64_nonneg_div: "f64_nonneg x \<Longrightarrow> f64_nonneg (f64_div x (FFin False (Suc m) e))"
  by (cases x) simp_all

lemma f64_round_above:
  assumes q: "0 < q" and le: "q \<le> p"
  shows "f64_round s p q = FInf s \<or>
    (\<exists>m e. f64_round s p q = FFin s m e \<and> 2 ^ nat (- e) \<le> m)"
proof -
  let ?e = "round_exp p q"
  define m where "m = rne (num_at p ?e) (den_at q ?e)"
  have m: "2 ^ nat (- ?e) \<le> m"
  proof (cases "0 < ?e")
    case True
    have "0 < den_at q ?e" using q by (simp add: den_at_def)
    then show ?thesis
      using True le_rne [of "den_at q ?e" 1] round_exp_pos [OF q True] by (simp add: m_def)
  next
    case False
    have "2 ^ nat (- ?e) * q \<le> p * 2 ^ nat (- ?e)"
      using le by (simp add: mult.commute)
    moreover have "num_at p ?e = p * 2 ^ nat (- ?e)" "den_at q ?e = q"
      using False by (auto simp: num_at_def den_at_def)
    ultimately show ?thesis
      unfolding m_def using q by (simp add: le_rne)
  qed
  have "2 ^ nat (- (?e + 1)) \<le> (2::nat) ^ 52" if "m = 2 ^ 53"
  proof -
    have "(2::nat) ^ nat (- ?e) \<le> 2 ^ 53" using m that by simp
    then have "nat (- ?e) \<le> 53" by (rule power_le_imp_le_exp [rotated]) simp
    then show ?thesis by (intro power_increasing) simp_all
  qed
  with m show ?thesis
    using assms by (auto simp: f64_round_def Let_def m_def [symmetric])
qed

lemma f64_one: "f64_of_nat 1 = FFin False (2 ^ 52) (- 52)"
  by (simp add: f64_literals del: One_nat_def)

lemma pow_split: "f \<le> 0 \<Longrightarrow> g \<le> f \<Longrightarrow> (2::nat) ^ nat (f - g) * 2 ^ nat (- f) = 2 ^ nat (- g)"
  by (simp add: power_add [symmetric] nat_add_distrib [symmetric])

lemma pow_split_pos: "0 \<le> e \<Longrightarrow> g \<le> 0 \<Longrightarrow> (2::nat) ^ nat (e - g) = 2 ^ nat e * 2 ^ nat (- g)"
  by (simp add: power_add [symmetric] nat_add_distrib [symmetric])

lemma mult_pow_less: "a * 2 ^ k < 2 ^ k \<longleftrightarrow> a = 0" "2 ^ k < a * 2 ^ k \<longleftrightarrow> 1 < (a::nat)"
  by (cases a; simp)+

lemma lt_one_iff:
  "f64_lt (FFin False m e) (f64_of_nat 1) \<longleftrightarrow> (if 0 \<le> e then m = 0 else m < 2 ^ nat (- e))"
proof -
  let ?g = "min e (- 52)"
  have one: "2 ^ 52 * 2 ^ nat (- 52 - ?g) = (2::nat) ^ nat (- ?g)"
    using pow_split [of "- 52" ?g] by (simp add: mult.commute)
  have "f64_lt (FFin False m e) (f64_of_nat 1) \<longleftrightarrow> m * 2 ^ nat (e - ?g) < 2 ^ nat (- ?g)"
    by (simp only: f64_one f64_lt.simps Let_def signed_at_def one [symmetric] if_False mult_1 of_nat_less_iff)
  also have "\<dots> \<longleftrightarrow> (if 0 \<le> e then m = 0 else m < 2 ^ nat (- e))"
  proof (cases "0 \<le> e")
    case True
    then have "(2::nat) ^ nat (e - ?g) = 2 ^ nat e * 2 ^ nat (- ?g)"
      by (intro pow_split_pos) simp_all
    then have "m * 2 ^ nat (e - ?g) = m * 2 ^ nat e * 2 ^ nat (- ?g)"
      by (simp only: mult.assoc)
    then show ?thesis using True by (simp only: mult_pow_less if_True) simp
  next
    case False
    then have "2 ^ nat (- ?g) = (2::nat) ^ nat (e - ?g) * 2 ^ nat (- e)"
      by (simp add: pow_split)
    then show ?thesis using False by (simp add: mult.commute)
  qed
  finally show ?thesis .
qed

lemma one_lt_iff:
  "f64_lt (f64_of_nat 1) (FFin False m e) \<longleftrightarrow> (if 0 \<le> e then 1 < m * 2 ^ nat e else 2 ^ nat (- e) < m)"
proof -
  let ?g = "min (- 52) e"
  have one: "2 ^ 52 * 2 ^ nat (- 52 - ?g) = (2::nat) ^ nat (- ?g)"
    using pow_split [of "- 52" ?g] by (simp add: mult.commute)
  have "f64_lt (f64_of_nat 1) (FFin False m e) \<longleftrightarrow> 2 ^ nat (- ?g) < m * 2 ^ nat (e - ?g)"
    by (simp only: f64_one f64_lt.simps Let_def signed_at_def one [symmetric] if_False mult_1 of_nat_less_iff)
  also have "\<dots> \<longleftrightarrow> (if 0 \<le> e then 1 < m * 2 ^ nat e else 2 ^ nat (- e) < m)"
  proof (cases "0 \<le> e")
    case True
    then have "(2::nat) ^ nat (e - ?g) = 2 ^ nat e * 2 ^ nat (- ?g)"
      by (intro pow_split_pos) simp_all
    then have "m * 2 ^ nat (e - ?g) = m * 2 ^ nat e * 2 ^ nat (- ?g)"
      by (simp only: mult.assoc)
    then show ?thesis using True by (simp only: mult_pow_less if_True)
  next
    case False
    then have "2 ^ nat (- ?g) = (2::nat) ^ nat (e - ?g) * 2 ^ nat (- e)"
      by (simp add: pow_split)
    then show ?thesis using False by (simp add: mult.commute)
  qed
  finally show ?thesis .
qed

lemma f64_add_one_fin:
  obtains n k where "f64_add (f64_of_nat 1) (FFin False m e) = f64_round False n (2 ^ k)" "2 ^ k \<le> n"
proof -
  define g where "g = min (- 52) e"
  define n where "n = 2 ^ 52 * 2 ^ nat (- 52 - g) + m * 2 ^ nat (e - g)"
  have one: "2 ^ 52 * 2 ^ nat (- 52 - g) = (2::nat) ^ nat (- g)"
    using pow_split [of "- 52" g] by (simp add: mult.commute g_def)
  have v: "signed_at False (2 ^ 52) (- 52) g + signed_at False m e g = int n"
    by (simp add: signed_at_def n_def)
  have n: "2 ^ nat (- g) \<le> n" unfolding n_def one by simp
  then have "0 < n" by (rule less_le_trans [rotated]) simp
  then have "f64_add (f64_of_nat 1) (FFin False m e) = f64_round False n (2 ^ nat (- g))"
    unfolding f64_one f64_add.simps Let_def g_def [symmetric] v by (simp add: f64_scaled_def g_def)
  then show thesis using n that by blast
qed

lemma f64_add_one_not_below:
  assumes "f64_nonneg x"
  shows "\<not> f64_lt (f64_add (f64_of_nat 1) x) (f64_of_nat 1)"
proof (cases x)
  case (FFin s m e)
  with assms have x: "x = FFin False m e" by simp
  obtain n k where "f64_add (f64_of_nat 1) x = f64_round False n (2 ^ k)" "2 ^ k \<le> n"
    unfolding x by (rule f64_add_one_fin)
  moreover from f64_round_above [OF zero_less_power [OF zero_less_numeral] this(2), of False]
  have "\<not> f64_lt (f64_round False n (2 ^ k)) (f64_of_nat 1)"
  proof (elim disjE exE conjE)
    assume "f64_round False n (2 ^ k) = FInf False"
    then show ?thesis by (simp only: f64_one f64_lt.simps simp_thms)
  next
    fix m e
    assume "f64_round False n (2 ^ k) = FFin False m e" "2 ^ nat (- e) \<le> m"
    moreover from this have "m \<noteq> 0" by (metis power_not_zero le_zero_eq zero_neq_numeral)
    ultimately show ?thesis by (simp add: lt_one_iff not_less del: One_nat_def)
  qed
  ultimately show ?thesis by (simp only: simp_thms)
next
  case (FInf s)
  with assms show ?thesis
    by (simp only: f64_one f64_add.simps f64_lt.simps f64_nonneg.simps) blast
qed (use assms in simp)

lemma f64_sub_one_not_above:
  assumes "f64_nonneg x"
  shows "\<not> f64_lt (f64_of_nat 1) (f64_sub (f64_of_nat 1) x)"
proof (cases x)
  case (FFin s m e)
  with assms have x: "f64_neg x = FFin True m e" by simp
  define g where "g = min (- 52) e"
  have one: "2 ^ 52 * 2 ^ nat (- 52 - g) = (2::nat) ^ nat (- g)"
    using pow_split [of "- 52" g] by (simp add: mult.commute g_def)
  define v where "v = signed_at False (2 ^ 52) (- 52) g + signed_at True m e g"
  have v: "v \<le> int (2 ^ nat (- g))"
    by (simp add: v_def signed_at_def one [symmetric])
  have r: "f64_sub (f64_of_nat 1) x = (if v = 0 then FFin False 0 (- 1074)
      else f64_round (v < 0) (nat \<bar>v\<bar>) (2 ^ nat (- g)))"
    unfolding f64_sub_def x f64_one f64_add.simps Let_def g_def [symmetric] v_def [symmetric]
    by (simp add: f64_scaled_def g_def)
  consider "v = 0" | "v < 0" | "0 < v" by linarith
  then show ?thesis
  proof cases
    case 3
    then have "nat \<bar>v\<bar> \<le> 1 * 2 ^ nat (- g)" using v by (simp add: nat_le_iff)
    then obtain k f where f: "f64_round False (nat \<bar>v\<bar>) (2 ^ nat (- g)) = FFin False k f"
        "f \<le> 0" "k \<le> 1 * 2 ^ nat (- f)"
      by (rule f64_round_below [rotated]) simp_all
    have eq: "f64_sub (f64_of_nat 1) x = FFin False k f"
      using r f(1) 3 by simp
    show ?thesis
      using f(2,3) unfolding one_lt_iff eq by (cases "f = 0") simp_all
  next
    case 2
    then have "f64_sub (f64_of_nat 1) x = f64_round True (nat \<bar>v\<bar>) (2 ^ nat (- g))" using r by simp
    moreover have "\<not> f64_lt (f64_of_nat 1) (FFin True k f)" for k f
    proof -
      have "signed_at True k f j \<le> 0" "0 \<le> signed_at False (2 ^ 52) (- 52) j" for j
        by (simp_all add: signed_at_def)
      then show ?thesis unfolding f64_one f64_lt.simps Let_def by (meson leD order_trans)
    qed
    moreover have "f64_round True p q = FInf True \<or> (\<exists>k f. f64_round True p q = FFin True k f)" for p q
      by (auto simp: f64_round_def Let_def split: prod.splits)
    moreover have "\<not> f64_lt (f64_of_nat 1) (FInf True)"
      by (simp only: f64_one f64_lt.simps simp_thms)
    ultimately show ?thesis by metis
  next
    case 1
    then show ?thesis using r by (simp add: one_lt_iff del: One_nat_def)
  qed
next
  case (FInf s)
  with assms show ?thesis
    by (simp only: f64_sub_def f64_one f64_neg.simps f64_add.simps f64_lt.simps f64_nonneg.simps) blast
qed (use assms in simp)

end
