(* ===== verification/Sha256Vector.thy ===== *)
theory Sha256Vector
  imports Sha256
begin

text \<open>
  A known-answer test of \<open>sha256\<close>: the digest FIPS 180-4 publishes for the message
  \<open>abc\<close>, computed by the simplifier. Word additions and rotations are brought back
  below \<open>2 ^ 32\<close> by \<open>norm32\<close>, the identity, so that every intermediate numeral is small.
\<close>

definition norm32 :: "u32 \<Rightarrow> u32" where
  "norm32 w = w"

lemma norm32_numeral:
  "norm32 (numeral v) = of_nat (take_bit 32 (numeral v))" "norm32 0 = 0" "norm32 1 = 1"
proof -
  have "(of_nat (take_bit 32 n) :: u32) = of_nat n" for n
    by (simp add: of_nat_take_bit take_bit_word_eq_self del: take_bit_of_nat)
  then show "norm32 (numeral v) = of_nat (take_bit 32 (numeral v))" "norm32 0 = 0" "norm32 1 = 1"
    by (simp_all only: norm32_def of_nat_numeral)
qed

definition ext_word :: "u32 list \<Rightarrow> u32" where
  "ext_word ws =
     norm32 (ws ! 15 + (rotr 7 (ws ! 14) XOR rotr 18 (ws ! 14) XOR drop_bit 3 (ws ! 14))
       + ws ! 6 + (rotr 17 (ws ! 1) XOR rotr 19 (ws ! 1) XOR drop_bit 10 (ws ! 1)))"

lemma sha_extend_step: "sha_extend (Suc n) ws = sha_extend n (ext_word ws # ws)"
  by (simp add: norm32_def ext_word_def Let_def)

lemma sha_extend_eval:
  "sha_extend 0 ws = ws"
  "sha_extend (Suc 0) ws = ext_word ws # ws"
  "sha_extend (numeral v) ws = sha_extend (pred_numeral v) (ext_word ws # ws)"
  by (simp_all only: numeral_eq_Suc sha_extend_step sha_extend.simps(1))

lemma rotr_eval: "rotr n w = norm32 (drop_bit n w OR push_bit (32 - n) w)"
  by (simp add: norm32_def rotr_def)

lemma sha_round_eval:
  "sha_round [a, b, c, d, e, f, g, h] (k, w) =
     (let t1 = norm32 (h + (rotr 6 e XOR rotr 11 e XOR rotr 25 e) + ((e AND f) XOR (NOT e AND g)) + k + w);
          t2 = (rotr 2 a XOR rotr 13 a XOR rotr 22 a) + ((a AND b) XOR (a AND c) XOR (b AND c))
      in [norm32 (t1 + t2), a, b, c, norm32 (d + t1), e, f, g])"
  by (simp add: norm32_def)

lemma replicate_eval: "replicate (numeral v) x = x # replicate (pred_numeral v) x"
  by (simp add: numeral_eq_Suc)

lemma be_put_eval:
  "be_put (numeral v) w = ucast (drop_bit (8 * pred_numeral v) w) # be_put (pred_numeral v) w"
  by (simp only: numeral_eq_Suc be_put.simps)

lemma sha_pad_abc: "sha_pad [97, 98, 99] = [97, 98, 99, 128] @ replicate 52 0 @ [0, 0, 0, 0, 0, 0, 0, 24]"
  by (simp add: sha_pad_def be_put_eval)

lemma sha_schedule_abc:
  "rev (sha_words (sha_pad [97, 98, 99])) = [24, 0, 0, 0, 0, 0, 0, 0, 0, 0, 0, 0, 0, 0, 0, 1633837952]"
  by (simp add: sha_pad_abc replicate_eval)

lemma sha_block_abc:
  "sha_block sha_init (sha_pad [97, 98, 99]) =
     map norm32 (map2 (+) sha_init (foldl sha_round sha_init (zip sha_k (rev (sha_extend 48
       [24, 0, 0, 0, 0, 0, 0, 0, 0, 0, 0, 0, 0, 0, 0, 1633837952])))))"
  by (simp add: sha_block_def sha_schedule_abc norm32_def [abs_def])

lemma sha_digest_abc:
  "sha_block sha_init (sha_pad [97, 98, 99]) =
     [0xba7816bf, 0x8f01cfea, 0x414140de, 0x5dae2223, 0xb00361a3, 0x96177a9c, 0xb410ff61, 0xf20015ad]"
  unfolding sha_block_abc
  by (simp add: sha_init_def sha_k_def sha_extend_eval ext_word_def sha_round_eval rotr_eval norm32_numeral
      del: sha_extend.simps sha_round.simps)

lemma sha256_abc:
  "sha256 [97, 98, 99] =
     [0xba, 0x78, 0x16, 0xbf, 0x8f, 0x01, 0xcf, 0xea, 0x41, 0x41, 0x40, 0xde, 0x5d, 0xae, 0x22, 0x23,
      0xb0, 0x03, 0x61, 0xa3, 0x96, 0x17, 0x7a, 0x9c, 0xb4, 0x10, 0xff, 0x61, 0xf2, 0x00, 0x15, 0xad]"
proof -
  have "length (sha_pad [97, 98, 99]) = 64"
    by (simp add: sha_pad_abc)
  then have "sha256 [97, 98, 99] = concat (map (be_put 4) (sha_block sha_init (sha_pad [97, 98, 99])))"
    by (simp add: sha256_def)
  then show ?thesis
    by (simp add: sha_digest_abc be_put_eval)
qed

end
