(* ===== verification/CoreTypes.thy ===== *)
theory CoreTypes
  imports GoStrings GoFloat Sha256
begin

text \<open>
  \<^verbatim>\<open>core/types.go\<close>: addresses and their text, blocks, transactions and the bytes that are
  hashed to identify them, the genesis configuration and the rewards it fixes. A field of
  a Go struct keeps its name behind a prefix for the struct. A nil slice and an empty one
  are both the empty list: the code distinguishes them nowhere.
\<close>

subsection \<open>Addresses\<close>

datatype addr_error = InvalidHexAddress | UnsupportedAddressFormat

definition strip_0x :: "string \<Rightarrow> string" where
  "strip_0x s = (if HasPrefix s ''0x'' \<or> HasPrefix s ''0X'' then drop 2 s else s)"

text \<open>\<^verbatim>\<open>hex.DecodeString\<close> followed by \<^verbatim>\<open>len(b) == 20\<close>.\<close>

definition hex20 :: "string \<Rightarrow> bytes option" where
  "hex20 s = (case hex_decode s of Some b \<Rightarrow> if length b = 20 then Some b else None | None \<Rightarrow> None)"

definition AddressFromString :: "string \<Rightarrow> address" where
  "AddressFromString s0 =
     (let s = TrimSpace s0 in
      if HasPrefix s ''kalon1'' then
        (let hexStr = TrimPrefix s ''kalon1'' in
         if length hexStr = 40 then (case hex20 hexStr of Some b \<Rightarrow> addr_of b | None \<Rightarrow> 0) else 0)
      else
        (let s' = strip_0x s in
         if length s' = 40 then (case hex20 s' of Some b \<Rightarrow> addr_of b | None \<Rightarrow> 0) else 0))"

definition ParseAddress :: "string \<Rightarrow> addr_error + address" where
  "ParseAddress addrStr =
     (let s = TrimSpace addrStr in
      if HasPrefix s ''kalon1'' then Inr (AddressFromString s)
      else
        (let s' = strip_0x s in
         if length s' = 40
         then (case hex20 s' of Some b \<Rightarrow> Inr (addr_of b) | None \<Rightarrow> Inl InvalidHexAddress)
         else Inl UnsupportedAddressFormat))"

definition Address_String :: "address \<Rightarrow> string" where
  "Address_String a = hex_encode (addr_bytes a)"

text \<open>\<^verbatim>\<open>Hash.String\<close> is the raw bytes as a string, not their hexadecimal text.\<close>

definition Hash_String :: "hash \<Rightarrow> string" where
  "Hash_String h = bytes_str (hash_bytes h)"

subsection \<open>Transactions and blocks\<close>

record tx_input =
  in_PreviousTxHash :: hash
  in_Index :: u32
  in_Signature :: bytes

record tx_output =
  out_Address :: address
  out_Amount :: u64

record transaction =
  tx_From :: address
  tx_To :: address
  tx_Amount :: u64
  tx_Nonce :: u64
  tx_Fee :: u64
  tx_GasUsed :: u64
  tx_GasPrice :: u64
  tx_Data :: bytes
  tx_Signature :: bytes
  tx_Hash :: hash
  tx_Inputs :: "tx_input list"
  tx_Outputs :: "tx_output list"
  tx_Timestamp :: gotime

record block_header =
  bh_ParentHash :: hash
  bh_Number :: u64
  bh_Timestamp :: gotime
  bh_Difficulty :: u64
  bh_Miner :: address
  bh_Nonce :: u64
  bh_MerkleRoot :: hash
  bh_TxCount :: u32
  bh_NetworkFee :: u64
  bh_TreasuryFee :: u64

record block =
  blk_Header :: block_header
  blk_Txs :: "transaction list"
  blk_Hash :: hash

text \<open>The zero value of \<^verbatim>\<open>time.Time\<close>: January 1 of year 1, UTC.\<close>

definition zero_time :: gotime where
  "zero_time = - 62135596800 * 1000000000"

definition zero_tx :: transaction where
  "zero_tx = \<lparr>tx_From = 0, tx_To = 0, tx_Amount = 0, tx_Nonce = 0, tx_Fee = 0, tx_GasUsed = 0,
     tx_GasPrice = 0, tx_Data = [], tx_Signature = [], tx_Hash = 0, tx_Inputs = [], tx_Outputs = [],
     tx_Timestamp = zero_time\<rparr>"

definition zero_header :: block_header where
  "zero_header = \<lparr>bh_ParentHash = 0, bh_Number = 0, bh_Timestamp = zero_time, bh_Difficulty = 0,
     bh_Miner = 0, bh_Nonce = 0, bh_MerkleRoot = 0, bh_TxCount = 0, bh_NetworkFee = 0, bh_TreasuryFee = 0\<rparr>"

definition zero_block :: block where
  "zero_block = \<lparr>blk_Header = zero_header, blk_Txs = [], blk_Hash = 0\<rparr>"

text \<open>\<^verbatim>\<open>uint64(t.Unix())\<close> and \<^verbatim>\<open>uint64(t.UnixNano())\<close>.\<close>

definition unix_u64 :: "gotime \<Rightarrow> u64" where
  "unix_u64 t = word_of_int (t div 1000000000)"

definition unix_nano_u64 :: "gotime \<Rightarrow> u64" where
  "unix_nano_u64 t = word_of_int t"

text \<open>The 136 bytes \<^verbatim>\<open>Block.CalculateHash\<close> hashes.\<close>

definition header_preimage :: "block_header \<Rightarrow> bytes" where
  "header_preimage h =
     hash_bytes (bh_ParentHash h) @ be_put 8 (bh_Number h) @ be_put 8 (unix_u64 (bh_Timestamp h)) @
     be_put 8 (bh_Difficulty h) @ addr_bytes (bh_Miner h) @ be_put 8 (bh_Nonce h) @
     hash_bytes (bh_MerkleRoot h) @ be_put 4 (bh_TxCount h) @ be_put 8 (bh_NetworkFee h) @
     be_put 8 (bh_TreasuryFee h)"

definition Block_CalculateHash :: "block \<Rightarrow> hash" where
  "Block_CalculateHash b = Sum256 (header_preimage (blk_Header b))"

definition tx_preimage :: "transaction \<Rightarrow> bytes" where
  "tx_preimage tx =
     addr_bytes (tx_From tx) @ addr_bytes (tx_To tx) @ be_put 8 (tx_Amount tx) @ be_put 8 (tx_Nonce tx) @
     be_put 8 (tx_Fee tx) @ be_put 8 (tx_GasUsed tx) @ be_put 8 (tx_GasPrice tx) @ tx_Data tx"

definition Tx_CalculateHash :: "transaction \<Rightarrow> hash" where
  "Tx_CalculateHash tx = Sum256 (tx_preimage tx)"

definition IsValid :: "transaction \<Rightarrow> bool" where
  "IsValid tx =
     (if tx_Amount tx = 0 \<and> tx_Fee tx = 0 then False
      else if tx_From tx = 0 \<or> tx_To tx = 0 then False
      else if 0 < length (tx_Inputs tx) \<and> length (tx_Signature tx) = 0 then False
      else True)"

subsection \<open>The genesis configuration\<close>

record halving_event =
  he_AfterBlocks :: u64
  he_RewardMultiplier :: f64

record launch_guard =
  lg_Enabled :: bool
  lg_DurationHours :: u64
  lg_DifficultyFloorMultiplier :: f64
  lg_InitialReward :: f64

record difficulty_config =
  dc_Algo :: string
  dc_Window :: u64
  dc_InitialDifficulty :: u64
  dc_MaxAdjustPerBlockPct :: u64
  dc_LaunchGuard :: launch_guard

record address_format =
  af_Type :: string
  af_HRP :: string

record premine_config =
  pc_Enabled :: bool

record network_fee_config =
  nf_BlockFeeRate :: f64
  nf_TxFeeShareTreasury :: f64
  nf_BaseTxFee :: f64
  nf_GasPrice :: u64

record governance_parameters =
  gp_NetworkFeeRate :: f64
  gp_TxFeeShareTreasury :: f64
  gp_TreasuryCapPercent :: u64

record governance_config =
  gc_Parameters :: governance_parameters

record genesis_config =
  g_ChainID :: u64
  g_Name :: string
  g_Symbol :: string
  g_BlockTimeTarget :: u64
  g_MaxSupply :: u64
  g_InitialBlockReward :: f64
  g_HalvingSchedule :: "halving_event list"
  g_Difficulty :: difficulty_config
  g_AddressFormat :: address_format
  g_Premine :: premine_config
  g_TreasuryAddress :: string
  g_NetworkFee :: network_fee_config
  g_Governance :: governance_config

subsection \<open>Rewards and fees\<close>

text \<open>
  \<^verbatim>\<open>DurationHours * 3600 / BlockTimeTarget\<close>: the product wraps, and a block time of zero
  is a division by zero, a panic.
\<close>

definition launch_guard_blocks :: "genesis_config \<Rightarrow> go_panic + u64" where
  "launch_guard_blocks g =
     (if g_BlockTimeTarget g = 0 then Inl DivideByZero
      else Inr (lg_DurationHours (dc_LaunchGuard (g_Difficulty g)) * 3600 div g_BlockTimeTarget g))"

primrec apply_halvings :: "u64 \<Rightarrow> halving_event list \<Rightarrow> f64 \<Rightarrow> f64" where
  "apply_halvings height [] r = r"
| "apply_halvings height (h # hs) r =
     apply_halvings height hs (if he_AfterBlocks h \<le> height then f64_mul r (he_RewardMultiplier h) else r)"

definition GetCurrentReward :: "genesis_config \<Rightarrow> u64 \<Rightarrow> go_panic + f64" where
  "GetCurrentReward g height =
     (let guard = dc_LaunchGuard (g_Difficulty g);
          halved = apply_halvings height (g_HalvingSchedule g) (g_InitialBlockReward g)
      in if lg_Enabled guard then
           (case launch_guard_blocks g of
              Inl e \<Rightarrow> Inl e
            | Inr n \<Rightarrow> if height < n then Inr (lg_InitialReward guard) else Inr halved)
         else Inr halved)"

record block_reward =
  br_MinerReward :: u64
  br_TreasuryReward :: u64
  br_TotalReward :: u64

definition micro :: f64 where
  "micro = f64_of_nat 1000000"

definition CalculateNetworkFees :: "platform \<Rightarrow> genesis_config \<Rightarrow> f64 \<Rightarrow> u64 \<Rightarrow> block_reward" where
  "CalculateNetworkFees pl g blockReward txFees =
     (let totalReward = u64_of_f64 pl (f64_mul blockReward micro);
          treasuryFromBlock = u64_of_f64 pl (f64_mul (f64_of_u64 totalReward) (nf_BlockFeeRate (g_NetworkFee g)));
          minerFromBlock = totalReward - treasuryFromBlock;
          treasuryFromTx = u64_of_f64 pl (f64_mul (f64_of_u64 txFees) (nf_TxFeeShareTreasury (g_NetworkFee g)));
          minerFromTx = txFees - treasuryFromTx
      in \<lparr>br_MinerReward = minerFromBlock + minerFromTx,
          br_TreasuryReward = treasuryFromBlock + treasuryFromTx,
          br_TotalReward = totalReward + txFees\<rparr>)"

subsection \<open>What identifies a block and a transaction\<close>

text \<open>
  The bytes hashed to identify a block determine every header field, the timestamp to
  the second: no two headers that differ in a field share a preimage, so that two blocks
  with one hash are the same header up to a collision of SHA-256.
\<close>

theorem header_preimage_injective:
  "header_preimage h = header_preimage h' \<longleftrightarrow>
     bh_ParentHash h = bh_ParentHash h' \<and> bh_Number h = bh_Number h' \<and>
     unix_u64 (bh_Timestamp h) = unix_u64 (bh_Timestamp h') \<and> bh_Difficulty h = bh_Difficulty h' \<and>
     bh_Miner h = bh_Miner h' \<and> bh_Nonce h = bh_Nonce h' \<and> bh_MerkleRoot h = bh_MerkleRoot h' \<and>
     bh_TxCount h = bh_TxCount h' \<and> bh_NetworkFee h = bh_NetworkFee h' \<and>
     bh_TreasuryFee h = bh_TreasuryFee h'"
  by (simp add: header_preimage_def codec_inj)

lemma length_header_preimage [simp]: "length (header_preimage h) = 136"
  by (simp add: header_preimage_def)

text \<open>
  The bytes hashed to identify a transaction determine sender, receiver, amount, nonce,
  fee, gas and data, and nothing else: inputs, outputs and timestamp are not covered.
\<close>

theorem tx_preimage_injective:
  "tx_preimage t = tx_preimage t' \<longleftrightarrow>
     tx_From t = tx_From t' \<and> tx_To t = tx_To t' \<and> tx_Amount t = tx_Amount t' \<and>
     tx_Nonce t = tx_Nonce t' \<and> tx_Fee t = tx_Fee t' \<and> tx_GasUsed t = tx_GasUsed t' \<and>
     tx_GasPrice t = tx_GasPrice t' \<and> tx_Data t = tx_Data t'"
  by (simp add: tx_preimage_def codec_inj)

lemma Tx_CalculateHash_ignores_utxo_fields:
  "Tx_CalculateHash (t\<lparr>tx_Inputs := is, tx_Outputs := os, tx_Timestamp := ts, tx_Hash := h, tx_Signature := sg\<rparr>)
   = Tx_CalculateHash t"
  by (simp add: Tx_CalculateHash_def tx_preimage_def)

subsection \<open>Addresses and their text\<close>

lemma hex20_encode: "hex20 (hex_encode (addr_bytes a)) = Some (addr_bytes a)"
  by (simp add: hex20_def)

lemma length_Address_String [simp]: "length (Address_String a) = 40"
  by (simp add: Address_String_def)

lemma not_prefix_alphabet:
  assumes "set s \<subseteq> A" and "\<not> set p \<subseteq> A"
  shows "\<not> HasPrefix s p"
proof
  assume "HasPrefix s p"
  then have "set p \<subseteq> set s"
    by (metis HasPrefix_def set_take_subset)
  with assms show False by blast
qed

lemma hex_no_prefix:
  "\<not> HasPrefix (hex_encode bs) ''kalon1''" "\<not> HasPrefix (hex_encode bs) ''0x''"
  "\<not> HasPrefix (hex_encode bs) ''0X''"
  by (rule not_prefix_alphabet [OF set_hex_encode]; simp add: hex_alphabet_def)+

lemma AddressFromString_kalon1:
  "AddressFromString (''kalon1'' @ Address_String a) = a"
proof -
  have "TrimSpace (''kalon1'' @ Address_String a) = ''kalon1'' @ Address_String a"
    unfolding Address_String_def by (rule TrimSpace_prefix_hex) (auto simp: is_space_rune_def)
  then show ?thesis
    by (simp only: AddressFromString_def Let_def HasPrefix_append TrimPrefix_append if_True
        length_Address_String refl) (simp add: Address_String_def hex20_encode addrc.dec_enc)
qed

lemma AddressFromString_hex: "AddressFromString (Address_String a) = a"
  by (simp add: AddressFromString_def Address_String_def Let_def hex_no_prefix strip_0x_def hex20_encode
      addrc.dec_enc)

lemma AddressFromString_0x: "AddressFromString (''0x'' @ Address_String a) = a"
proof -
  have "TrimSpace (''0x'' @ Address_String a) = ''0x'' @ Address_String a"
    unfolding Address_String_def by (rule TrimSpace_prefix_hex) (auto simp: is_space_rune_def)
  moreover have "\<not> HasPrefix (''0x'' @ Address_String a) ''kalon1''"
    by (simp add: HasPrefix_def)
  ultimately show ?thesis
    by (simp add: AddressFromString_def Let_def strip_0x_def HasPrefix_def Address_String_def hex20_encode
        addrc.dec_enc)
qed

text \<open>
  Every address is read back from each of its three spellings: the 40 hexadecimal digits
  \<^verbatim>\<open>String\<close> prints, the same behind \<^verbatim>\<open>0x\<close>, and the wallet's form behind \<^verbatim>\<open>kalon1\<close>.
\<close>

theorem address_roundtrip:
  "AddressFromString (Address_String a) = a \<and> AddressFromString (''0x'' @ Address_String a) = a \<and>
   AddressFromString (''kalon1'' @ Address_String a) = a \<and> ParseAddress (Address_String a) = Inr a"
proof -
  have "ParseAddress (Address_String a) = Inr a"
    by (simp add: ParseAddress_def Address_String_def Let_def hex_no_prefix strip_0x_def hex20_encode
        addrc.dec_enc)
  with AddressFromString_hex AddressFromString_0x AddressFromString_kalon1 show ?thesis
    by blast
qed

text \<open>
  \<^verbatim>\<open>ParseAddress\<close> reports no error for any text that starts with \<^verbatim>\<open>kalon1\<close>: where what
  follows is not 40 hexadecimal digits the result is the zero address, as a success.
\<close>

theorem ParseAddress_accepts_any_kalon1:
  assumes "HasPrefix (TrimSpace s) ''kalon1''"
    and "hex20 (TrimPrefix (TrimSpace (TrimSpace s)) ''kalon1'') = None"
    and "HasPrefix (TrimSpace (TrimSpace s)) ''kalon1''"
  shows "ParseAddress s = Inr 0"
  using assms by (simp add: ParseAddress_def AddressFromString_def Let_def)

theorem ParseAddress_accepts_any_kalon1_witness: "ParseAddress ''kalon1xyz'' = Inr 0"
proof -
  have t: "TrimSpace ''kalon1xyz'' = ''kalon1xyz''"
    by (rule TrimSpace_id) (simp_all add: is_space_rune_def)
  show ?thesis
    by (rule ParseAddress_accepts_any_kalon1)
      (simp_all add: t HasPrefix_def TrimPrefix_def hex20_def hex_value_def)
qed

subsection \<open>Rewards and fees\<close>

text \<open>The halvings that apply at a height are those whose block count has been reached, in order.\<close>

lemma apply_halvings_filter:
  "apply_halvings height hs r =
     foldl (\<lambda>r h. f64_mul r (he_RewardMultiplier h)) r (filter (\<lambda>h. he_AfterBlocks h \<le> height) hs)"
  by (induction hs arbitrary: r) simp_all

lemma GetCurrentReward_panics_iff:
  "GetCurrentReward g height = Inl DivideByZero \<longleftrightarrow>
     lg_Enabled (dc_LaunchGuard (g_Difficulty g)) \<and> g_BlockTimeTarget g = 0"
  by (simp add: GetCurrentReward_def launch_guard_blocks_def Let_def)

lemma fees_split_total:
  "br_MinerReward (CalculateNetworkFees pl g r txFees) + br_TreasuryReward (CalculateNetworkFees pl g r txFees)
   = br_TotalReward (CalculateNetworkFees pl g r txFees)"
  by (simp add: CalculateNetworkFees_def Let_def)

lemma unat_sub_le: "unat (b :: u64) \<le> unat a \<Longrightarrow> unat (a - b) = unat a - unat b"
  by (simp add: unat_sub word_le_nat_alt)

lemma unat_add_small: "unat (a :: u64) + unat b < 2 ^ 64 \<Longrightarrow> unat (a + b) = unat a + unat b"
  by (simp add: unat_word_ariths)

text \<open>
  Splitting the fees loses nothing and takes nothing from the miner that is not there: for
  treasury rates between zero and one and totals below \<open>2 ^ 53\<close>, miner and treasury parts are
  exact, they add up to block reward plus transaction fees with no wrap-around, and the treasury
  gets at most the total, whatever the platform does with unrepresentable floats.
\<close>

theorem CalculateNetworkFees_exact:
  assumes reward: "holds_nat (f64_mul r micro) T" and T: "T < 2 ^ 53" and fees: "unat txFees < 2 ^ 53"
    and rate: "f64_unit (nf_BlockFeeRate (g_NetworkFee g))"
    and share: "f64_unit (nf_TxFeeShareTreasury (g_NetworkFee g))"
  shows "unat (br_TotalReward (CalculateNetworkFees pl g r txFees)) = T + unat txFees \<and>
    unat (br_MinerReward (CalculateNetworkFees pl g r txFees))
      + unat (br_TreasuryReward (CalculateNetworkFees pl g r txFees)) = T + unat txFees"
proof -
  have total: "unat (u64_of_f64 pl (f64_mul r micro)) = T"
    using unat_u64_of_trunc [OF holds_nat_trunc [OF reward]] T by simp
  define tb where "tb = u64_of_f64 pl (f64_mul (f64_of_u64 (u64_of_f64 pl (f64_mul r micro)))
    (nf_BlockFeeRate (g_NetworkFee g)))"
  define tt where "tt = u64_of_f64 pl (f64_mul (f64_of_u64 txFees) (nf_TxFeeShareTreasury (g_NetworkFee g)))"
  have tb: "unat tb \<le> T"
    unfolding tb_def using u64_of_unit_mul_le [OF _ rate] total T by metis
  have tt: "unat tt \<le> unat txFees"
    unfolding tt_def by (rule u64_of_unit_mul_le [OF fees share])
  have mb: "unat (u64_of_f64 pl (f64_mul r micro) - tb) = T - unat tb"
    using tb total by (simp add: unat_sub_le)
  have mt: "unat (txFees - tt) = unat txFees - unat tt"
    using tt by (rule unat_sub_le)
  show ?thesis
    using T fees tb tt
    by (simp add: CalculateNetworkFees_def Let_def tb_def [symmetric] tt_def [symmetric]
        unat_add_small total mb mt)
qed

text \<open>The testnet's figures: a reward of 5, a block fee of 5 percent, 30000 in transaction fees.\<close>

definition testnet_fees :: network_fee_config where
  "testnet_fees = \<lparr>nf_BlockFeeRate = f64_round False 5 100, nf_TxFeeShareTreasury = f64_round False 1 5,
     nf_BaseTxFee = f64_round False 1 100, nf_GasPrice = 1000\<rparr>"

definition testnet_genesis :: genesis_config where
  "testnet_genesis = \<lparr>g_ChainID = 7718, g_Name = ''Kalon Testnet'', g_Symbol = ''tKALON'',
     g_BlockTimeTarget = 15, g_MaxSupply = 1000000000, g_InitialBlockReward = f64_of_nat 5,
     g_HalvingSchedule = [],
     g_Difficulty = \<lparr>dc_Algo = ''LWMA'', dc_Window = 120, dc_InitialDifficulty = 23,
       dc_MaxAdjustPerBlockPct = 25,
       dc_LaunchGuard = \<lparr>lg_Enabled = False, lg_DurationHours = 24,
         lg_DifficultyFloorMultiplier = f64_of_nat 1, lg_InitialReward = f64_of_nat 2\<rparr>\<rparr>,
     g_AddressFormat = \<lparr>af_Type = ''bech32'', af_HRP = ''tkalon''\<rparr>,
     g_Premine = \<lparr>pc_Enabled = False\<rparr>,
     g_TreasuryAddress = ''tkalon1treasury0000000000000000000000000000000000000000000000000000000000'',
     g_NetworkFee = testnet_fees,
     g_Governance = \<lparr>gc_Parameters = \<lparr>gp_NetworkFeeRate = f64_round False 5 100,
       gp_TxFeeShareTreasury = f64_round False 1 5, gp_TreasuryCapPercent = 10\<rparr>\<rparr>\<rparr>"

lemma unit_rates: "f64_unit (f64_round False 5 100)" "f64_unit (f64_round False 1 5)"
  by (simp_all add: f64_literals del: One_nat_def)

lemma five_micro: "holds_nat (f64_mul (f64_of_nat 5) micro) 5000000"
  unfolding micro_def using holds_nat_mul [OF holds_nat_of_nat holds_nat_of_nat, of 5 1000000] by simp

theorem CalculateNetworkFees_exact_witness:
  "unat (br_TotalReward (CalculateNetworkFees zero_platform testnet_genesis (f64_of_nat 5) 30000)) = 5030000 \<and>
   unat (br_MinerReward (CalculateNetworkFees zero_platform testnet_genesis (f64_of_nat 5) 30000))
     + unat (br_TreasuryReward (CalculateNetworkFees zero_platform testnet_genesis (f64_of_nat 5) 30000)) = 5030000"
  using CalculateNetworkFees_exact [OF five_micro, of 30000 testnet_genesis] unit_rates
  by (simp add: testnet_genesis_def testnet_fees_def)

end
