(* ===== verification/Utxo.thy ===== *)
theory Utxo
  imports CoreTypes
begin

text \<open>
  \<^verbatim>\<open>core/utxo.go\<close>: the set of transaction outputs, kept in a Go map under the bytes of the
  transaction hash, a colon and the output index. The abstract view of the set is the
  finite map of its unspent outputs; every operation is shown to act on that view, and the
  balance of an address to be a sum over it that no iteration order changes.
\<close>

record utxo =
  u_TxHash :: hash
  u_Index :: u32
  u_Amount :: u64
  u_Address :: address
  u_Spent :: bool
  u_BlockHash :: hash

type_synonym utxo_set = "bytes \<rightharpoonup> utxo"

definition NewUTXOSet :: utxo_set where
  "NewUTXOSet = Map.empty"

definition getKey :: "hash \<Rightarrow> u32 \<Rightarrow> bytes" where
  "getKey txHash index = hash_bytes txHash @ [58] @ be_put 4 index"

definition AddUTXO :: "hash \<Rightarrow> u32 \<Rightarrow> u64 \<Rightarrow> address \<Rightarrow> hash \<Rightarrow> utxo_set \<Rightarrow> utxo_set" where
  "AddUTXO txHash index amount addr blockHash us =
     us(getKey txHash index \<mapsto> \<lparr>u_TxHash = txHash, u_Index = index, u_Amount = amount, u_Address = addr,
          u_Spent = False, u_BlockHash = blockHash\<rparr>)"

definition SpendUTXO :: "hash \<Rightarrow> u32 \<Rightarrow> utxo_set \<Rightarrow> utxo_set \<times> bool" where
  "SpendUTXO txHash index us =
     (case us (getKey txHash index) of
        Some u \<Rightarrow> if \<not> u_Spent u then (us(getKey txHash index \<mapsto> u\<lparr>u_Spent := True\<rparr>), True) else (us, False)
      | None \<Rightarrow> (us, False))"

text \<open>\<open>ord\<close> is the order in which \<^verbatim>\<open>range us.utxos\<close> visits the map.\<close>

definition GetUTXOs :: "bytes list \<Rightarrow> address \<Rightarrow> utxo_set \<Rightarrow> utxo list" where
  "GetUTXOs ord addr us = filter (\<lambda>u. u_Address u = addr \<and> \<not> u_Spent u) (range_vals us ord)"

definition sum_amounts :: "utxo list \<Rightarrow> u64" where
  "sum_amounts us = foldl (\<lambda>acc u. acc + u_Amount u) 0 us"

definition GetBalance :: "bytes list \<Rightarrow> address \<Rightarrow> utxo_set \<Rightarrow> u64" where
  "GetBalance ord addr us = sum_amounts (GetUTXOs ord addr us)"

definition RemoveUTXOs :: "bytes list \<Rightarrow> hash \<Rightarrow> utxo_set \<Rightarrow> utxo_set" where
  "RemoveUTXOs ord blockHash us =
     foldl (\<lambda>m k. case m k of Some u \<Rightarrow> if u_BlockHash u = blockHash then m(k := None) else m | None \<Rightarrow> m) us ord"

text \<open>\<^verbatim>\<open>core.CalculateTransactionHash\<close>, the hash of block-reward and parsed transactions.\<close>

definition input_preimage :: "tx_input \<Rightarrow> bytes" where
  "input_preimage i = hash_bytes (in_PreviousTxHash i) @ be_put 4 (in_Index i)"

definition output_preimage :: "tx_output \<Rightarrow> bytes" where
  "output_preimage out = addr_bytes (out_Address out) @ be_put 8 (out_Amount out)"

definition utxo_tx_preimage :: "transaction \<Rightarrow> bytes" where
  "utxo_tx_preimage tx =
     concat (map input_preimage (tx_Inputs tx)) @ concat (map output_preimage (tx_Outputs tx)) @
     be_put 8 (unix_nano_u64 (tx_Timestamp tx)) @ addr_bytes (tx_From tx) @ addr_bytes (tx_To tx)"

definition CalculateTransactionHash :: "transaction \<Rightarrow> hash" where
  "CalculateTransactionHash tx = Sum256 (utxo_tx_preimage tx)"

subsection \<open>Keys and well-formed sets\<close>

lemma getKey_inj [simp]: "getKey h i = getKey h' i' \<longleftrightarrow> h = h' \<and> i = i'"
  by (simp add: getKey_def codec_inj)

text \<open>Every entry sits under its own key, and there are finitely many.\<close>

definition utxo_wf :: "utxo_set \<Rightarrow> bool" where
  "utxo_wf us \<longleftrightarrow> finite (dom us) \<and> (\<forall>k u. us k = Some u \<longrightarrow> k = getKey (u_TxHash u) (u_Index u))"

lemma utxo_wf_New [wf_intros]: "utxo_wf NewUTXOSet"
  by (simp add: utxo_wf_def NewUTXOSet_def)

lemma utxo_wf_Add [wf_intros]: "utxo_wf us \<Longrightarrow> utxo_wf (AddUTXO h i amt a b us)"
  by (auto simp: utxo_wf_def AddUTXO_def)

lemma utxo_wfD: "utxo_wf us \<Longrightarrow> us k = Some u \<Longrightarrow> k = getKey (u_TxHash u) (u_Index u)"
  by (simp add: utxo_wf_def)

lemma utxo_wf_Spend [wf_intros]: "utxo_wf us \<Longrightarrow> utxo_wf (fst (SpendUTXO h i us))"
  by (auto simp: utxo_wf_def SpendUTXO_def split: option.splits dest: utxo_wfD)
    (metis getKey_inj)+

lemma RemoveUTXOs_eq:
  "RemoveUTXOs ord b us =
     (\<lambda>k. if k \<in> set ord then (case us k of Some u \<Rightarrow> if u_BlockHash u = b then None else Some u | None \<Rightarrow> None)
          else us k)"
proof (induction ord arbitrary: us)
  case Nil
  show ?case by (simp add: RemoveUTXOs_def)
next
  case (Cons k ord)
  have "RemoveUTXOs (k # ord) b us =
      RemoveUTXOs ord b (case us k of Some u \<Rightarrow> if u_BlockHash u = b then us(k := None) else us | None \<Rightarrow> us)"
    by (simp add: RemoveUTXOs_def)
  then show ?case
    by (auto simp: Cons fun_eq_iff split: option.splits)
qed

subsection \<open>The unspent outputs, abstractly\<close>

type_synonym outpoint = "hash \<times> u32"
type_synonym coin = "u64 \<times> address \<times> hash"

fun unspent :: "utxo_set \<Rightarrow> outpoint \<Rightarrow> coin option" where
  "unspent us (h, i) =
     (case us (getKey h i) of
        Some u \<Rightarrow> if u_Spent u then None else Some (u_Amount u, u_Address u, u_BlockHash u)
      | None \<Rightarrow> None)"

fun add_output :: "outpoint \<times> coin \<Rightarrow> utxo_set \<Rightarrow> utxo_set" where
  "add_output ((h, i), (amt, a, b)) us = AddUTXO h i amt a b us"

fun spend_output :: "outpoint \<Rightarrow> utxo_set \<Rightarrow> utxo_set" where
  "spend_output (h, i) us = fst (SpendUTXO h i us)"

text \<open>Adding and spending are the insertion and deletion of a keyed table.\<close>

interpretation utxo_tab: keyed_table unspent add_output fst snd spend_output
proof
  fix p j :: outpoint and e :: "outpoint \<times> coin" and us :: utxo_set
  show "unspent (add_output e us) j = (if j = fst e then Some (snd e) else unspent us j)"
    by (cases "(e, us)" rule: add_output.cases; cases j) (auto simp: AddUTXO_def)
  show "unspent (spend_output p us) j = (if j = p then None else unspent us j)"
    by (cases p; cases j) (auto simp: SpendUTXO_def split: option.splits)
qed

lemma unspent_New [simp]: "unspent NewUTXOSet = Map.empty"
proof
  fix p :: outpoint
  show "unspent NewUTXOSet p = None"
    by (cases p) (simp add: NewUTXOSet_def)
qed

lemma snd_SpendUTXO: "snd (SpendUTXO h i us) \<longleftrightarrow> unspent us (h, i) \<noteq> None"
  by (simp add: SpendUTXO_def split: option.splits)

lemma finite_unspent:
  assumes "utxo_wf us"
  shows "finite (dom (unspent us))"
proof -
  have "(\<lambda>(h, i). getKey h i) ` dom (unspent us) \<subseteq> dom us"
    by (auto split: option.splits)
  moreover have "inj_on (\<lambda>(h, i). getKey h i) (dom (unspent us))"
    by (auto simp: inj_on_def)
  ultimately show ?thesis
    using assms by (auto simp: utxo_wf_def intro: inj_on_finite)
qed

subsection \<open>Balances\<close>

definition coin_for :: "address \<Rightarrow> coin option \<Rightarrow> u64" where
  "coin_for a c = (case c of Some (amt, b, _) \<Rightarrow> if b = a then amt else 0 | None \<Rightarrow> 0)"

definition coins_balance :: "(outpoint \<rightharpoonup> coin) \<Rightarrow> address \<Rightarrow> u64" where
  "coins_balance m a = (\<Sum>p\<in>dom m. coin_for a (m p))"

lemma coins_balance_empty [simp]: "coins_balance Map.empty a = 0"
  by (simp add: coins_balance_def)

lemma coins_balance_add:
  assumes "finite (dom m)" and "m p = None"
  shows "coins_balance (m(p \<mapsto> c)) a = coins_balance m a + coin_for a (Some c)"
proof -
  have p: "p \<notin> dom m" using assms(2) by auto
  have "(\<Sum>q\<in>dom m. coin_for a ((m(p \<mapsto> c)) q)) = (\<Sum>q\<in>dom m. coin_for a (m q))"
    using p by (intro sum.cong) auto
  then show ?thesis
    using assms(1) p by (simp add: coins_balance_def add.commute)
qed

lemma coins_balance_remove:
  assumes "finite (dom m)"
  shows "coins_balance (m(p := None)) a = coins_balance m a - coin_for a (m p)"
proof (cases "m p")
  case None
  then have "m(p := None) = m" by auto
  with None show ?thesis by (simp add: coin_for_def)
next
  case (Some c)
  let ?m = "m(p := None)"
  have "finite (dom ?m)" using assms by simp
  moreover have "?m(p \<mapsto> c) = m" using Some by auto
  ultimately have "coins_balance m a = coins_balance ?m a + coin_for a (Some c)"
    using coins_balance_add [of ?m p c a] by simp
  with Some show ?thesis by simp
qed

lemma sum_amounts_eq: "sum_amounts us = sum_list (map u_Amount us)"
proof -
  have "foldl (\<lambda>acc u. acc + u_Amount u) x us = x + sum_list (map u_Amount us)" for x
    by (induction us arbitrary: x) (simp_all add: add.assoc)
  then show ?thesis by (simp add: sum_amounts_def)
qed

lemma GetBalance_order_sum:
  "range_order us ord \<Longrightarrow> GetBalance ord a us =
     (\<Sum>k\<in>dom us. case us k of Some u \<Rightarrow> if u_Address u = a \<and> \<not> u_Spent u then u_Amount u else 0 | None \<Rightarrow> 0)"
proof -
  assume ord: "range_order us ord"
  have "sum_list (map u_Amount (filter (\<lambda>u. u_Address u = a \<and> \<not> u_Spent u) vs)) =
      sum_list (map (\<lambda>u. if u_Address u = a \<and> \<not> u_Spent u then u_Amount u else 0) vs)" for vs
    by (induction vs) auto
  then have "GetBalance ord a us =
      sum_list (map (\<lambda>u. if u_Address u = a \<and> \<not> u_Spent u then u_Amount u else 0) (range_vals us ord))"
    by (simp add: GetBalance_def GetUTXOs_def sum_amounts_eq)
  also have "\<dots> = (\<Sum>k\<in>set ord. case us k of None \<Rightarrow> 0
      | Some u \<Rightarrow> if u_Address u = a \<and> \<not> u_Spent u then u_Amount u else 0)"
    by (rule range_sum_eq) (rule range_order_distinct [OF ord])
  finally show ?thesis
    by (simp only: range_order_set [OF ord] option.case_distrib)
qed

lemma GetBalance_coins:
  assumes wf: "utxo_wf us" and ord: "range_order us ord"
  shows "GetBalance ord a us = coins_balance (unspent us) a"
proof -
  let ?f = "\<lambda>k. case us k of Some u \<Rightarrow> if u_Address u = a \<and> \<not> u_Spent u then u_Amount u else 0 | None \<Rightarrow> 0"
  let ?key = "\<lambda>(h, i). getKey h i"
  have sub: "?key ` dom (unspent us) \<subseteq> dom us"
    by (auto split: option.splits)
  have zero: "?f k = 0" if "k \<in> dom us - ?key ` dom (unspent us)" for k
  proof -
    from that have "k \<in> dom us" by simp
    then obtain u where u: "us k = Some u" "k = getKey (u_TxHash u) (u_Index u)"
      using utxo_wfD [OF wf] by blast
    have "(u_TxHash u, u_Index u) \<notin> dom (unspent us)"
      using that u(2) by force
    with u show ?thesis by (auto split: if_splits)
  qed
  have "GetBalance ord a us = (\<Sum>k\<in>dom us. ?f k)"
    by (rule GetBalance_order_sum [OF ord])
  also have "\<dots> = (\<Sum>k\<in>?key ` dom (unspent us). ?f k)"
    using wf sub zero by (intro sum.mono_neutral_right ballI) (simp_all add: utxo_wf_def)
  also have "\<dots> = (\<Sum>p\<in>dom (unspent us). ?f (?key p))"
    by (rule sum.reindex_cong [where l = ?key]) (auto simp: inj_on_def)
  also have "\<dots> = coins_balance (unspent us) a"
    unfolding coins_balance_def
    by (rule sum.cong) (auto simp: coin_for_def split: option.splits if_splits)
  finally show ?thesis .
qed

subsection \<open>What the operations do\<close>

text \<open>
  An output can be spent exactly while it is unspent, and once spent it cannot be spent
  again: \<^verbatim>\<open>SpendUTXO\<close> reports success on the first call only.
\<close>

theorem SpendUTXO_once:
  "(snd (SpendUTXO h i us) \<longleftrightarrow> unspent us (h, i) \<noteq> None) \<and>
   \<not> snd (SpendUTXO h i (fst (SpendUTXO h i us)))"
  using utxo_tab.look_del [of "(h, i)" us "(h, i)"] by (simp add: snd_SpendUTXO del: unspent.simps)

text \<open>
  C39. The balance of an address is the sum of the unspent outputs it owns, modulo \<open>2 ^ 64\<close>, in
  whatever order the runtime iterates over the map.
\<close>

theorem GetBalance_is_unspent_sum:
  assumes "utxo_wf us" and "range_order us ord"
  shows "GetBalance ord a us = (\<Sum>p\<in>dom (unspent us). case unspent us p of
    Some (amt, b, _) \<Rightarrow> if b = a then amt else 0 | None \<Rightarrow> 0)"
  using GetBalance_coins [OF assms] by (simp only: coins_balance_def coin_for_def)

definition two_coins :: utxo_set where
  "two_coins = AddUTXO 2 0 30 7 9 (AddUTXO 1 0 12 7 9 NewUTXOSet)"

lemma two_coins_order: "range_order two_coins [getKey 1 0, getKey 2 0]"
  by (auto simp: two_coins_def range_order_def AddUTXO_def NewUTXOSet_def)

theorem GetBalance_is_unspent_sum_witness:
  "GetBalance [getKey 1 0, getKey 2 0] 7 two_coins = 42 \<and>
   (\<Sum>p\<in>dom (unspent two_coins). case unspent two_coins p of
      Some (amt, b, _) \<Rightarrow> if b = 7 then amt else 0 | None \<Rightarrow> 0) = 42"
proof -
  have "utxo_wf two_coins"
    by (simp add: two_coins_def wf_intros)
  moreover have "GetBalance [getKey 1 0, getKey 2 0] 7 two_coins = 42"
    by (simp add: two_coins_def GetBalance_def GetUTXOs_def sum_amounts_def AddUTXO_def NewUTXOSet_def)
  ultimately show ?thesis
    using GetBalance_is_unspent_sum [of two_coins "[getKey 1 0, getKey 2 0]" 7] two_coins_order by simp
qed

lemma GetBalance_AddUTXO:
  assumes "utxo_wf us" and "unspent us (h, i) = None" and "range_order us ord"
    and "range_order (AddUTXO h i amt b bh us) ord'"
  shows "GetBalance ord' a (AddUTXO h i amt b bh us) = GetBalance ord a us + (if b = a then amt else 0)"
proof -
  have "unspent (AddUTXO h i amt b bh us) = (unspent us)((h, i) \<mapsto> (amt, b, bh))"
    using utxo_tab.look_ins [of "((h, i), (amt, b, bh))" us] by (simp add: fun_eq_iff del: unspent.simps)
  then show ?thesis
    using assms coins_balance_add [OF finite_unspent [OF assms(1)] assms(2), of "(amt, b, bh)" a]
    by (simp add: GetBalance_coins utxo_wf_Add coin_for_def)
qed

lemma GetBalance_SpendUTXO:
  assumes "utxo_wf us" and "range_order us ord" and "range_order (fst (SpendUTXO h i us)) ord'"
  shows "GetBalance ord' a (fst (SpendUTXO h i us)) = GetBalance ord a us - coin_for a (unspent us (h, i))"
proof -
  have "unspent (fst (SpendUTXO h i us)) = (unspent us)((h, i) := None)"
    using utxo_tab.look_del [of "(h, i)" us] by (simp add: fun_eq_iff del: unspent.simps)
  then show ?thesis
    using assms coins_balance_remove [OF finite_unspent [OF assms(1)], of "(h, i)" a]
    by (simp add: GetBalance_coins utxo_wf_Spend)
qed

text \<open>
  A rollback removes the unspent outputs a block created, and no other; it revives none that
  the block spent.
\<close>

theorem RemoveUTXOs_unspent:
  assumes "range_order us ord"
  shows "unspent (RemoveUTXOs ord b us) p =
    (case unspent us p of Some (amt, a, b') \<Rightarrow> if b' = b then None else Some (amt, a, b') | None \<Rightarrow> None)"
proof (cases p)
  case (Pair h i)
  have "getKey h i \<notin> set ord \<Longrightarrow> us (getKey h i) = None"
    using range_order_set [OF assms] by auto
  then show ?thesis
    by (auto simp: Pair RemoveUTXOs_eq split: option.splits)
qed

theorem RemoveUTXOs_unspent_witness:
  "unspent (RemoveUTXOs [getKey 1 0, getKey 2 0] 9 two_coins) (1, 0) = None"
  using RemoveUTXOs_unspent [OF two_coins_order, of 9 "(1, 0)"]
  by (simp add: two_coins_def AddUTXO_def NewUTXOSet_def)

subsection \<open>The hash over inputs and outputs\<close>

lemma concat_fixed_inj:
  assumes len: "\<And>x. length (f x) = w" and inj: "\<And>x y. f x = f y \<Longrightarrow> g x = g y"
  shows "length xs = length ys \<Longrightarrow> concat (map f xs) @ us = concat (map f ys) @ vs \<Longrightarrow>
    map g xs = map g ys \<and> us = vs"
proof (induction xs ys rule: list_induct2)
  case Nil
  then show ?case by simp
next
  case (Cons x xs y ys)
  then have "f x = f y \<and> concat (map f xs) @ us = concat (map f ys) @ vs"
    by (simp add: append_eq_append_conv len)
  with Cons.IH inj show ?case by (metis list.simps(9))
qed

lemma input_preimage_inj:
  "input_preimage i = input_preimage j \<Longrightarrow>
     (in_PreviousTxHash i, in_Index i) = (in_PreviousTxHash j, in_Index j)"
  by (simp add: input_preimage_def codec_inj)

lemma output_preimage_inj:
  "output_preimage i = output_preimage j \<Longrightarrow> (out_Address i, out_Amount i) = (out_Address j, out_Amount j)"
  by (simp add: output_preimage_def codec_inj)

text \<open>
  For transactions with equally many inputs and equally many outputs the bytes that
  \<^verbatim>\<open>CalculateTransactionHash\<close> hashes determine every spent outpoint, every output, the time
  to the nanosecond, sender and receiver.
\<close>

theorem utxo_tx_preimage_determines:
  assumes "utxo_tx_preimage t = utxo_tx_preimage t'"
    and "length (tx_Inputs t) = length (tx_Inputs t')" and "length (tx_Outputs t) = length (tx_Outputs t')"
  shows "map (\<lambda>i. (in_PreviousTxHash i, in_Index i)) (tx_Inputs t) =
      map (\<lambda>i. (in_PreviousTxHash i, in_Index i)) (tx_Inputs t') \<and>
    map (\<lambda>out. (out_Address out, out_Amount out)) (tx_Outputs t) =
      map (\<lambda>out. (out_Address out, out_Amount out)) (tx_Outputs t') \<and>
    unix_nano_u64 (tx_Timestamp t) = unix_nano_u64 (tx_Timestamp t') \<and>
    tx_From t = tx_From t' \<and> tx_To t = tx_To t'"
proof -
  have len: "length (input_preimage i) = 36" "length (output_preimage out) = 28" for i out
    by (simp_all add: input_preimage_def output_preimage_def)
  note ins = concat_fixed_inj [OF len(1) input_preimage_inj assms(2) assms(1) [unfolded utxo_tx_preimage_def]]
  then have "concat (map output_preimage (tx_Outputs t)) @ be_put 8 (unix_nano_u64 (tx_Timestamp t)) @
        addr_bytes (tx_From t) @ addr_bytes (tx_To t) =
      concat (map output_preimage (tx_Outputs t')) @ be_put 8 (unix_nano_u64 (tx_Timestamp t')) @
        addr_bytes (tx_From t') @ addr_bytes (tx_To t')"
    by simp
  note outs = concat_fixed_inj [OF len(2) output_preimage_inj assms(3) this]
  from ins outs show ?thesis
    by (simp add: codec_inj)
qed

definition pay_tx :: transaction where
  "pay_tx = zero_tx\<lparr>tx_To := 5, tx_Inputs := [\<lparr>in_PreviousTxHash = 3, in_Index = 1, in_Signature = []\<rparr>],
     tx_Outputs := [\<lparr>out_Address = 5, out_Amount = 40\<rparr>]\<rparr>"

theorem utxo_tx_preimage_determines_witness:
  "map (\<lambda>i. (in_PreviousTxHash i, in_Index i)) (tx_Inputs pay_tx) = [(3, 1)] \<and>
   map (\<lambda>i. (in_PreviousTxHash i, in_Index i)) (tx_Inputs (pay_tx\<lparr>tx_Fee := 8\<rparr>)) = [(3, 1)]"
  using utxo_tx_preimage_determines [of pay_tx "pay_tx\<lparr>tx_Fee := 8\<rparr>"]
  by (simp add: pay_tx_def utxo_tx_preimage_def)

text \<open>
  The counts are not hashed: seven inputs take the same 252 bytes as nine outputs, so a
  transaction that spends and one that creates can have one hash without any collision of SHA-256.
\<close>

theorem CalculateTransactionHash_ambiguous:
  "CalculateTransactionHash (zero_tx\<lparr>tx_Inputs := replicate 7 \<lparr>in_PreviousTxHash = 0, in_Index = 0, in_Signature = []\<rparr>\<rparr>)
   = CalculateTransactionHash (zero_tx\<lparr>tx_Outputs := replicate 9 \<lparr>out_Address = 0, out_Amount = 0\<rparr>\<rparr>)"
proof -
  have zero: "be_put n (0 :: 'a::len word) = replicate n 0" for n
    by (induction n) simp_all
  have rep: "concat (replicate n (replicate m x)) = replicate (n * m) x" for n m :: nat and x :: u8
    by (induction n) (simp_all add: replicate_add [symmetric])
  have "concat (replicate 7 (replicate 36 (0::u8))) = concat (replicate 9 (replicate 28 0))"
    unfolding rep by simp
  then show ?thesis
    by (simp add: CalculateTransactionHash_def utxo_tx_preimage_def zero_tx_def map_replicate
        input_preimage_def output_preimage_def hash_bytes_def addr_bytes_def zero
        replicate_add [symmetric])
qed

end
