(* ===== verification/Consensus.thy ===== *)
theory Consensus
  imports CoreTypes
begin

text \<open>
  \<^verbatim>\<open>core/consensus.go\<close>: the rules the \<^verbatim>\<open>ConsensusManager\<close> applies to a block and its
  transactions, the difficulty of the next block, the proof-of-work target, and the Merkle
  root. \<open>now\<close> is what \<^verbatim>\<open>time.Now()\<close> returns; a nil pointer is \<open>None\<close>.
\<close>

subsection \<open>Targets\<close>

definition CalculateTarget :: "u64 \<Rightarrow> bytes" where
  "CalculateTarget difficulty =
     (if difficulty = 0 then replicate 32 255
      else if difficulty = 1 then replicate 32 255
      else
        (let leadingZeroBits = difficulty - 1;
             leadingZeroBytes = leadingZeroBits div 8;
             remainingBits = leadingZeroBits mod 8;
             target = map (\<lambda>i. if unat leadingZeroBytes \<le> i then 255 else 0) [0..<32]
         in if 0 < remainingBits \<and> leadingZeroBytes < 32
            then target[unat leadingZeroBytes := drop_bit (unat remainingBits) 255]
            else target))"

text \<open>The byte-by-byte comparison of a hash with a target, most significant byte first.\<close>

fun hash_le :: "bytes \<Rightarrow> bytes \<Rightarrow> bool" where
  "hash_le (h # hs) (t # ts) = (if h < t then True else if t < h then False else hash_le hs ts)"
| "hash_le _ _ = True"

definition IsValidHash :: "hash \<Rightarrow> bytes \<Rightarrow> bool" where
  "IsValidHash h target =
     (if list_all (\<lambda>b. b = 255) (take 32 target) then True
      else hash_le (hash_bytes h) (take 32 target))"

definition ValidateProofOfWork :: "block \<Rightarrow> bool" where
  "ValidateProofOfWork b =
     (if bh_Difficulty (blk_Header b) \<le> 20 then True
      else IsValidHash (Block_CalculateHash b) (CalculateTarget (bh_Difficulty (blk_Header b))))"

subsection \<open>Difficulty\<close>

definition adjust_factor :: "u64 \<Rightarrow> f64" where
  "adjust_factor pct =
     (let adj = f64_of_nat 1;
          maxAdjust = f64_div (f64_of_u64 pct) (f64_of_nat 100);
          hi = f64_add (f64_of_nat 1) maxAdjust;
          lo = f64_sub (f64_of_nat 1) maxAdjust
      in if f64_lt hi adj then hi else if f64_lt adj lo then lo else adj)"

definition CalculateDifficulty :: "platform \<Rightarrow> genesis_config \<Rightarrow> u64 \<Rightarrow> block option \<Rightarrow> go_panic + u64" where
  "CalculateDifficulty pl g height parent =
     (let dc = g_Difficulty g;
          after_guard =
            (case parent of
               None \<Rightarrow> Inl NilDereference
             | Some p \<Rightarrow>
                 if height < dc_Window dc then Inr (bh_Difficulty (blk_Header p))
                 else
                   (let newDifficulty = u64_of_f64 pl (f64_mul (f64_of_u64 (bh_Difficulty (blk_Header p)))
                      (adjust_factor (dc_MaxAdjustPerBlockPct dc)))
                    in Inr (if newDifficulty < 1 then 1 else newDifficulty)))
      in if height = 0 then Inr (dc_InitialDifficulty dc)
         else if lg_Enabled (dc_LaunchGuard dc) then
           (case launch_guard_blocks g of
              Inl e \<Rightarrow> Inl e
            | Inr n \<Rightarrow>
                if height < n
                then Inr (u64_of_f64 pl (f64_mul (f64_of_u64 (dc_InitialDifficulty dc))
                       (lg_DifficultyFloorMultiplier (dc_LaunchGuard dc))))
                else after_guard)
         else after_guard)"

definition IsLaunchGuardActive :: "genesis_config \<Rightarrow> u64 \<Rightarrow> go_panic + bool" where
  "IsLaunchGuardActive g height =
     (if \<not> lg_Enabled (dc_LaunchGuard (g_Difficulty g)) then Inr False
      else (case launch_guard_blocks g of Inl e \<Rightarrow> Inl e | Inr n \<Rightarrow> Inr (height < n)))"

definition CalculateBlockReward :: "platform \<Rightarrow> genesis_config \<Rightarrow> u64 \<Rightarrow> u64 \<Rightarrow> go_panic + block_reward" where
  "CalculateBlockReward pl g height txFees =
     (case GetCurrentReward g height of
        Inl e \<Rightarrow> Inl e
      | Inr baseReward \<Rightarrow> Inr (CalculateNetworkFees pl g baseReward txFees))"

definition GetNetworkFeeRate :: "genesis_config \<Rightarrow> f64" where
  "GetNetworkFeeRate g = nf_BlockFeeRate (g_NetworkFee g)"

definition GetTxFeeShareTreasury :: "genesis_config \<Rightarrow> f64" where
  "GetTxFeeShareTreasury g = nf_TxFeeShareTreasury (g_NetworkFee g)"

subsection \<open>The Merkle root\<close>

text \<open>One level of the tree: neighbours are hashed together, a last node without one with itself.\<close>

fun merkle_level :: "bytes list \<Rightarrow> bytes list" where
  "merkle_level [] = []"
| "merkle_level [a] = [sha256 (a @ a)]"
| "merkle_level (a # b # hs) = sha256 (a @ b) # merkle_level hs"

lemma length_merkle_level: "length (merkle_level hs) = (length hs + 1) div 2"
  by (induction hs rule: merkle_level.induct) simp_all

function merkle_loop :: "bytes list \<Rightarrow> bytes list" where
  "merkle_loop hs = (if 1 < length hs then merkle_loop (merkle_level hs) else hs)"
  by pat_completeness auto
termination
  by (relation "measure length") (auto simp: length_merkle_level)

declare merkle_loop.simps [simp del]

definition CalculateMerkleRoot :: "transaction list \<Rightarrow> hash" where
  "CalculateMerkleRoot txs =
     (if length txs = 0 then 0
      else if length txs = 1 then Tx_CalculateHash (txs ! 0)
      else hash_of (merkle_loop (map (\<lambda>tx. hash_bytes (Tx_CalculateHash tx)) txs) ! 0))"

subsection \<open>Validation\<close>

datatype tx_error =
  TxNil | TxInvalid | TxFeeTooLow u64 u64 | TxFeeInsufficientForGas u64 u64 | TxMissingSignature

text \<open>The transaction is passed by pointer and its gas may be set: the result is what is left there.\<close>

definition ValidateTransaction :: "platform \<Rightarrow> genesis_config \<Rightarrow> transaction option \<Rightarrow> tx_error + transaction" where
  "ValidateTransaction pl g txp =
     (case txp of
        None \<Rightarrow> Inl TxNil
      | Some tx \<Rightarrow>
          if \<not> IsValid tx then Inl TxInvalid
          else
            (let minFee = u64_of_f64 pl (f64_mul (nf_BaseTxFee (g_NetworkFee g)) micro) in
             if tx_Fee tx < minFee then Inl (TxFeeTooLow (tx_Fee tx) minFee)
             else
               (let tx' = (if tx_GasUsed tx = 0 then tx\<lparr>tx_GasUsed := 1\<rparr> else tx);
                    expectedFee = tx_GasUsed tx' * tx_GasPrice tx' in
                if tx_Fee tx' < expectedFee then Inl (TxFeeInsufficientForGas (tx_Fee tx') expectedFee)
                else if length (tx_Signature tx') = 0 then Inl TxMissingSignature
                else Inr tx')))"

datatype block_error =
  BlockNil | BlockNumber u64 u64 | BlockParentHash hash hash | BlockInFuture | BlockBeforeParent
  | BlockDifficulty u64 u64 | BlockProofOfWork | BlockTransaction nat tx_error | BlockMerkleRoot
  | BlockTxCount | BlockPanic go_panic

text \<open>\<^verbatim>\<open>for i, tx := range block.Txs\<close>: the first failure, with its index; each \<^verbatim>\<open>tx\<close> is a copy.\<close>

fun first_tx_error :: "platform \<Rightarrow> genesis_config \<Rightarrow> nat \<Rightarrow> transaction list \<Rightarrow> (nat \<times> tx_error) option" where
  "first_tx_error pl g i [] = None"
| "first_tx_error pl g i (tx # txs) =
     (case ValidateTransaction pl g (Some tx) of
        Inl e \<Rightarrow> Some (i, e)
      | Inr _ \<Rightarrow> first_tx_error pl g (Suc i) txs)"

definition check_body :: "platform \<Rightarrow> genesis_config \<Rightarrow> block \<Rightarrow> block_error + unit" where
  "check_body pl g b =
     (if \<not> ValidateProofOfWork b then Inl BlockProofOfWork
      else
        (case first_tx_error pl g 0 (blk_Txs b) of
           Some (i, e) \<Rightarrow> Inl (BlockTransaction i e)
         | None \<Rightarrow>
             if bh_MerkleRoot (blk_Header b) \<noteq> CalculateMerkleRoot (blk_Txs b) then Inl BlockMerkleRoot
             else if bh_TxCount (blk_Header b) \<noteq> of_nat (length (blk_Txs b)) then Inl BlockTxCount
             else Inr ()))"

definition ValidateBlock ::
  "platform \<Rightarrow> genesis_config \<Rightarrow> gotime \<Rightarrow> block option \<Rightarrow> block option \<Rightarrow> block_error + unit" where
  "ValidateBlock pl g now blockp parentp =
     (case blockp of
        None \<Rightarrow> Inl BlockNil
      | Some b \<Rightarrow>
          (case parentp of
             None \<Rightarrow>
               if now + 120 * 1000000000 < bh_Timestamp (blk_Header b) then Inl BlockInFuture
               else check_body pl g b
           | Some p \<Rightarrow>
               if bh_Number (blk_Header b) \<noteq> bh_Number (blk_Header p) + 1
                  \<and> bh_Number (blk_Header b) < bh_Number (blk_Header p)
               then Inl (BlockNumber (bh_Number (blk_Header p) + 1) (bh_Number (blk_Header b)))
               else if bh_ParentHash (blk_Header b) \<noteq> blk_Hash p
               then Inl (BlockParentHash (blk_Hash p) (bh_ParentHash (blk_Header b)))
               else if now + 120 * 1000000000 < bh_Timestamp (blk_Header b) then Inl BlockInFuture
               else if bh_Timestamp (blk_Header b) < bh_Timestamp (blk_Header p) then Inl BlockBeforeParent
               else
                 (case CalculateDifficulty pl g (bh_Number (blk_Header b)) (Some p) of
                    Inl e \<Rightarrow> Inl (BlockPanic e)
                  | Inr d \<Rightarrow>
                      if bh_Difficulty (blk_Header b) \<noteq> d
                      then Inl (BlockDifficulty d (bh_Difficulty (blk_Header b)))
                      else check_body pl g b)))"

subsection \<open>Targets as numbers\<close>

lemma be_val_replicate_max: "be_val (replicate n 255) = 256 ^ n - 1"
proof (induction n)
  case 0
  show ?case by simp
next
  case (Suc n)
  have "(1::nat) \<le> 256 ^ n" by simp
  then show ?case by (simp add: Suc)
qed

lemma be_val_replicate_zero [simp]: "be_val (replicate n 0) = 0"
  by (induction n) simp_all

lemma hash_le_be_val: "length hs = length ts \<Longrightarrow> hash_le hs ts \<longleftrightarrow> be_val hs \<le> be_val ts"
proof (induction hs ts rule: list_induct2)
  case Nil
  show ?case by simp
next
  case (Cons h hs t ts)
  let ?m = "256 ^ length ts :: nat"
  have b: "be_val hs < ?m" "be_val ts < ?m"
    using be_val_less [of hs] be_val_less [of ts] Cons.hyps by simp_all
  have step: "unat x * ?m + ?m \<le> unat y * ?m" if "unat x < unat y" for x y :: u8
  proof -
    have "(unat x + 1) * ?m \<le> unat y * ?m"
      using that by (intro mult_right_mono) simp_all
    then show ?thesis by (simp only: add_mult_distrib mult_1)
  qed
  consider "h < t" | "t < h" | "h = t" by (rule linorder_cases)
  then show ?case
  proof cases
    case 1
    then show ?thesis
      using step [of h t] b Cons.hyps by (simp add: word_less_nat_alt)
  next
    case 2
    then have "unat t < unat h" by (simp add: word_less_nat_alt)
    from step [OF this] b Cons.hyps 2 show ?thesis
      by (simp add: not_less_iff_gr_or_eq not_le)
  next
    case 3
    then show ?thesis using Cons by simp
  qed
qed

lemma length_CalculateTarget [simp]: "length (CalculateTarget d) = 32"
  by (simp add: CalculateTarget_def Let_def)

lemma fill_from: "k \<le> n \<Longrightarrow> map (\<lambda>i. if k \<le> i then x else y) [0..<n] = replicate k y @ replicate (n - k) x"
  by (rule nth_equalityI) (auto simp: nth_append)

lemma shifted_max_byte:
  "r < 8 \<Longrightarrow> unat (drop_bit r (255 :: u8)) = 2 ^ (8 - r) - 1"
proof -
  assume "r < 8"
  then have "r \<in> {0, 1, 2, 3, 4, 5, 6, 7}" by auto
  then show ?thesis by (auto simp: unsigned_drop_bit_eq take_bit_eq_mod)
qed

lemma CalculateTarget_bits:
  assumes "2 \<le> unat d"
  shows "CalculateTarget d =
    (let n = unat d - 1; t = map (\<lambda>i. if n div 8 \<le> i then 255 else 0) [0..<32]
     in if 0 < n mod 8 \<and> n div 8 < 32 then t[n div 8 := drop_bit (n mod 8) 255] else t)"
proof -
  have d: "d \<noteq> 0" "d \<noteq> 1"
    using assms by auto
  have n: "unat (d - 1) = unat d - 1"
    using assms by (subst unat_sub_le) simp_all
  show ?thesis
    using d by (simp add: CalculateTarget_def Let_def unat_div unat_mod n word_less_nat_alt)
qed

lemma be_val_partial_byte:
  assumes k: "k < 32" and r: "r < 8"
  shows "be_val (replicate k 0 @ drop_bit r 255 # replicate (31 - k) 255) = 2 ^ (256 - (8 * k + r)) - 1"
proof -
  define m where "m = 31 - k"
  have e: "256 - (8 * k + r) = (8 - r) + 8 * m"
    using k r by (simp add: m_def)
  have "(2 ^ (8 - r) - 1) * 256 ^ m + (256 ^ m - 1) = 2 ^ (8 - r) * 256 ^ m - (1::nat)"
  proof -
    have "1 \<le> (256::nat) ^ m" "1 \<le> (2::nat) ^ (8 - r)" by simp_all
    then show ?thesis by (simp add: diff_mult_distrib)
  qed
  moreover have "(2::nat) ^ (8 * m) = 256 ^ m"
    by (simp add: power_mult)
  ultimately show ?thesis
    unfolding e power_add
    by (simp add: be_val_append be_val_replicate_max shifted_max_byte [OF r] m_def [symmetric])
qed

lemma be_val_CalculateTarget:
  assumes "2 \<le> unat d"
  shows "be_val (CalculateTarget d) = 2 ^ (257 - unat d) - 1"
proof -
  define n where "n = unat d - 1"
  define k where "k = n div 8"
  define r where "r = n mod 8"
  have n: "n = 8 * k + r" "r < 8"
    by (simp_all add: k_def r_def)
  have e: "257 - unat d = 256 - (8 * k + r)"
    using assms n(1) by (simp add: n_def)
  have target: "CalculateTarget d = (let t = map (\<lambda>i. if k \<le> i then 255 else 0) [0..<32]
      in if 0 < r \<and> k < 32 then t[k := drop_bit r 255] else t)"
    using CalculateTarget_bits [OF assms] by (simp add: n_def k_def r_def Let_def)
  show ?thesis
  proof (cases "k < 32")
    case True
    then have t: "map (\<lambda>i. if k \<le> i then 255 else 0) [0..<32] =
        replicate k 0 @ drop_bit 0 (255 :: u8) # replicate (31 - k) 255"
      using Suc_diff_le [of k 31] by (simp add: fill_from flip: replicate_Suc)
    have "CalculateTarget d = replicate k 0 @ drop_bit r 255 # replicate (31 - k) 255"
      unfolding target Let_def t using True by (simp add: list_update_append)
    then show ?thesis
      using be_val_partial_byte [OF True n(2)] by (simp add: e)
  next
    case False
    then have "map (\<lambda>i. if k \<le> i then 255 else 0) [0..<32] = replicate 32 (0 :: u8)"
      by (intro nth_equalityI) auto
    with False have "CalculateTarget d = replicate 32 0"
      unfolding target Let_def by simp
    moreover have "256 - (8 * k + r) = 0" using False by simp
    ultimately show ?thesis by (simp only: be_val_replicate_zero e) simp
  qed
qed

lemma le_pred_iff: "n \<le> 2 ^ k - 1 \<longleftrightarrow> n < (2::nat) ^ k"
  using zero_less_power [of "2::nat" k] by linarith

text \<open>
  C17. The proof of work of difficulty \<open>d\<close> is met by exactly the hashes below \<open>2 ^ (257 - d)\<close>:
  \<open>d - 1\<close> leading zero bits, every hash for \<open>d \<le> 1\<close>, and only the zero hash from
  \<open>d = 257\<close> on. One more unit of difficulty halves the chance of a hash.
\<close>

theorem IsValidHash_target:
  "IsValidHash h (CalculateTarget d) \<longleftrightarrow> unat h < 2 ^ (257 - unat d)"
proof (cases "2 \<le> unat d")
  case True
  have v: "IsValidHash h (CalculateTarget d) \<longleftrightarrow> be_val (hash_bytes h) \<le> be_val (CalculateTarget d)"
    if "\<not> list_all (\<lambda>b. b = 255) (CalculateTarget d)"
    using that by (simp add: IsValidHash_def hash_le_be_val)
  have "\<not> list_all (\<lambda>b. b = 255) (CalculateTarget d)"
  proof
    assume "list_all (\<lambda>b. b = 255) (CalculateTarget d)"
    then have "CalculateTarget d = replicate 32 255"
      using replicate_length_same [of "CalculateTarget d" 255] by (simp add: list_all_iff)
    then have "(2::nat) ^ (257 - unat d) - 1 = 256 ^ 32 - 1"
      using be_val_CalculateTarget [OF True] be_val_replicate_max [of 32] by simp
    moreover have "(2::nat) ^ (257 - unat d) \<le> 2 ^ 255"
      using True by (intro power_increasing) simp_all
    ultimately show False by simp
  qed
  from v [OF this] show ?thesis
    by (simp only: be_val_CalculateTarget [OF True] be_val_hash_bytes le_pred_iff)
next
  case False
  then have d: "unat d = 0 \<or> unat d = 1" by auto
  then have "d = 0 \<or> d = 1" by (simp add: word_unat_eq_iff)
  then have "CalculateTarget d = replicate 32 255"
    by (auto simp: CalculateTarget_def)
  moreover have u: "unat h < 2 ^ 256" using unsigned_less [of h] by simp
  moreover have "unat h < 2 ^ 257" using u by simp
  ultimately show ?thesis
    using d by (auto simp: IsValidHash_def list_all_iff)
qed

lemma ValidateProofOfWork_iff:
  "ValidateProofOfWork b \<longleftrightarrow> bh_Difficulty (blk_Header b) \<le> 20 \<or>
     unat (Block_CalculateHash b) < 2 ^ (257 - unat (bh_Difficulty (blk_Header b)))"
  by (simp add: ValidateProofOfWork_def IsValidHash_target)

subsection \<open>Difficulty\<close>

lemma adjust_factor_one [simp]: "adjust_factor pct = f64_of_nat 1"
proof -
  have "f64_nonneg (f64_div (f64_of_u64 pct) (f64_of_nat 100))"
    using f64_nonneg_div [of "f64_of_u64 pct" "2 ^ 46 * 100 - 1" "- 46"] by (simp add: f64_literals)
  then show ?thesis
    by (simp add: adjust_factor_def Let_def f64_add_one_not_below f64_sub_one_not_above del: One_nat_def)
qed

lemma difficulty_stays:
  assumes "height \<noteq> 0" and "IsLaunchGuardActive g height = Inr False"
    and "0 < unat (bh_Difficulty (blk_Header p))" and "unat (bh_Difficulty (blk_Header p)) < 2 ^ 53"
  shows "CalculateDifficulty pl g height (Some p) = Inr (bh_Difficulty (blk_Header p))"
proof -
  let ?d = "bh_Difficulty (blk_Header p)"
  have "holds_nat (f64_mul (f64_of_u64 ?d) (f64_of_nat 1)) (unat ?d)"
    using holds_nat_mul [OF holds_nat_of_u64 holds_nat_of_nat, of ?d 1] assms(4) by simp
  then have "u64_of_f64 pl (f64_mul (f64_of_u64 ?d) (f64_of_nat 1)) = ?d"
    using u64_of_holds_nat assms(4) by fastforce
  moreover have "1 \<le> ?d"
    using assms(3) by (simp add: word_le_nat_alt)
  ultimately show ?thesis
    using assms(1,2)
    by (auto simp: CalculateDifficulty_def IsLaunchGuardActive_def Let_def not_less
        simp del: One_nat_def split: sum.splits if_splits)
qed

text \<open>
  C33. Outside the launch guard the difficulty never moves: whatever the window, the configured
  maximum adjustment and the platform, the next block has its parent's difficulty, as long as
  that is positive and below \<open>2 ^ 53\<close>.
\<close>

theorem CalculateDifficulty_constant:
  assumes "height \<noteq> 0" and "IsLaunchGuardActive g height = Inr False"
    and "0 < unat (bh_Difficulty (blk_Header p))" and "unat (bh_Difficulty (blk_Header p)) < 2 ^ 53"
  shows "CalculateDifficulty pl g height (Some p) = Inr (bh_Difficulty (blk_Header p))"
  using assms by (rule difficulty_stays)

definition parent_block :: block where
  "parent_block = zero_block\<lparr>blk_Header := zero_header\<lparr>bh_Number := 4999, bh_Difficulty := 23\<rparr>, blk_Hash := 77\<rparr>"

theorem CalculateDifficulty_constant_witness:
  "CalculateDifficulty zero_platform testnet_genesis 5000 (Some parent_block) = Inr 23"
  using CalculateDifficulty_constant [of 5000 testnet_genesis parent_block zero_platform]
  by (simp add: parent_block_def IsLaunchGuardActive_def testnet_genesis_def zero_header_def zero_block_def)

subsection \<open>The Merkle root\<close>

text \<open>The messages hashed on the way to the root, level by level.\<close>

fun level_inputs :: "bytes list \<Rightarrow> bytes list" where
  "level_inputs [] = []"
| "level_inputs [a] = [a @ a]"
| "level_inputs (a # b # hs) = (a @ b) # level_inputs hs"

function node_inputs :: "bytes list \<Rightarrow> bytes list" where
  "node_inputs hs = (if 1 < length hs then level_inputs hs @ node_inputs (merkle_level hs) else [])"
  by pat_completeness auto
termination
  by (relation "measure length") (auto simp: length_merkle_level)

declare node_inputs.simps [simp del]

lemma merkle_level_inputs: "merkle_level hs = map sha256 (level_inputs hs)"
  by (induction hs rule: merkle_level.induct) simp_all

lemma length_level_inputs: "length (level_inputs hs) = (length hs + 1) div 2"
  by (induction hs rule: level_inputs.induct) simp_all

lemma level_inputs_inj:
  assumes "length hs = length hs'" and "\<forall>h\<in>set hs. length h = 32" and "\<forall>h\<in>set hs'. length h = 32"
    and "level_inputs hs = level_inputs hs'"
  shows "hs = hs'"
  using assms
proof (induction hs arbitrary: hs' rule: level_inputs.induct)
  case (2 a)
  then show ?case by (cases hs') (auto simp: append_eq_append_conv)
next
  case (3 a b hs)
  then obtain a' b' gs where "hs' = a' # b' # gs"
    by (auto simp: Suc_length_conv length_Suc_conv)
  with 3 show ?case by (simp add: append_eq_append_conv)
qed simp

lemma length_in_merkle_level: "h \<in> set (merkle_level hs) \<Longrightarrow> length h = 32"
  by (auto simp: merkle_level_inputs)

lemma merkle_loop_step:
  "1 < length hs \<Longrightarrow> merkle_loop hs = merkle_loop (merkle_level hs)"
  "\<not> 1 < length hs \<Longrightarrow> merkle_loop hs = hs"
  by (simp_all add: merkle_loop.simps [of hs])

lemma length_merkle_loop: "hs \<noteq> [] \<Longrightarrow> length (merkle_loop hs) = 1"
proof (induction hs rule: merkle_loop.induct)
  case (1 hs)
  show ?case
  proof (cases "1 < length hs")
    case True
    then have "merkle_level hs \<noteq> []"
      using length_merkle_level [of hs] by auto
    from "1.IH" [OF True this] show ?thesis by (simp only: merkle_loop_step(1) [OF True])
  next
    case False
    then have "merkle_loop hs = hs" by (rule merkle_loop_step(2))
    with False "1.prems" show ?thesis by (cases hs) simp_all
  qed
qed

lemma merkle_loop_binding:
  assumes "length hs = length hs'" and "\<forall>h\<in>set hs. length h = 32" and "\<forall>h\<in>set hs'. length h = 32"
    and "merkle_loop hs = merkle_loop hs'"
    and collision_free: "\<forall>x\<in>set (node_inputs hs). \<forall>y\<in>set (node_inputs hs'). sha256 x = sha256 y \<longrightarrow> x = y"
  shows "hs = hs'"
  using assms
proof (induction hs arbitrary: hs' rule: merkle_loop.induct)
  case (1 hs)
  show ?case
  proof (cases "1 < length hs")
    case True
    then have l': "1 < length hs'" using 1 by simp
    have nodes: "node_inputs hs = level_inputs hs @ node_inputs (merkle_level hs)"
        "node_inputs hs' = level_inputs hs' @ node_inputs (merkle_level hs')"
      using True l' by (simp_all add: node_inputs.simps [of hs] node_inputs.simps [of hs'])
    have "merkle_level hs = merkle_level hs'"
    proof (rule "1.IH" [OF True])
      show "length (merkle_level hs) = length (merkle_level hs')"
        using 1 by (simp add: length_merkle_level)
      show "merkle_loop (merkle_level hs) = merkle_loop (merkle_level hs')"
        using "1.prems"(4) by (simp only: merkle_loop_step(1) [OF True] merkle_loop_step(1) [OF l'])
      show "\<forall>x\<in>set (node_inputs (merkle_level hs)). \<forall>y\<in>set (node_inputs (merkle_level hs')).
          sha256 x = sha256 y \<longrightarrow> x = y"
        using "1.prems"(5) unfolding nodes by simp
    qed (simp_all add: length_in_merkle_level)
    then have maps: "map sha256 (level_inputs hs) = map sha256 (level_inputs hs')"
      by (simp add: merkle_level_inputs)
    have inj: "sha256 x = sha256 y \<Longrightarrow> x = y"
      if "x \<in> set (level_inputs hs)" "y \<in> set (level_inputs hs')" for x y
      using "1.prems"(5) that unfolding nodes by simp
    have "level_inputs hs = level_inputs hs'"
      by (rule list.inj_map_strong [OF inj maps])
    with "1.prems"(1-3) show ?thesis by (rule level_inputs_inj)
  next
    case False
    moreover from this have "\<not> 1 < length hs'" using "1.prems"(1) by simp
    ultimately show ?thesis
      using "1.prems"(4) merkle_loop_step(2) [of hs] merkle_loop_step(2) [of hs'] by simp
  qed
qed

text \<open>Every message hashed for the Merkle root of a block: the transactions and the inner nodes.\<close>

definition merkle_messages :: "transaction list \<Rightarrow> bytes list" where
  "merkle_messages txs = map tx_preimage txs @
     node_inputs (map (\<lambda>tx. hash_bytes (Tx_CalculateHash tx)) txs)"

lemma CalculateMerkleRoot_loop:
  assumes "txs \<noteq> []"
  shows "merkle_loop (map (\<lambda>tx. hash_bytes (Tx_CalculateHash tx)) txs) = [hash_bytes (CalculateMerkleRoot txs)]"
proof (cases "length txs = 1")
  case True
  then obtain tx where "txs = [tx]" by (auto simp: length_Suc_conv)
  then show ?thesis by (simp add: CalculateMerkleRoot_def merkle_loop_step(2))
next
  case False
  let ?hs = "map (\<lambda>tx. hash_bytes (Tx_CalculateHash tx)) txs"
  have more: "1 < length ?hs" using assms False by (cases txs) auto
  have "length (merkle_loop ?hs) = 1"
    using assms by (intro length_merkle_loop) simp
  then obtain r where r: "merkle_loop ?hs = [r]" by (auto simp: length_Suc_conv)
  have "r \<in> set (merkle_loop (merkle_level ?hs))"
    using r by (simp only: merkle_loop_step(1) [OF more]) simp
  moreover have "h \<in> set (merkle_loop gs) \<Longrightarrow> \<forall>g\<in>set gs. length g = 32 \<Longrightarrow> length h = 32" for h gs
  proof (induction gs rule: merkle_loop.induct)
    case (1 gs)
    show ?case
    proof (cases "1 < length gs")
      case True
      show ?thesis
        by (rule "1.IH" [OF True]) (use "1.prems" in \<open>auto simp only: merkle_loop_step(1) [OF True] length_in_merkle_level\<close>)
    next
      case False
      with "1.prems" merkle_loop_step(2) [OF False] show ?thesis by simp
    qed
  qed
  ultimately have "length r = 32"
    by (metis length_in_merkle_level)
  with r assms False show ?thesis
    by (simp add: CalculateMerkleRoot_def hash_bytes_hash_of)
qed

lemma CalculateMerkleRoot_commits:
  assumes "length txs = length txs'" and "CalculateMerkleRoot txs = CalculateMerkleRoot txs'"
    and "\<forall>x\<in>set (merkle_messages txs). \<forall>y\<in>set (merkle_messages txs'). sha256 x = sha256 y \<longrightarrow> x = y"
  shows "map tx_preimage txs = map tx_preimage txs'"
proof (cases "txs = []")
  case True
  with assms(1) show ?thesis by simp
next
  case False
  let ?hs = "map (\<lambda>tx. hash_bytes (Tx_CalculateHash tx))"
  have "txs' \<noteq> []" using False assms(1) by auto
  have "?hs txs = ?hs txs'"
  proof (rule merkle_loop_binding)
    show "merkle_loop (?hs txs) = merkle_loop (?hs txs')"
      using assms(2) CalculateMerkleRoot_loop [OF False] CalculateMerkleRoot_loop [OF \<open>txs' \<noteq> []\<close>]
      by simp
    show "\<forall>x\<in>set (node_inputs (?hs txs)). \<forall>y\<in>set (node_inputs (?hs txs')). sha256 x = sha256 y \<longrightarrow> x = y"
      using assms(3) by (simp add: merkle_messages_def)
  qed (use assms(1) in simp_all)
  then have maps: "map sha256 (map tx_preimage txs) = map sha256 (map tx_preimage txs')"
    by (simp add: Tx_CalculateHash_def o_def)
  have inj: "sha256 x = sha256 y \<Longrightarrow> x = y"
    if "x \<in> set (map tx_preimage txs)" "y \<in> set (map tx_preimage txs')" for x y
    using assms(3) that unfolding merkle_messages_def by simp
  show ?thesis by (rule list.inj_map_strong [OF inj maps])
qed


definition signed_tx :: transaction where
  "signed_tx = zero_tx\<lparr>tx_From := 11, tx_To := 12, tx_Amount := 500, tx_Fee := 10000, tx_Signature := [1]\<rparr>"


text \<open>Only the length keeps a list from being extended: an odd level pairs its last node with itself.\<close>

lemma merkle_level_dup: "odd (length hs) \<Longrightarrow> merkle_level (hs @ [last hs]) = merkle_level hs"
  by (induction hs rule: merkle_level.induct) auto

text \<open>
  For an odd number of transactions, three or more, repeating the last one leaves the Merkle
  root unchanged: without the transaction count two blocks with different bodies share a header.
\<close>

theorem CalculateMerkleRoot_duplicate_last:
  assumes "odd (length txs)" and "3 \<le> length txs"
  shows "CalculateMerkleRoot (txs @ [last txs]) = CalculateMerkleRoot txs"
proof -
  let ?hs = "map (\<lambda>tx. hash_bytes (Tx_CalculateHash tx))"
  have "txs \<noteq> []" using assms(2) by auto
  then have "?hs (txs @ [last txs]) = ?hs txs @ [last (?hs txs)]"
    by (simp add: last_map)
  moreover have "merkle_loop (?hs txs @ [last (?hs txs)]) = merkle_loop (?hs txs)"
    using assms \<open>txs \<noteq> []\<close> merkle_loop_step(1) [of "?hs txs @ [last (?hs txs)]"] merkle_loop_step(1) [of "?hs txs"]
    by (simp add: merkle_level_dup)
  ultimately show ?thesis
    using assms(2) \<open>txs \<noteq> []\<close> by (simp add: CalculateMerkleRoot_def del: map_append)
qed

theorem CalculateMerkleRoot_duplicate_last_witness:
  "CalculateMerkleRoot [zero_tx, signed_tx, signed_tx\<lparr>tx_Nonce := 1\<rparr>, signed_tx\<lparr>tx_Nonce := 1\<rparr>] =
   CalculateMerkleRoot [zero_tx, signed_tx, signed_tx\<lparr>tx_Nonce := 1\<rparr>]"
  using CalculateMerkleRoot_duplicate_last [of "[zero_tx, signed_tx, signed_tx\<lparr>tx_Nonce := 1\<rparr>]"] by simp

subsection \<open>Accepted transactions and blocks\<close>

definition min_fee :: "platform \<Rightarrow> genesis_config \<Rightarrow> u64" where
  "min_fee pl g = u64_of_f64 pl (f64_mul (nf_BaseTxFee (g_NetworkFee g)) micro)"

definition charged_gas :: "transaction \<Rightarrow> u64" where
  "charged_gas tx = (if tx_GasUsed tx = 0 then 1 else tx_GasUsed tx)"

lemma ValidateTransaction_accepts_iff:
  "is_ok (ValidateTransaction pl g (Some tx)) \<longleftrightarrow>
     IsValid tx \<and> min_fee pl g \<le> tx_Fee tx \<and> charged_gas tx * tx_GasPrice tx \<le> tx_Fee tx \<and> tx_Signature tx \<noteq> []"
  by (auto simp: ValidateTransaction_def min_fee_def charged_gas_def Let_def not_less)

lemma ValidateTransaction_result:
  "ValidateTransaction pl g (Some tx) = Inr tx' \<Longrightarrow> tx' = tx\<lparr>tx_GasUsed := charged_gas tx\<rparr>"
  by (auto simp: ValidateTransaction_def charged_gas_def Let_def split: if_splits)

lemma first_tx_error_None:
  "first_tx_error pl g i txs = None \<longleftrightarrow> (\<forall>tx\<in>set txs. is_ok (ValidateTransaction pl g (Some tx)))"
  by (induction txs arbitrary: i) (auto split: sum.splits simp: is_ok_iff)

lemma check_body_iff:
  "check_body pl g b = Inr () \<longleftrightarrow>
     ValidateProofOfWork b \<and> (\<forall>tx\<in>set (blk_Txs b). is_ok (ValidateTransaction pl g (Some tx))) \<and>
     bh_MerkleRoot (blk_Header b) = CalculateMerkleRoot (blk_Txs b) \<and>
     bh_TxCount (blk_Header b) = of_nat (length (blk_Txs b))"
  using first_tx_error_None [of pl g 0 "blk_Txs b"]
  by (cases "first_tx_error pl g 0 (blk_Txs b)") (auto simp: check_body_def)

lemma ValidateBlock_body: "ValidateBlock pl g now (Some b) parent = Inr () \<Longrightarrow> check_body pl g b = Inr ()"
  by (auto simp: ValidateBlock_def split: option.splits if_splits sum.splits)

text \<open>
  C14. What acceptance of a block on a parent means: it names the parent's hash, its number is not
  below the parent's (a repeated or skipped number passes), its time lies between the parent's and
  two minutes from now, its difficulty is the computed one and its header meets it, every
  transaction passes, and Merkle root and count are those of the body.
\<close>

theorem ValidateBlock_accepts_iff:
  "ValidateBlock pl g now (Some b) (Some p) = Inr () \<longleftrightarrow>
     bh_ParentHash (blk_Header b) = blk_Hash p \<and>
     (bh_Number (blk_Header b) = bh_Number (blk_Header p) + 1 \<or> bh_Number (blk_Header p) \<le> bh_Number (blk_Header b)) \<and>
     bh_Timestamp (blk_Header p) \<le> bh_Timestamp (blk_Header b) \<and>
     bh_Timestamp (blk_Header b) \<le> now + 120 * 1000000000 \<and>
     CalculateDifficulty pl g (bh_Number (blk_Header b)) (Some p) = Inr (bh_Difficulty (blk_Header b)) \<and>
     (bh_Difficulty (blk_Header b) \<le> 20 \<or>
       unat (Block_CalculateHash b) < 2 ^ (257 - unat (bh_Difficulty (blk_Header b)))) \<and>
     (\<forall>tx\<in>set (blk_Txs b). tx_From tx \<noteq> 0 \<and> tx_To tx \<noteq> 0 \<and> tx_Signature tx \<noteq> [] \<and>
       (tx_Amount tx \<noteq> 0 \<or> tx_Fee tx \<noteq> 0) \<and> min_fee pl g \<le> tx_Fee tx \<and>
       charged_gas tx * tx_GasPrice tx \<le> tx_Fee tx) \<and>
     bh_MerkleRoot (blk_Header b) = CalculateMerkleRoot (blk_Txs b) \<and>
     bh_TxCount (blk_Header b) = of_nat (length (blk_Txs b))"
proof -
  have "is_ok (ValidateTransaction pl g (Some tx)) \<longleftrightarrow>
      tx_From tx \<noteq> 0 \<and> tx_To tx \<noteq> 0 \<and> tx_Signature tx \<noteq> [] \<and> (tx_Amount tx \<noteq> 0 \<or> tx_Fee tx \<noteq> 0) \<and>
      min_fee pl g \<le> tx_Fee tx \<and> charged_gas tx * tx_GasPrice tx \<le> tx_Fee tx" for tx
    by (auto simp: ValidateTransaction_accepts_iff IsValid_def)
  note body = check_body_iff [of pl g b, unfolded this ValidateProofOfWork_iff]
  have "ValidateBlock pl g now (Some b) (Some p) = Inr () \<longleftrightarrow>
      bh_ParentHash (blk_Header b) = blk_Hash p \<and>
      (bh_Number (blk_Header b) = bh_Number (blk_Header p) + 1 \<or> bh_Number (blk_Header p) \<le> bh_Number (blk_Header b)) \<and>
      bh_Timestamp (blk_Header p) \<le> bh_Timestamp (blk_Header b) \<and>
      bh_Timestamp (blk_Header b) \<le> now + 120 * 1000000000 \<and>
      CalculateDifficulty pl g (bh_Number (blk_Header b)) (Some p) = Inr (bh_Difficulty (blk_Header b)) \<and>
      check_body pl g b = Inr ()"
    by (cases "CalculateDifficulty pl g (bh_Number (blk_Header b)) (Some p)")
      (auto simp: ValidateBlock_def not_less not_le)
  then show ?thesis unfolding body by simp
qed


definition one_tx_block :: "transaction \<Rightarrow> block" where
  "one_tx_block tx = zero_block\<lparr>blk_Header := zero_header\<lparr>bh_MerkleRoot := Tx_CalculateHash tx, bh_TxCount := 1\<rparr>,
     blk_Txs := [tx]\<rparr>"

lemma testnet_min_fee [simp]: "min_fee pl testnet_genesis = 10000"
proof -
  have "f64_mul (f64_round False 1 100) micro = f64_of_nat 10000"
    by (simp add: micro_def f64_evals)
  then show ?thesis
    using u64_of_holds_nat [OF holds_nat_of_nat [of 10000], of pl]
    by (simp add: min_fee_def testnet_genesis_def testnet_fees_def)
qed

lemma one_tx_block_accepted:
  "ValidateBlock pl testnet_genesis 0 (Some (one_tx_block (signed_tx\<lparr>tx_Timestamp := t\<rparr>))) None = Inr ()"
proof -
  have "is_ok (ValidateTransaction pl testnet_genesis (Some (signed_tx\<lparr>tx_Timestamp := t\<rparr>)))"
    by (simp add: ValidateTransaction_accepts_iff IsValid_def signed_tx_def zero_tx_def charged_gas_def)
  then show ?thesis
    by (simp add: ValidateBlock_def check_body_iff one_tx_block_def zero_block_def zero_header_def
        ValidateProofOfWork_def CalculateMerkleRoot_def zero_time_def)
qed


definition child_block :: block where
  "child_block = (one_tx_block signed_tx)\<lparr>blk_Header := (blk_Header (one_tx_block signed_tx))\<lparr>bh_ParentHash := 77,
     bh_Number := 5000, bh_Difficulty := 7\<rparr>\<rparr>"

theorem ValidateBlock_accepts_iff_witness:
  "ValidateBlock zero_platform testnet_genesis 0 (Some child_block)
     (Some (parent_block\<lparr>blk_Header := (blk_Header parent_block)\<lparr>bh_Difficulty := 7\<rparr>\<rparr>)) = Inr ()"
proof -
  have "CalculateDifficulty zero_platform testnet_genesis 5000
      (Some (parent_block\<lparr>blk_Header := (blk_Header parent_block)\<lparr>bh_Difficulty := 7\<rparr>\<rparr>)) = Inr 7"
    by (subst difficulty_stays)
      (simp_all add: parent_block_def IsLaunchGuardActive_def testnet_genesis_def zero_header_def zero_block_def)
  then show ?thesis
    by (subst ValidateBlock_accepts_iff)
      (simp add: child_block_def one_tx_block_def zero_block_def zero_header_def parent_block_def signed_tx_def
        zero_tx_def charged_gas_def zero_time_def CalculateMerkleRoot_def)
qed

text \<open>
  The price of gas is computed modulo \<open>2 ^ 64\<close>: a transaction whose gas costs \<open>2 ^ 64\<close>
  micro-coins passes the fee check of the testnet with the minimum fee.
\<close>

theorem ValidateTransaction_gas_wraps:
  "ValidateTransaction pl testnet_genesis
     (Some (signed_tx\<lparr>tx_GasUsed := 2 ^ 32, tx_GasPrice := 2 ^ 32\<rparr>)) =
   Inr (signed_tx\<lparr>tx_GasUsed := 2 ^ 32, tx_GasPrice := 2 ^ 32\<rparr>)"
proof -
  have "is_ok (ValidateTransaction pl testnet_genesis (Some (signed_tx\<lparr>tx_GasUsed := 2 ^ 32, tx_GasPrice := 2 ^ 32\<rparr>)))"
    by (simp add: ValidateTransaction_accepts_iff IsValid_def signed_tx_def zero_tx_def charged_gas_def)
  then obtain tx where tx: "ValidateTransaction pl testnet_genesis
      (Some (signed_tx\<lparr>tx_GasUsed := 2 ^ 32, tx_GasPrice := 2 ^ 32\<rparr>)) = Inr tx"
    unfolding is_ok_iff by blast
  from ValidateTransaction_result [OF tx] tx show ?thesis
    by (simp add: charged_gas_def)
qed

end
