(* ===== verification/Mempool.thy ===== *)
theory Mempool
  imports CoreTypes
begin

text \<open>
  The stores of \<^verbatim>\<open>core/blockchain.go\<close> beside the chain: the \<^verbatim>\<open>Mempool\<close> of pending
  transactions, the \<^verbatim>\<open>StateManager\<close>, and the \<^verbatim>\<open>EventBus\<close> with its buffered channels.
  Mempool and state are keyed stores. A subscription is a channel of capacity 100, to which
  \<^verbatim>\<open>Emit\<close> never blocks: what does not fit is dropped.
\<close>

subsection \<open>The mempool\<close>

type_synonym mempool = "string \<rightharpoonup> transaction"

definition NewMempool :: mempool where
  "NewMempool = Map.empty"

definition AddTransaction :: "transaction \<Rightarrow> mempool \<Rightarrow> mempool" where
  "AddTransaction tx m = m(hex_encode (hash_bytes (tx_Hash tx)) \<mapsto> tx)"

text \<open>\<open>ord\<close> is the order in which the runtime visits the map.\<close>

definition GetPendingTransactions :: "string list \<Rightarrow> mempool \<Rightarrow> transaction list" where
  "GetPendingTransactions ord m = range_vals m ord"

definition RemoveTransaction :: "hash \<Rightarrow> mempool \<Rightarrow> mempool" where
  "RemoveTransaction txHash m = m(hex_encode (hash_bytes txHash) := None)"

definition Mempool_Clear :: "mempool \<Rightarrow> mempool" where
  "Mempool_Clear m = Map.empty"

definition pending :: "mempool \<Rightarrow> hash \<Rightarrow> transaction option" where
  "pending m h = m (hex_encode (hash_bytes h))"

lemma hash_key_inj [simp]:
  "hex_encode (hash_bytes h) = hex_encode (hash_bytes h') \<longleftrightarrow> h = h'"
  by (metis hex_decode_encode hashc.enc_inj option.inject)

interpretation pool: keyed_table pending AddTransaction tx_Hash "\<lambda>tx. tx" RemoveTransaction
  by unfold_locales (simp_all add: pending_def AddTransaction_def RemoveTransaction_def)

text \<open>Every pending transaction sits under its own hash, and there are finitely many.\<close>

definition mempool_wf :: "mempool \<Rightarrow> bool" where
  "mempool_wf m \<longleftrightarrow> finite (dom m) \<and> (\<forall>k tx. m k = Some tx \<longrightarrow> k = hex_encode (hash_bytes (tx_Hash tx)))"

lemma mempool_wf_New [wf_intros]: "mempool_wf NewMempool"
  by (simp add: mempool_wf_def NewMempool_def)

lemma mempool_wf_Add [wf_intros]: "mempool_wf m \<Longrightarrow> mempool_wf (AddTransaction tx m)"
  by (auto simp: mempool_wf_def AddTransaction_def)

lemma mempool_wf_Remove [wf_intros]: "mempool_wf m \<Longrightarrow> mempool_wf (RemoveTransaction h m)"
  by (auto simp: mempool_wf_def RemoveTransaction_def split: if_splits)

lemma mempool_wf_Clear [wf_intros]: "mempool_wf (Mempool_Clear m)"
  by (simp add: mempool_wf_def Mempool_Clear_def)

lemma mempool_wfD: "mempool_wf m \<Longrightarrow> m k = Some tx \<Longrightarrow> k = hex_encode (hash_bytes (tx_Hash tx))"
  by (simp add: mempool_wf_def)

text \<open>
  A block template takes every pending transaction exactly once, whatever the iteration order:
  the list has no duplicates, no two entries with one hash, and its elements are exactly those found
  under their own hash.
\<close>

theorem GetPendingTransactions_complete:
  assumes wf: "mempool_wf m" and ord: "range_order m ord"
  shows "distinct (map tx_Hash (GetPendingTransactions ord m)) \<and>
    set (GetPendingTransactions ord m) = {tx. pending m (tx_Hash tx) = Some tx}"
proof
  let ?f = "\<lambda>tx. hex_encode (hash_bytes (tx_Hash tx))"
  have "set (range_vals m ord) = ran m"
    by (rule set_range_vals) (rule range_order_set [OF ord])
  then show "set (GetPendingTransactions ord m) = {tx. pending m (tx_Hash tx) = Some tx}"
    using mempool_wfD [OF wf] by (fastforce simp: GetPendingTransactions_def pending_def ran_def)
  have "distinct (range_vals m ord)"
    using range_order_distinct [OF ord] mempool_wfD [OF wf] by (rule distinct_range_vals)
  moreover have "inj_on tx_Hash (set (range_vals m ord))"
  proof (rule inj_onI)
    fix s t
    assume "s \<in> set (range_vals m ord)" "t \<in> set (range_vals m ord)" "tx_Hash s = tx_Hash t"
    then obtain j k where jk: "m j = Some s" "m k = Some t"
      by (auto simp: range_vals_def map_filter_def)
    with \<open>tx_Hash s = tx_Hash t\<close> have "j = k"
      using mempool_wfD [OF wf jk(1)] mempool_wfD [OF wf jk(2)] by simp
    with jk show "s = t" by simp
  qed
  ultimately show "distinct (map tx_Hash (GetPendingTransactions ord m))"
    by (simp add: GetPendingTransactions_def distinct_map)
qed

definition one_pending :: mempool where
  "one_pending = AddTransaction (zero_tx\<lparr>tx_Hash := 3\<rparr>) NewMempool"

theorem GetPendingTransactions_complete_witness:
  "set (GetPendingTransactions [hex_encode (hash_bytes 3)] one_pending) =
   {tx. pending one_pending (tx_Hash tx) = Some tx}"
proof -
  have "mempool_wf one_pending"
    unfolding one_pending_def by (intro wf_intros)
  moreover have "range_order one_pending [hex_encode (hash_bytes 3)]"
    by (simp add: one_pending_def range_order_def AddTransaction_def NewMempool_def)
  ultimately show ?thesis
    using GetPendingTransactions_complete by blast
qed

subsection \<open>The state manager\<close>

datatype state_value = StateNumber u64 | StateHash hash

type_synonym state_manager = "string \<rightharpoonup> state_value"

definition NewStateManager :: state_manager where
  "NewStateManager = Map.empty"

definition SetState :: "string \<Rightarrow> state_value \<Rightarrow> state_manager \<Rightarrow> state_manager" where
  "SetState k v sm = sm(k \<mapsto> v)"

text \<open>A missing key reads as \<^verbatim>\<open>nil\<close>.\<close>

definition GetState :: "state_manager \<Rightarrow> string \<Rightarrow> state_value option" where
  "GetState sm k = sm k"

interpretation state: keyed_store GetState "\<lambda>(k, v). SetState k v" fst snd
  by unfold_locales (auto simp: GetState_def SetState_def)

subsection \<open>The event bus\<close>

text \<open>A channel is its buffer, oldest event first; a channel is named by its event and its place in
  the list of the event's subscribers.\<close>

type_synonym 'd event_bus = "string \<rightharpoonup> 'd list list"

definition NewEventBus :: "'d event_bus" where
  "NewEventBus = Map.empty"

definition channels_of :: "'d event_bus \<Rightarrow> string \<Rightarrow> 'd list list" where
  "channels_of eb event = (case eb event of Some chs \<Rightarrow> chs | None \<Rightarrow> [])"

text \<open>\<^verbatim>\<open>select { case ch <- data: default: }\<close> on a buffer of 100.\<close>

definition try_send :: "'d \<Rightarrow> 'd list \<Rightarrow> 'd list" where
  "try_send data ch = (if length ch < 100 then ch @ [data] else ch)"

definition Emit :: "string \<Rightarrow> 'd \<Rightarrow> 'd event_bus \<Rightarrow> 'd event_bus" where
  "Emit event data eb =
     (case eb event of Some chs \<Rightarrow> eb(event \<mapsto> map (try_send data) chs) | None \<Rightarrow> eb)"

definition Subscribe :: "string \<Rightarrow> 'd event_bus \<Rightarrow> 'd event_bus \<times> nat" where
  "Subscribe event eb = (eb(event \<mapsto> channels_of eb event @ [[]]), length (channels_of eb event))"

text \<open>\<^verbatim>\<open><-ch\<close> by the subscriber: it takes the oldest event, and waits on an empty buffer.\<close>

definition receive :: "string \<Rightarrow> nat \<Rightarrow> 'd event_bus \<Rightarrow> 'd event_bus \<times> 'd option" where
  "receive event i eb =
     (if i < length (channels_of eb event) then
        (case channels_of eb event ! i of
           [] \<Rightarrow> (eb, None)
         | d # ds \<Rightarrow> (eb(event \<mapsto> (channels_of eb event)[i := ds]), Some d))
      else (eb, None))"

definition bus_bounded :: "'d event_bus \<Rightarrow> bool" where
  "bus_bounded eb \<longleftrightarrow> (\<forall>event. \<forall>ch\<in>set (channels_of eb event). length ch \<le> 100)"

lemma channels_of_Emit [simp]:
  "channels_of (Emit event data eb) e =
     (if e = event then map (try_send data) (channels_of eb e) else channels_of eb e)"
  by (auto simp: channels_of_def Emit_def split: option.splits)

lemma channels_of_Subscribe [simp]:
  "channels_of (fst (Subscribe event eb)) e =
     (if e = event then channels_of eb e @ [[]] else channels_of eb e)"
  by (simp add: Subscribe_def channels_of_def)

lemma bus_bounded_New [wf_intros]: "bus_bounded NewEventBus"
  by (simp add: bus_bounded_def channels_of_def NewEventBus_def)

lemma bus_bounded_Emit [wf_intros]: "bus_bounded eb \<Longrightarrow> bus_bounded (Emit event data eb)"
  by (auto simp: bus_bounded_def try_send_def)

lemma bus_bounded_Subscribe [wf_intros]: "bus_bounded eb \<Longrightarrow> bus_bounded (fst (Subscribe event eb))"
  by (simp add: bus_bounded_def)

lemma bus_bounded_receive [wf_intros]:
  assumes "bus_bounded eb"
  shows "bus_bounded (fst (receive event i eb))"
proof (cases "i < length (channels_of eb event) \<and> channels_of eb event ! i \<noteq> []")
  case True
  then obtain d ds where d: "channels_of eb event ! i = d # ds" by (auto simp: neq_Nil_conv)
  with True assms have "length (d # ds) \<le> 100"
    unfolding bus_bounded_def by (metis nth_mem)
  moreover have "channels_of (fst (receive event i eb)) e =
      (if e = event then (channels_of eb event)[i := ds] else channels_of eb e)" for e
    using True d by (simp add: receive_def channels_of_def)
  ultimately show ?thesis
    using assms by (auto simp: bus_bounded_def dest!: set_update_subset_insert [THEN subsetD])
next
  case False
  then have "fst (receive event i eb) = eb" by (auto simp: receive_def)
  with assms show ?thesis by simp
qed

lemma fold_try_send: "fold try_send ds ch = ch @ take (100 - length ch) ds"
proof (induction ds arbitrary: ch)
  case Nil
  show ?case by simp
next
  case (Cons d ds)
  show ?case
  proof (cases "length ch < 100")
    case True
    then have "Suc (100 - Suc (length ch)) = 100 - length ch" by simp
    then have "take (100 - length ch) (d # ds) = d # take (100 - Suc (length ch)) ds"
      by (metis take_Suc_Cons)
    moreover have "try_send d ch = ch @ [d]" using True by (simp add: try_send_def)
    ultimately show ?thesis by (simp add: Cons)
  next
    case False
    then have "try_send d ch = ch" by (simp add: try_send_def)
    with False show ?thesis by (simp add: Cons)
  qed
qed

lemma channels_of_fold_Emit:
  "channels_of (fold (Emit event) ds eb) e =
     (if e = event then map (fold try_send ds) (channels_of eb e) else channels_of eb e)"
  by (induction ds arbitrary: eb) (simp_all add: o_def)

text \<open>
  Emitting never blocks and keeps the order: a new subscriber that has read nothing finds the
  first 100 of the events emitted since, in order; the rest was dropped, and the buffers of other
  events are untouched.
\<close>

theorem Emit_buffers_first_100:
  "channels_of (fold (Emit event) ds (fst (Subscribe event eb))) event ! snd (Subscribe event eb) = take 100 ds \<and>
   (e \<noteq> event \<longrightarrow> channels_of (fold (Emit event) ds (fst (Subscribe event eb))) e = channels_of eb e)"
  by (simp add: channels_of_fold_Emit fold_try_send) (simp add: Subscribe_def nth_append)

theorem Emit_buffers_first_100_witness:
  "channels_of (fold (Emit ''blockAdded'') [1, 2, 3 :: nat] (fst (Subscribe ''blockAdded'' NewEventBus))) ''blockAdded'' !
     snd (Subscribe ''blockAdded'' (NewEventBus :: nat event_bus)) = [1, 2, 3] \<and>
   channels_of (fold (Emit ''blockAdded'') [1, 2, 3 :: nat] (fst (Subscribe ''blockAdded'' NewEventBus))) ''newPeer'' = []"
proof -
  have "channels_of NewEventBus ''newPeer'' = ([] :: nat list list)"
    by (simp add: channels_of_def NewEventBus_def)
  then show ?thesis
    using Emit_buffers_first_100 [of "''blockAdded''" "[1, 2, 3 :: nat]" NewEventBus "''newPeer''"] by simp
qed

end
