(* ===== verification/Blockchain.thy ===== *)
theory Blockchain
  imports Utxo Consensus Mempool
begin

text \<open>
  \<^verbatim>\<open>core/blockchain.go\<close>: the chain a node keeps, its consensus rules, and the operations that
  change it. \<^verbatim>\<open>BlockPersister\<close> is an interface of the code: it is the record \<open>persister\<close> of its
  methods over a storage state \<open>'s\<close>, an argument of the operations that call it. A lock is held
  for the whole of an operation's work in memory, so that an operation is one step of the state.
\<close>

subsection \<open>State\<close>

record ('s, 'e) persister =
  ps_StoreBlock :: "block \<Rightarrow> 's \<Rightarrow> 's \<times> ('e + unit)"
  ps_GetBlockByNumber :: "u64 \<Rightarrow> 's \<Rightarrow> 'e + block option"
  ps_GetBlockByHash :: "bytes \<Rightarrow> 's \<Rightarrow> 'e + block option"
  ps_GetBestBlock :: "'s \<Rightarrow> 'e + block option"
  ps_GetBlockCount :: "'s \<Rightarrow> 'e + u64"
  ps_Close :: "'s \<Rightarrow> 's \<times> ('e + unit)"

record difficulty_adjustment =
  da_windowSize :: int
  da_blockTimes :: "gotime list"
  da_adjustments :: "u64 list"

record consensus_v2 =
  cs_difficulty :: u64
  cs_target :: u64
  cs_blockTime :: int
  cs_adjustment :: difficulty_adjustment

datatype chain_event = BlockAdded block u64

record 's chain =
  ch_blocks :: "block list"
  ch_height :: u64
  ch_bestBlock :: "block option"
  ch_genesis :: genesis_config
  ch_consensus :: consensus_v2
  ch_eventBus :: "chain_event event_bus"
  ch_stateManager :: state_manager
  ch_utxoSet :: utxo_set
  ch_mempool :: mempool
  ch_storage :: "'s option"

definition NewDifficultyAdjustment :: difficulty_adjustment where
  "NewDifficultyAdjustment = \<lparr>da_windowSize = 144, da_blockTimes = [], da_adjustments = []\<rparr>"

definition NewConsensusV2 :: consensus_v2 where
  "NewConsensusV2 = \<lparr>cs_difficulty = 10, cs_target = push_bit (64 - 1) 1, cs_blockTime = 15 * 1000000000,
     cs_adjustment = NewDifficultyAdjustment\<rparr>"

subsection \<open>Proof of work and difficulty\<close>

text \<open>The shift count is a \<^verbatim>\<open>uint64\<close>: for a difficulty above 64 it wraps to a huge number and the
  target is zero.\<close>

definition ValidateProofOfWorkV2 :: "block \<Rightarrow> bool" where
  "ValidateProofOfWorkV2 b =
     (if bh_Difficulty (blk_Header b) \<le> 20 then True
      else
        (let target = push_bit (unat (64 - bh_Difficulty (blk_Header b))) (1 :: u64);
             hashInt = be_get (take 8 (hash_bytes (blk_Hash b)))
         in hashInt < target))"

definition CalculateDifficultyV2 :: "u64 \<Rightarrow> block option \<Rightarrow> u64" where
  "CalculateDifficultyV2 blockNumber parent =
     (case parent of Some p \<Rightarrow> bh_Difficulty (blk_Header p) | None \<Rightarrow> 10)"

text \<open>\<^verbatim>\<open>t.Sub(u)\<close> saturates at the 64 bits of a \<^verbatim>\<open>time.Duration\<close>; \<^verbatim>\<open>/\<close> truncates towards zero.\<close>

definition time_Sub :: "gotime \<Rightarrow> gotime \<Rightarrow> int" where
  "time_Sub t u = max (- (2 ^ 63)) (min (2 ^ 63 - 1) (t - u))"

definition int_quot :: "int \<Rightarrow> int \<Rightarrow> int" where
  "int_quot a b = sgn a * sgn b * (\<bar>a\<bar> div \<bar>b\<bar>)"

definition da_CalculateDifficulty ::
  "platform \<Rightarrow> u64 \<Rightarrow> block option \<Rightarrow> difficulty_adjustment \<Rightarrow> difficulty_adjustment \<times> (go_panic + u64)" where
  "da_CalculateDifficulty pl blockNumber parent da =
     (case parent of
        None \<Rightarrow> (da, Inl NilDereference)
      | Some p \<Rightarrow>
          (let times = da_blockTimes da @ [bh_Timestamp (blk_Header p)];
               times = (if da_windowSize da < int (length times) then drop 1 times else times);
               da' = da\<lparr>da_blockTimes := times\<rparr>
           in if length times < 2 then (da', Inr 4)
              else
                (let totalTime = time_Sub (times ! (length times - 1)) (times ! 0);
                     avgBlockTime = int_quot totalTime (int (length times) - 1);
                     adjustmentFactor = f64_div (f64_of_int (15 * 1000000000)) (f64_of_int avgBlockTime);
                     newDifficulty = u64_of_f64 pl (f64_mul (f64_of_u64 (bh_Difficulty (blk_Header p))) adjustmentFactor);
                     newDifficulty = (if newDifficulty < 1 then 1 else newDifficulty);
                     newDifficulty = (if 1000 < newDifficulty then 1000 else newDifficulty)
                 in (da', Inr newDifficulty))))"

subsection \<open>Adding a block\<close>

datatype chain_error =
  NoParentBlock | ParentHashMismatch hash hash | NumberMismatch u64 u64 | BeforeParent gotime gotime
  | InvalidProofOfWork

definition validateBlockV2 :: "block \<Rightarrow> 's chain \<Rightarrow> chain_error + unit" where
  "validateBlockV2 b c =
     (if bh_Number (blk_Header b) = 0 then Inr ()
      else
        (case ch_bestBlock c of
           None \<Rightarrow> Inl NoParentBlock
         | Some parent \<Rightarrow>
             if bh_ParentHash (blk_Header b) \<noteq> blk_Hash parent
             then Inl (ParentHashMismatch (blk_Hash parent) (bh_ParentHash (blk_Header b)))
             else if bh_Number (blk_Header b) \<noteq> bh_Number (blk_Header parent) + 1
             then Inl (NumberMismatch (bh_Number (blk_Header parent) + 1) (bh_Number (blk_Header b)))
             else if bh_Timestamp (blk_Header b) < bh_Timestamp (blk_Header parent)
             then Inl (BeforeParent (bh_Timestamp (blk_Header b)) (bh_Timestamp (blk_Header parent)))
             else if \<not> ValidateProofOfWorkV2 b then Inl InvalidProofOfWork
             else Inr ()))"

text \<open>\<^verbatim>\<open>for i, output := range tx.Outputs\<close>, the index cut to 32 bits.\<close>

primrec add_outputs :: "hash \<Rightarrow> hash \<Rightarrow> nat \<Rightarrow> tx_output list \<Rightarrow> utxo_set \<Rightarrow> utxo_set" where
  "add_outputs txHash blockHash i [] us = us"
| "add_outputs txHash blockHash i (out # outs) us =
     add_outputs txHash blockHash (Suc i) outs
       (AddUTXO txHash (of_nat i) (out_Amount out) (out_Address out) blockHash us)"

definition processTransactionUTXOs :: "transaction \<Rightarrow> hash \<Rightarrow> utxo_set \<Rightarrow> utxo_set" where
  "processTransactionUTXOs tx blockHash us =
     add_outputs (tx_Hash tx) blockHash 0 (tx_Outputs tx)
       (fold (\<lambda>i us. fst (SpendUTXO (in_PreviousTxHash i) (in_Index i) us)) (tx_Inputs tx) us)"

primrec process_block_txs :: "hash \<Rightarrow> transaction list \<Rightarrow> utxo_set \<times> mempool \<Rightarrow> utxo_set \<times> mempool" where
  "process_block_txs blockHash [] st = st"
| "process_block_txs blockHash (tx # txs) st =
     process_block_txs blockHash txs
       (processTransactionUTXOs tx blockHash (fst st), RemoveTransaction (tx_Hash tx) (snd st))"

definition addBlockV2 ::
  "('s, 'e) persister \<Rightarrow> block \<Rightarrow> 's chain \<Rightarrow> 's chain \<times> (chain_error + unit)" where
  "addBlockV2 ps b c =
     (case validateBlockV2 b c of
        Inl e \<Rightarrow> (c, Inl e)
      | Inr _ \<Rightarrow>
          (let (us, pool) = process_block_txs (blk_Hash b) (blk_Txs b) (ch_utxoSet c, ch_mempool c);
               height = bh_Number (blk_Header b);
               c1 = c\<lparr>ch_utxoSet := us, ch_mempool := pool, ch_blocks := ch_blocks c @ [b],
                      ch_height := height, ch_bestBlock := Some b\<rparr>;
               c2 = c1\<lparr>ch_stateManager := SetState ''bestBlock'' (StateHash (blk_Hash b))
                        (SetState ''height'' (StateNumber height) (ch_stateManager c1))\<rparr>;
               c3 = c2\<lparr>ch_eventBus := Emit ''blockAdded'' (BlockAdded b height) (ch_eventBus c2)\<rparr>;
               c4 = (case ch_storage c3 of
                       None \<Rightarrow> c3
                     | Some s \<Rightarrow> c3\<lparr>ch_storage := Some (fst (ps_StoreBlock ps b s))\<rparr>)
           in (c4, Inr ())))"

definition AddBlockV2 :: "('s, 'e) persister \<Rightarrow> block \<Rightarrow> 's chain \<Rightarrow> 's chain \<times> (chain_error + unit)" where
  "AddBlockV2 ps b c = addBlockV2 ps b c"

definition bc_AddBlock :: "('s, 'e) persister \<Rightarrow> block \<Rightarrow> 's chain \<Rightarrow> 's chain \<times> (chain_error + unit)" where
  "bc_AddBlock ps b c = addBlockV2 ps b c"

subsection \<open>Starting a chain\<close>

definition createGenesisBlockV2 :: "genesis_config \<Rightarrow> block" where
  "createGenesisBlockV2 g =
     (let b = \<lparr>blk_Header = \<lparr>bh_ParentHash = 0, bh_Number = 0, bh_Timestamp = 1609459200 * 1000000000,
                 bh_Difficulty = dc_InitialDifficulty (g_Difficulty g), bh_Miner = 0, bh_Nonce = 0,
                 bh_MerkleRoot = 0, bh_TxCount = 0, bh_NetworkFee = 0, bh_TreasuryFee = 0\<rparr>,
               blk_Txs = [], blk_Hash = 0\<rparr>
      in b\<lparr>blk_Hash := Block_CalculateHash b\<rparr>)"

primrec process_stored_txs :: "hash \<Rightarrow> transaction list \<Rightarrow> utxo_set \<Rightarrow> utxo_set" where
  "process_stored_txs blockHash [] us = us"
| "process_stored_txs blockHash (tx # txs) us =
     process_stored_txs blockHash txs (processTransactionUTXOs tx blockHash us)"

text \<open>
  The loop over the stored blocks, with the number of blocks left. \<^verbatim>\<open>i\<close> cannot pass the
  largest \<^verbatim>\<open>uint64\<close> before \<open>2 ^ 64\<close> blocks have been loaded.
\<close>

primrec load_blocks :: "('s, 'e) persister \<Rightarrow> 's \<Rightarrow> nat \<Rightarrow> u64 \<Rightarrow> 's chain \<Rightarrow> 's chain" where
  "load_blocks ps s 0 i c = c"
| "load_blocks ps s (Suc n) i c =
     (case ps_GetBlockByNumber ps i s of
        Inr (Some b) \<Rightarrow>
          load_blocks ps s n (i + 1)
            (c\<lparr>ch_blocks := ch_blocks c @ [b],
               ch_utxoSet := process_stored_txs (blk_Hash b) (blk_Txs b) (ch_utxoSet c)\<rparr>)
      | _ \<Rightarrow> c\<lparr>ch_height := 0, ch_bestBlock := None, ch_blocks := []\<rparr>)"

definition loadChainFromStorage :: "('s, 'e) persister \<Rightarrow> 's chain \<Rightarrow> 's chain" where
  "loadChainFromStorage ps c =
     (case ch_storage c of
        None \<Rightarrow> c
      | Some s \<Rightarrow>
          (case ps_GetBestBlock ps s of
             Inr (Some best) \<Rightarrow>
               load_blocks ps s (unat (bh_Number (blk_Header best)) + 1) 0
                 (c\<lparr>ch_height := bh_Number (blk_Header best), ch_bestBlock := Some best\<rparr>)
           | _ \<Rightarrow> c))"

definition empty_chain :: "genesis_config \<Rightarrow> 's option \<Rightarrow> 's chain" where
  "empty_chain g storage =
     \<lparr>ch_blocks = [], ch_height = 0, ch_bestBlock = None, ch_genesis = g, ch_consensus = NewConsensusV2,
      ch_eventBus = NewEventBus, ch_stateManager = NewStateManager, ch_utxoSet = NewUTXOSet,
      ch_mempool = NewMempool, ch_storage = storage\<rparr>"

definition NewBlockchainV2 :: "('s, 'e) persister \<Rightarrow> genesis_config \<Rightarrow> 's option \<Rightarrow> 's chain" where
  "NewBlockchainV2 ps g storage =
     (let c = empty_chain g storage;
          c = (if ch_storage c \<noteq> None then loadChainFromStorage ps c else c)
      in if ch_height c = 0 then fst (addBlockV2 ps (createGenesisBlockV2 (ch_genesis c)) c) else c)"

definition bc_Close :: "('s, 'e) persister \<Rightarrow> 's chain \<Rightarrow> 's chain \<times> ('e + unit)" where
  "bc_Close ps c =
     (case ch_storage c of
        None \<Rightarrow> (c, Inr ())
      | Some s \<Rightarrow> (let (s', r) = ps_Close ps s in (c\<lparr>ch_storage := Some s'\<rparr>, r)))"

subsection \<open>Transactions and block templates\<close>

datatype create_error = InsufficientBalance u64 u64

text \<open>The loop that picks inputs until they cover \<open>need\<close>.\<close>

fun select_inputs :: "u64 \<Rightarrow> utxo list \<Rightarrow> tx_input list \<times> u64 \<Rightarrow> tx_input list \<times> u64" where
  "select_inputs need [] (inputs, totalInput) = (inputs, totalInput)"
| "select_inputs need (u # us) (inputs, totalInput) =
     (if need \<le> totalInput then (inputs, totalInput)
      else select_inputs need us
        (inputs @ [\<lparr>in_PreviousTxHash = u_TxHash u, in_Index = u_Index u, in_Signature = []\<rparr>],
         totalInput + u_Amount u))"

definition CreateTransaction ::
  "bytes list \<Rightarrow> gotime \<Rightarrow> address \<Rightarrow> address \<Rightarrow> u64 \<Rightarrow> u64 \<Rightarrow> 's chain \<Rightarrow> create_error + transaction" where
  "CreateTransaction ord now from to amount fee c =
     (let utxos = GetUTXOs ord from (ch_utxoSet c);
          totalBalance = sum_amounts utxos
      in if totalBalance < amount + fee then Inl (InsufficientBalance (amount + fee) totalBalance)
         else
           (let (inputs, totalInput) = select_inputs (amount + fee) utxos ([], 0);
                change = totalInput - amount - fee;
                outputs = [\<lparr>out_Address = to, out_Amount = amount\<rparr>] @
                  (if 0 < change then [\<lparr>out_Address = from, out_Amount = change\<rparr>] else []);
                tx = \<lparr>tx_From = from, tx_To = to, tx_Amount = amount, tx_Nonce = 0, tx_Fee = fee,
                       tx_GasUsed = 0, tx_GasPrice = 0, tx_Data = [], tx_Signature = [], tx_Hash = 0,
                       tx_Inputs = inputs, tx_Outputs = outputs, tx_Timestamp = now\<rparr>
            in Inr (tx\<lparr>tx_Hash := Tx_CalculateHash tx\<rparr>)))"

primrec halve_reward :: "platform \<Rightarrow> u64 \<Rightarrow> halving_event list \<Rightarrow> u64 \<Rightarrow> u64" where
  "halve_reward pl blockNumber [] reward = reward"
| "halve_reward pl blockNumber (h # hs) reward =
     halve_reward pl blockNumber hs
       (if he_AfterBlocks h < blockNumber
        then u64_of_f64 pl (f64_mul (f64_of_u64 reward) (he_RewardMultiplier h)) else reward)"

definition calculateBlockReward :: "platform \<Rightarrow> u64 \<Rightarrow> 's chain \<Rightarrow> u64" where
  "calculateBlockReward pl blockNumber c =
     halve_reward pl blockNumber (g_HalvingSchedule (ch_genesis c))
       (u64_of_f64 pl (f64_mul (g_InitialBlockReward (ch_genesis c)) micro))"

definition createBlockRewardTransaction :: "gotime \<Rightarrow> address \<Rightarrow> u64 \<Rightarrow> transaction" where
  "createBlockRewardTransaction now miner amount =
     (let tx = \<lparr>tx_From = 0, tx_To = miner, tx_Amount = amount, tx_Nonce = 0, tx_Fee = 0, tx_GasUsed = 0,
                 tx_GasPrice = 0, tx_Data = str_bytes ''block_reward'', tx_Signature = [], tx_Hash = 0,
                 tx_Inputs = [], tx_Outputs = [\<lparr>out_Address = miner, out_Amount = amount\<rparr>],
                 tx_Timestamp = now\<rparr>
      in tx\<lparr>tx_Hash := CalculateTransactionHash tx\<rparr>)"

text \<open>\<open>ord\<close> is the order of the pending transactions; \<open>now_reward\<close> and \<open>now_header\<close> are the two
  readings of the clock.\<close>

definition CreateNewBlockV2 ::
  "platform \<Rightarrow> string list \<Rightarrow> gotime \<Rightarrow> gotime \<Rightarrow> address \<Rightarrow> transaction list \<Rightarrow> 's chain \<Rightarrow> go_panic + block option" where
  "CreateNewBlockV2 pl ord now_reward now_header miner txs c =
     (case ch_bestBlock c of
        None \<Rightarrow> Inr None
      | Some parent \<Rightarrow>
          (case CalculateDifficulty pl (ch_genesis c) (bh_Number (blk_Header parent) + 1) (Some parent) of
             Inl e \<Rightarrow> Inl e
           | Inr difficulty \<Rightarrow>
               (let blockReward = calculateBlockReward pl (bh_Number (blk_Header parent) + 1) c;
                    rewardTx = createBlockRewardTransaction now_reward miner blockReward;
                    allTxs = [rewardTx] @ (txs @ GetPendingTransactions ord (ch_mempool c));
                    b = \<lparr>blk_Header = \<lparr>bh_ParentHash = blk_Hash parent, bh_Number = bh_Number (blk_Header parent) + 1,
                            bh_Timestamp = now_header, bh_Difficulty = difficulty, bh_Miner = miner, bh_Nonce = 0,
                            bh_MerkleRoot = 0, bh_TxCount = of_nat (length allTxs), bh_NetworkFee = 0,
                            bh_TreasuryFee = 0\<rparr>,
                          blk_Txs = allTxs, blk_Hash = 0\<rparr>
                in Inr (Some (b\<lparr>blk_Hash := Block_CalculateHash b\<rparr>)))))"

subsection \<open>Reading the chain\<close>

definition bc_GetBalance :: "bytes list \<Rightarrow> address \<Rightarrow> 's chain \<Rightarrow> u64" where
  "bc_GetBalance ord a c = GetBalance ord a (ch_utxoSet c)"

definition bc_GetUTXOs :: "bytes list \<Rightarrow> address \<Rightarrow> 's chain \<Rightarrow> utxo list" where
  "bc_GetUTXOs ord a c = GetUTXOs ord a (ch_utxoSet c)"

definition GetBestBlock :: "'s chain \<Rightarrow> block option" where
  "GetBestBlock c = ch_bestBlock c"

definition GetHeight :: "'s chain \<Rightarrow> u64" where
  "GetHeight c = ch_height c"

text \<open>\<^verbatim>\<open>for i := len(bc.blocks) - 1; i >= start; i--\<close>, with \<open>i + 1\<close> as the measure.\<close>

primrec recent_loop :: "block list \<Rightarrow> int \<Rightarrow> int \<Rightarrow> nat \<Rightarrow> block list \<Rightarrow> block list" where
  "recent_loop blocks start limit 0 result = result"
| "recent_loop blocks start limit (Suc i) result =
     (if start \<le> int i then
        (let result' = result @ [blocks ! i]
         in if limit \<le> int (length result') then result' else recent_loop blocks start limit i result')
      else result)"

definition GetMempool :: "'s chain \<Rightarrow> mempool" where
  "GetMempool c = ch_mempool c"

definition GetConsensus :: "'s chain \<Rightarrow> consensus_v2" where
  "GetConsensus c = ch_consensus c"

definition GetGenesis :: "'s chain \<Rightarrow> genesis_config" where
  "GetGenesis c = ch_genesis c"

definition GetEventBus :: "'s chain \<Rightarrow> chain_event event_bus" where
  "GetEventBus c = ch_eventBus c"

definition GetRecentBlocks :: "int \<Rightarrow> 's chain \<Rightarrow> go_panic + block list" where
  "GetRecentBlocks limit c =
     (if length (ch_blocks c) = 0 then Inr []
      else if limit < 0 then Inl MakeSliceRange
      else
        (let start = int (length (ch_blocks c)) - limit;
             start = (if start < 0 then 0 else start)
         in Inr (recent_loop (ch_blocks c) start limit (length (ch_blocks c)) [])))"

subsection \<open>The ledger, abstractly\<close>

text \<open>
  What a block does to the unspent outputs, as an operation on the finite map of outpoints: the
  outpoints its transactions spend disappear, its outputs appear under the transaction's hash.
\<close>

definition spent_points :: "transaction \<Rightarrow> outpoint list" where
  "spent_points tx = map (\<lambda>i. (in_PreviousTxHash i, in_Index i)) (tx_Inputs tx)"

definition created_coins :: "transaction \<Rightarrow> hash \<Rightarrow> (outpoint \<times> coin) list" where
  "created_coins tx blockHash =
     map (\<lambda>(i, out). ((tx_Hash tx, of_nat i), (out_Amount out, out_Address out, blockHash)))
       (enumerate 0 (tx_Outputs tx))"

definition ledger_tx :: "hash \<Rightarrow> transaction \<Rightarrow> (outpoint \<rightharpoonup> coin) \<Rightarrow> (outpoint \<rightharpoonup> coin)" where
  "ledger_tx blockHash tx m =
     m |` (- set (spent_points tx)) ++ map_of (rev (created_coins tx blockHash))"

definition ledger_block :: "block \<Rightarrow> (outpoint \<rightharpoonup> coin) \<Rightarrow> (outpoint \<rightharpoonup> coin)" where
  "ledger_block b m = fold (ledger_tx (blk_Hash b)) (blk_Txs b) m"

definition ledger_of :: "block list \<Rightarrow> (outpoint \<rightharpoonup> coin)" where
  "ledger_of blocks = fold ledger_block blocks Map.empty"

lemma add_outputs_fold:
  "add_outputs h b i outs us =
     fold add_output (map (\<lambda>(i, out). ((h, of_nat i), (out_Amount out, out_Address out, b))) (enumerate i outs)) us"
  by (induction outs arbitrary: i us) simp_all

lemma fold_SpendUTXO:
  "fold (\<lambda>i us. fst (SpendUTXO (in_PreviousTxHash i) (in_Index i) us)) ins us =
     fold spend_output (map (\<lambda>i. (in_PreviousTxHash i, in_Index i)) ins) us"
  by (induction ins arbitrary: us) simp_all

lemma unspent_fold_spend: "unspent (fold spend_output ps us) = unspent us |` (- set ps)"
proof
  fix p
  show "unspent (fold spend_output ps us) p = (unspent us |` (- set ps)) p"
    by (cases "p \<in> set ps") (simp_all only: utxo_tab.look_fold_del restrict_map_def Compl_iff simp_thms if_True if_False)
qed

lemma unspent_processTransactionUTXOs:
  "unspent (processTransactionUTXOs tx b us) = ledger_tx b tx (unspent us)"
  by (simp add: processTransactionUTXOs_def add_outputs_fold utxo_tab.look_fold_ins fold_SpendUTXO
      unspent_fold_spend ledger_tx_def spent_points_def created_coins_def)

lemma process_block_txs_eq:
  "process_block_txs b txs (us, m) =
     (process_stored_txs b txs us, fold (\<lambda>tx. RemoveTransaction (tx_Hash tx)) txs m)"
  by (induction txs arbitrary: us m) simp_all

lemma unspent_process_stored_txs:
  "unspent (process_stored_txs b txs us) = fold (ledger_tx b) txs (unspent us)"
  by (induction txs arbitrary: us) (simp_all add: unspent_processTransactionUTXOs)

lemma utxo_wf_add_outputs [wf_intros]: "utxo_wf us \<Longrightarrow> utxo_wf (add_outputs h b i outs us)"
  by (induction outs arbitrary: i us) (simp_all add: wf_intros)

lemma utxo_wf_fold_Spend [wf_intros]:
  "utxo_wf us \<Longrightarrow> utxo_wf (fold (\<lambda>i us. fst (SpendUTXO (in_PreviousTxHash i) (in_Index i) us)) ins us)"
  by (induction ins arbitrary: us) (simp_all add: wf_intros)

lemma utxo_wf_process [wf_intros]: "utxo_wf us \<Longrightarrow> utxo_wf (processTransactionUTXOs tx b us)"
  by (simp add: processTransactionUTXOs_def wf_intros)

lemma utxo_wf_process_stored [wf_intros]: "utxo_wf us \<Longrightarrow> utxo_wf (process_stored_txs b txs us)"
  by (induction txs arbitrary: us) (simp_all add: wf_intros)

lemma mempool_wf_fold_Remove [wf_intros]:
  "mempool_wf m \<Longrightarrow> mempool_wf (fold (\<lambda>tx. RemoveTransaction (tx_Hash tx)) txs m)"
  by (induction txs arbitrary: m) (simp_all add: wf_intros)

subsection \<open>Adding a block, field by field\<close>

lemma addBlockV2_rejects: "validateBlockV2 b c = Inl e \<Longrightarrow> addBlockV2 ps b c = (c, Inl e)"
  by (simp add: addBlockV2_def)

lemma snd_addBlockV2: "snd (addBlockV2 ps b c) = validateBlockV2 b c"
  by (auto simp: addBlockV2_def Let_def split: sum.splits prod.splits)

lemma addBlockV2_accepts:
  assumes "validateBlockV2 b c = Inr ()"
  shows "ch_blocks (fst (addBlockV2 ps b c)) = ch_blocks c @ [b]"
    and "ch_height (fst (addBlockV2 ps b c)) = bh_Number (blk_Header b)"
    and "ch_bestBlock (fst (addBlockV2 ps b c)) = Some b"
    and "ch_genesis (fst (addBlockV2 ps b c)) = ch_genesis c"
    and "ch_utxoSet (fst (addBlockV2 ps b c)) = process_stored_txs (blk_Hash b) (blk_Txs b) (ch_utxoSet c)"
    and "ch_mempool (fst (addBlockV2 ps b c)) = fold (\<lambda>tx. RemoveTransaction (tx_Hash tx)) (blk_Txs b) (ch_mempool c)"
    and "ch_eventBus (fst (addBlockV2 ps b c)) = Emit ''blockAdded'' (BlockAdded b (bh_Number (blk_Header b))) (ch_eventBus c)"
    and "GetState (ch_stateManager (fst (addBlockV2 ps b c))) ''height'' = Some (StateNumber (bh_Number (blk_Header b)))"
    and "GetState (ch_stateManager (fst (addBlockV2 ps b c))) ''bestBlock'' = Some (StateHash (blk_Hash b))"
    and "ch_storage (fst (addBlockV2 ps b c)) = map_option (\<lambda>s. fst (ps_StoreBlock ps b s)) (ch_storage c)"
  using assms by (simp_all add: addBlockV2_def Let_def process_block_txs_eq GetState_def SetState_def split: option.splits)


subsection \<open>Reachable chains\<close>

text \<open>
  The steps of a running node that touch the chain: a block offered by a peer or a miner, accepted or
  not, a transaction put into the mempool, the mempool emptied, a subscription, and a subscriber
  reading its channel.
\<close>

inductive chain_step :: "('s, 'e) persister \<Rightarrow> 's chain \<Rightarrow> 's chain \<Rightarrow> bool" for ps where
  offer_block: "chain_step ps c (fst (addBlockV2 ps b c))"
| submit_tx: "chain_step ps c (c\<lparr>ch_mempool := AddTransaction tx (ch_mempool c)\<rparr>)"
| clear_pool: "chain_step ps c (c\<lparr>ch_mempool := Mempool_Clear (ch_mempool c)\<rparr>)"
| subscribe: "chain_step ps c (c\<lparr>ch_eventBus := fst (Subscribe event (ch_eventBus c))\<rparr>)"
| deliver: "chain_step ps c (c\<lparr>ch_eventBus := fst (receive event i (ch_eventBus c))\<rparr>)"

inductive reachable :: "('s, 'e) persister \<Rightarrow> genesis_config \<Rightarrow> 's option \<Rightarrow> 's chain \<Rightarrow> bool" for ps g st where
  started: "reachable ps g st (NewBlockchainV2 ps g st)"
| stepped: "reachable ps g st c \<Longrightarrow> chain_step ps c c' \<Longrightarrow> reachable ps g st c'"

inductive_cases chain_stepE: "chain_step ps c c'"

text \<open>A node without storage, or whose storage knows no best block, starts from the genesis block.\<close>

definition fresh_start :: "('s, 'e) persister \<Rightarrow> 's option \<Rightarrow> bool" where
  "fresh_start ps st = (case st of None \<Rightarrow> True
     | Some s \<Rightarrow> (case ps_GetBestBlock ps s of Inr (Some _) \<Rightarrow> False | _ \<Rightarrow> True))"

text \<open>What acceptance makes of a block and the one before it.\<close>

definition extends :: "block \<Rightarrow> block \<Rightarrow> bool" where
  "extends a b \<longleftrightarrow> bh_Number (blk_Header b) = 0 \<or>
     bh_ParentHash (blk_Header b) = blk_Hash a \<and> bh_Number (blk_Header b) = bh_Number (blk_Header a) + 1 \<and>
     bh_Timestamp (blk_Header a) \<le> bh_Timestamp (blk_Header b) \<and> ValidateProofOfWorkV2 b"

lemma validateBlockV2_iff:
  "ch_bestBlock c = Some a \<Longrightarrow> validateBlockV2 b c = Inr () \<longleftrightarrow> extends a b"
  by (auto simp: validateBlockV2_def extends_def)

lemma validateBlockV2_genesis: "bh_Number (blk_Header b) = 0 \<Longrightarrow> validateBlockV2 b c = Inr ()"
  by (simp add: validateBlockV2_def)

definition chain_inv :: "genesis_config \<Rightarrow> 's chain \<Rightarrow> bool" where
  "chain_inv g c \<longleftrightarrow>
     ch_genesis c = g \<and> ch_blocks c \<noteq> [] \<and> hd (ch_blocks c) = createGenesisBlockV2 g \<and>
     successively extends (ch_blocks c) \<and>
     ch_bestBlock c = Some (last (ch_blocks c)) \<and> ch_height c = bh_Number (blk_Header (last (ch_blocks c))) \<and>
     GetState (ch_stateManager c) ''height'' = Some (StateNumber (ch_height c)) \<and>
     GetState (ch_stateManager c) ''bestBlock'' = Some (StateHash (blk_Hash (last (ch_blocks c)))) \<and>
     utxo_wf (ch_utxoSet c) \<and> unspent (ch_utxoSet c) = ledger_of (ch_blocks c) \<and>
     mempool_wf (ch_mempool c) \<and> bus_bounded (ch_eventBus c)"

lemma Number_genesis [simp]: "bh_Number (blk_Header (createGenesisBlockV2 g)) = 0"
  by (simp add: createGenesisBlockV2_def Let_def)

lemma NewBlockchainV2_fresh:
  "fresh_start ps st \<Longrightarrow>
     NewBlockchainV2 ps g st = fst (addBlockV2 ps (createGenesisBlockV2 g) (empty_chain g st))"
  by (auto simp: NewBlockchainV2_def Let_def fresh_start_def loadChainFromStorage_def empty_chain_def
      split: option.splits sum.splits)

lemma ledger_of_snoc: "ledger_of (bs @ [b]) = fold (ledger_tx (blk_Hash b)) (blk_Txs b) (ledger_of bs)"
  by (simp add: ledger_of_def ledger_block_def)

lemma empty_chain_simps [simp]:
  "ch_blocks (empty_chain g st) = []" "ch_genesis (empty_chain g st) = g"
  "ch_utxoSet (empty_chain g st) = NewUTXOSet" "ch_mempool (empty_chain g st) = NewMempool"
  "ch_eventBus (empty_chain g st) = NewEventBus" "ch_storage (empty_chain g st) = st"
  "ch_bestBlock (empty_chain g st) = None" "ch_height (empty_chain g st) = 0"
  by (simp_all add: empty_chain_def)

lemma chain_inv_started:
  assumes "fresh_start ps st"
  shows "chain_inv g (NewBlockchainV2 ps g st)"
proof -
  have "validateBlockV2 (createGenesisBlockV2 g) (empty_chain g st) = Inr ()"
    by (simp add: validateBlockV2_genesis)
  note a = addBlockV2_accepts [OF this]
  show ?thesis
    by (simp add: NewBlockchainV2_fresh [OF assms] chain_inv_def a wf_intros
        unspent_process_stored_txs ledger_of_def ledger_block_def)
qed

lemma chain_inv_addBlockV2:
  assumes "chain_inv g c"
  shows "chain_inv g (fst (addBlockV2 ps b c))"
proof (cases "validateBlockV2 b c")
  case (Inl e)
  with assms show ?thesis by (simp add: addBlockV2_rejects)
next
  case (Inr u)
  then have v: "validateBlockV2 b c = Inr ()" by simp
  have "extends (last (ch_blocks c)) b"
    using v assms by (simp add: validateBlockV2_iff [of c "last (ch_blocks c)"] chain_inv_def)
  with assms show ?thesis
    by (simp add: chain_inv_def addBlockV2_accepts [OF v] wf_intros unspent_process_stored_txs
        ledger_of_snoc successively_append_iff)
qed

lemma chain_inv_step: "chain_step ps c c' \<Longrightarrow> chain_inv g c \<Longrightarrow> chain_inv g c'"
  by (elim chain_stepE) (simp_all add: chain_inv_addBlockV2, simp_all add: chain_inv_def wf_intros)

lemma reachable_inv: "reachable ps g st c \<Longrightarrow> fresh_start ps st \<Longrightarrow> chain_inv g c"
  by (induction rule: reachable.induct) (auto intro: chain_inv_started chain_inv_step)

subsection \<open>The chain of a running node\<close>

lemma PoWV2_iff:
  "ValidateProofOfWorkV2 b \<longleftrightarrow> bh_Difficulty (blk_Header b) \<le> 20 \<or>
     bh_Difficulty (blk_Header b) \<le> 64 \<and>
     unat (blk_Hash b) < 2 ^ (256 - unat (bh_Difficulty (blk_Header b)))"
proof (cases "bh_Difficulty (blk_Header b) \<le> 20")
  case True
  then show ?thesis by (simp add: ValidateProofOfWorkV2_def)
next
  case False
  define d where "d = bh_Difficulty (blk_Header b)"
  define hi where "hi = take 8 (hash_bytes (blk_Hash b))"
  define lo where "lo = drop 8 (hash_bytes (blk_Hash b))"
  have d: "20 < unat d" using False by (simp add: d_def word_le_nat_alt)
  have len: "length hi = 8" "length lo = 24" by (simp_all add: hi_def lo_def)
  have "be_put 8 (be_get hi :: u64) = hi"
    using be_put_be_get [of hi, where 'a = 64] len by simp
  then have hashInt: "unat (be_get hi :: u64) = be_val hi"
    using be_val_be_put_exact [of 8 "be_get hi :: u64"] by simp
  have "hash_bytes (blk_Hash b) = hi @ lo" by (simp add: hi_def lo_def)
  then have h: "unat (blk_Hash b) = be_val hi * 256 ^ 24 + be_val lo"
    using be_val_hash_bytes [of "blk_Hash b"] len by (simp add: be_val_append)
  have lo: "be_val lo < 256 ^ 24"
    using be_val_less [of lo] len by simp
  have v: "ValidateProofOfWorkV2 b \<longleftrightarrow> be_val hi < unat (push_bit (unat (64 - d)) (1 :: u64))"
    using False by (simp add: ValidateProofOfWorkV2_def Let_def d_def hi_def [symmetric] word_less_nat_alt hashInt)
  show ?thesis
  proof (cases "d \<le> 64")
    case True
    then have k: "unat (64 - d) = 64 - unat d"
      by (simp add: unat_sub)
    have "unat (push_bit (64 - unat d) (1 :: u64)) = 2 ^ (64 - unat d)"
    proof -
      have "(2::nat) ^ (64 - unat d) < 2 ^ 64"
        using d by (intro power_strict_increasing) simp_all
      then show ?thesis
        using unsigned_push_bit_eq [of "64 - unat d" "1 :: u64", where 'a = nat]
        by (simp add: take_bit_eq_mod)
    qed
    moreover have "256 - unat d = (64 - unat d) + 192"
      using True by (simp add: word_le_nat_alt)
    then have "(2::nat) ^ (256 - unat d) = 2 ^ (64 - unat d) * 256 ^ 24"
      by (simp only: power_add) simp
    moreover have "be_val hi < 2 ^ (64 - unat d) \<longleftrightarrow> unat (blk_Hash b) < 2 ^ (64 - unat d) * 256 ^ 24"
    proof
      assume "be_val hi < 2 ^ (64 - unat d)"
      then have "(be_val hi + 1) * 256 ^ 24 \<le> 2 ^ (64 - unat d) * 256 ^ 24"
        by (intro mult_right_mono) simp_all
      with lo show "unat (blk_Hash b) < 2 ^ (64 - unat d) * 256 ^ 24"
        by (simp only: h add_mult_distrib mult_1)
    next
      assume "unat (blk_Hash b) < 2 ^ (64 - unat d) * 256 ^ 24"
      then have "be_val hi * 256 ^ 24 < 2 ^ (64 - unat d) * 256 ^ 24"
        unfolding h by linarith
      then show "be_val hi < 2 ^ (64 - unat d)" by simp
    qed
    ultimately show ?thesis
      using False True by (simp add: v k flip: d_def)
  next
    case far: False
    then have "64 < unat d" by (simp add: word_le_nat_alt)
    have "unat d < 2 ^ 64"
      using unsigned_less [of d] by simp
    then have "64 \<le> unat (64 - d)"
      using far by (simp add: unat_sub_if' not_le word_less_nat_alt)
    then have z: "push_bit (unat (64 - d)) (1 :: u64) = 0"
      by (intro bit_word_eqI) (simp add: bit_simps)
    show ?thesis
      unfolding v z using False far by (simp flip: d_def)
  qed
qed

text \<open>
  C18. The proof of work the chain checks: below 21 nothing, from 21 to 64 that the claimed hash is
  below \<open>2 ^ (256 - d)\<close>, and above 64 no hash at all passes, because the shift count wraps.
\<close>

theorem ValidateProofOfWorkV2_iff:
  "ValidateProofOfWorkV2 b \<longleftrightarrow> bh_Difficulty (blk_Header b) \<le> 20 \<or>
     bh_Difficulty (blk_Header b) \<le> 64 \<and>
     unat (blk_Hash b) < 2 ^ (256 - unat (bh_Difficulty (blk_Header b)))"
  by (rule PoWV2_iff)

lemma successively_nth: "successively P xs \<Longrightarrow> Suc i < length xs \<Longrightarrow> P (xs ! i) (xs ! Suc i)"
proof (induction xs arbitrary: i rule: induct_list012)
  case (3 x y zs)
  then show ?case by (cases i) auto
qed simp_all

text \<open>
  C2. Every chain a node can reach from a fresh start begins with the genesis block, and each block
  either restarts the count at zero or extends the one before it: it names its hash, counts one
  further, is not older, and passes the proof of work. Best block, height and the recorded state
  are those of the last block.
\<close>

theorem reachable_chain_linked:
  assumes "reachable ps g st c" and "fresh_start ps st"
  shows "hd (ch_blocks c) = createGenesisBlockV2 g \<and>
    (Suc i < length (ch_blocks c) \<longrightarrow>
      (let a = ch_blocks c ! i; b = ch_blocks c ! Suc i in
       bh_Number (blk_Header b) = 0 \<or>
       bh_ParentHash (blk_Header b) = blk_Hash a \<and> bh_Number (blk_Header b) = bh_Number (blk_Header a) + 1 \<and>
       bh_Timestamp (blk_Header a) \<le> bh_Timestamp (blk_Header b) \<and> ValidateProofOfWorkV2 b)) \<and>
    GetBestBlock c = Some (last (ch_blocks c)) \<and> GetHeight c = bh_Number (blk_Header (last (ch_blocks c))) \<and>
    GetState (ch_stateManager c) ''height'' = Some (StateNumber (GetHeight c)) \<and>
    GetState (ch_stateManager c) ''bestBlock'' = Some (StateHash (blk_Hash (last (ch_blocks c))))"
  using reachable_inv [OF assms] successively_nth [of extends "ch_blocks c" i]
  by (simp add: chain_inv_def GetBestBlock_def GetHeight_def extends_def Let_def)

text \<open>
  C1. The incremental bookkeeping implements the ledger: in every reachable chain the unspent outputs
  are what replaying all blocks from the start yields, and a balance is the sum over that map.
\<close>

theorem reachable_ledger:
  assumes "reachable ps g st c" and "fresh_start ps st" and "range_order (ch_utxoSet c) ord"
  shows "unspent (ch_utxoSet c) = ledger_of (ch_blocks c) \<and>
    bc_GetBalance ord a c = coins_balance (ledger_of (ch_blocks c)) a"
  using reachable_inv [OF assms(1,2)] GetBalance_coins [of "ch_utxoSet c" ord a] assms(3)
  by (simp add: chain_inv_def bc_GetBalance_def)

lemma chain_numbers:
  assumes "successively extends bs" and "bs \<noteq> []" and "bh_Number (blk_Header (hd bs)) = 0"
    and "\<forall>b\<in>set (tl bs). bh_Number (blk_Header b) \<noteq> 0" and "i < length bs"
  shows "bh_Number (blk_Header (bs ! i)) = of_nat i"
  using assms(5)
proof (induction i)
  case 0
  with assms(2,3) show ?case by (simp add: hd_conv_nth)
next
  case (Suc i)
  have "bs ! Suc i = tl bs ! i" "i < length (tl bs)"
    using Suc.prems by (simp_all add: nth_tl)
  then have "bh_Number (blk_Header (bs ! Suc i)) \<noteq> 0"
    using assms(4) by (metis nth_mem)
  with successively_nth [OF assms(1) Suc.prems] Suc show ?case
    by (simp add: extends_def)
qed

text \<open>
  C34. As long as no second block claims number zero, the block at index \<open>i\<close> has number \<open>i\<close>, and the
  height is the number of blocks after the genesis block.
\<close>

theorem reachable_numbers:
  assumes "reachable ps g st c" and "fresh_start ps st"
    and "\<forall>b\<in>set (tl (ch_blocks c)). bh_Number (blk_Header b) \<noteq> 0"
  shows "(i < length (ch_blocks c) \<longrightarrow> bh_Number (blk_Header (ch_blocks c ! i)) = of_nat i) \<and>
    GetHeight c = of_nat (length (ch_blocks c) - 1)"
proof -
  note inv = reachable_inv [OF assms(1,2), unfolded chain_inv_def]
  have n: "bh_Number (blk_Header (ch_blocks c ! i)) = of_nat i" if "i < length (ch_blocks c)" for i
    using inv assms(3) that by (intro chain_numbers) simp_all
  moreover have "last (ch_blocks c) = ch_blocks c ! (length (ch_blocks c) - 1)"
    using inv by (simp add: last_conv_nth)
  ultimately show ?thesis
    using inv by (simp add: GetHeight_def)
qed

definition no_persister :: "(unit, string) persister" where
  "no_persister = \<lparr>ps_StoreBlock = (\<lambda>b s. (s, Inr ())), ps_GetBlockByNumber = (\<lambda>n s. Inl ''not found''),
     ps_GetBlockByHash = (\<lambda>h s. Inl ''not found''), ps_GetBestBlock = (\<lambda>s. Inl ''not found''),
     ps_GetBlockCount = (\<lambda>s. Inr 0), ps_Close = (\<lambda>s. (s, Inr ()))\<rparr>"

definition first_block :: block where
  "first_block = zero_block\<lparr>blk_Header := zero_header\<lparr>bh_ParentHash := blk_Hash (createGenesisBlockV2 testnet_genesis),
     bh_Number := 1, bh_Timestamp := 1700000000 * 1000000000, bh_Difficulty := 20, bh_Miner := 99\<rparr>,
     blk_Txs := [createBlockRewardTransaction 1700000000000000000 99 5000000], blk_Hash := 42\<rparr>"

definition short_chain :: "unit chain" where
  "short_chain = fst (addBlockV2 no_persister first_block (NewBlockchainV2 no_persister testnet_genesis None))"

lemma reachable_short_chain: "reachable no_persister testnet_genesis None short_chain"
  unfolding short_chain_def by (rule stepped [OF started offer_block])

lemma fresh_None [simp]: "fresh_start ps None"
  by (simp add: fresh_start_def)

lemma short_chain_steps:
  "validateBlockV2 (createGenesisBlockV2 testnet_genesis) (empty_chain testnet_genesis None :: unit chain) = Inr ()"
  "validateBlockV2 first_block
     (fst (addBlockV2 ps (createGenesisBlockV2 testnet_genesis) (empty_chain testnet_genesis None :: unit chain))) = Inr ()"
proof -
  show v: "validateBlockV2 (createGenesisBlockV2 testnet_genesis) (empty_chain testnet_genesis None :: unit chain) = Inr ()"
    by (simp add: validateBlockV2_genesis)
  have "extends (createGenesisBlockV2 testnet_genesis) first_block"
    by (simp add: extends_def first_block_def createGenesisBlockV2_def zero_header_def Let_def ValidateProofOfWorkV2_def)
  then show "validateBlockV2 first_block
     (fst (addBlockV2 ps (createGenesisBlockV2 testnet_genesis) (empty_chain testnet_genesis None :: unit chain))) = Inr ()"
    by (subst validateBlockV2_iff [where a = "createGenesisBlockV2 testnet_genesis"])
      (simp_all add: addBlockV2_accepts [OF v])
qed

lemmas short_chain_simps = short_chain_def NewBlockchainV2_fresh addBlockV2_accepts [OF short_chain_steps(1)]
  addBlockV2_accepts [OF short_chain_steps(2)]

lemma ch_blocks_short_chain: "ch_blocks short_chain = [createGenesisBlockV2 testnet_genesis, first_block]"
  by (simp add: short_chain_simps)

theorem reachable_chain_linked_witness:
  "bh_ParentHash (blk_Header (ch_blocks short_chain ! 1)) = blk_Hash (ch_blocks short_chain ! 0) \<and>
   GetHeight short_chain = 1 \<and> GetBestBlock short_chain = Some first_block"
  using reachable_chain_linked [OF reachable_short_chain fresh_None, of 0]
  by (simp add: ch_blocks_short_chain Let_def) (simp add: first_block_def)

theorem reachable_numbers_witness:
  "bh_Number (blk_Header (ch_blocks short_chain ! 1)) = 1 \<and> GetHeight short_chain = 1"
  using reachable_numbers [OF reachable_short_chain fresh_None, of 1]
  by (simp add: ch_blocks_short_chain first_block_def)


lemma ch_utxoSet_short_chain:
  "ch_utxoSet short_chain =
     AddUTXO (tx_Hash (createBlockRewardTransaction 1700000000000000000 99 5000000)) 0 5000000 99 42 NewUTXOSet"
  by (simp add: short_chain_simps)
    (simp add: createGenesisBlockV2_def first_block_def Let_def processTransactionUTXOs_def createBlockRewardTransaction_def)

theorem reachable_ledger_witness:
  "bc_GetBalance [getKey (tx_Hash (createBlockRewardTransaction 1700000000000000000 99 5000000)) 0] 99 short_chain
     = 5000000 \<and> coins_balance (ledger_of (ch_blocks short_chain)) 99 = 5000000"
proof -
  let ?k = "getKey (tx_Hash (createBlockRewardTransaction 1700000000000000000 99 5000000)) 0"
  have "range_order (ch_utxoSet short_chain) [?k]"
    by (simp add: range_order_def ch_utxoSet_short_chain AddUTXO_def NewUTXOSet_def)
  moreover have "bc_GetBalance [?k] 99 short_chain = 5000000"
    by (simp add: bc_GetBalance_def GetBalance_def GetUTXOs_def sum_amounts_def ch_utxoSet_short_chain
        AddUTXO_def NewUTXOSet_def)
  ultimately show ?thesis
    using reachable_ledger [OF reachable_short_chain fresh_None, of "[?k]" 99] by simp
qed

end
