(* ===== verification/Transfers.thy ===== *)
theory Transfers
  imports Blockchain
begin

text \<open>
  What adding a block does to coins and balances: what the acceptance of a block leaves unchecked,
  the value a created transaction moves, and where the arithmetic and the hashes of transfers fail.
\<close>

subsection \<open>What acceptance does not look at\<close>

text \<open>
  The decision to add a block depends on number, parent hash, time, difficulty and the claimed
  hash alone. Transactions, Merkle root, counts, miner, nonce and fees are not checked, so that any
  body passes under an accepted header.
\<close>

theorem AddBlockV2_ignores_body:
  "snd (AddBlockV2 ps (b\<lparr>blk_Header := (blk_Header b)\<lparr>bh_Miner := miner, bh_Nonce := nonce, bh_MerkleRoot := mroot,
       bh_TxCount := n, bh_NetworkFee := nfee, bh_TreasuryFee := tfee\<rparr>, blk_Txs := txs\<rparr>) c) =
   snd (AddBlockV2 ps b c)"
  by (cases "ch_bestBlock c")
    (simp_all add: AddBlockV2_def snd_addBlockV2 validateBlockV2_def ValidateProofOfWorkV2_def cong: if_cong)

definition mint_block :: "block \<Rightarrow> gotime \<Rightarrow> address \<Rightarrow> u64 \<Rightarrow> hash \<Rightarrow> block" where
  "mint_block parent now miner amount h =
     zero_block\<lparr>blk_Header := zero_header\<lparr>bh_ParentHash := blk_Hash parent, bh_Number := bh_Number (blk_Header parent) + 1,
       bh_Timestamp := bh_Timestamp (blk_Header parent), bh_Difficulty := 20\<rparr>,
     blk_Txs := [createBlockRewardTransaction now miner amount], blk_Hash := h\<rparr>"

lemma extends_mint_block: "extends p (mint_block p now miner amount h)"
  by (simp add: extends_def mint_block_def zero_header_def ValidateProofOfWorkV2_def)

lemma extends_body: "extends p (b\<lparr>blk_Txs := txs\<rparr>) \<longleftrightarrow> extends p b"
  by (simp add: extends_def PoWV2_iff)

text \<open>
  The supply has no bound: on top of any chain a block that claims difficulty 20 and pays its
  miner any amount is accepted without work, and the coin is spendable.
\<close>

theorem AddBlockV2_mints_any_amount:
  assumes "ch_bestBlock c = Some p"
  shows "snd (AddBlockV2 ps (mint_block p now miner amount h) c) = Inr () \<and>
    unspent (ch_utxoSet (fst (AddBlockV2 ps (mint_block p now miner amount h) c)))
      (tx_Hash (createBlockRewardTransaction now miner amount), 0) = Some (amount, miner, h)"
proof -
  have v: "validateBlockV2 (mint_block p now miner amount h) c = Inr ()"
    using assms extends_mint_block by (simp add: validateBlockV2_iff)
  have "unspent (ch_utxoSet (fst (AddBlockV2 ps (mint_block p now miner amount h) c))) =
      ledger_tx h (createBlockRewardTransaction now miner amount) (unspent (ch_utxoSet c))"
    by (simp add: AddBlockV2_def addBlockV2_accepts [OF v] unspent_process_stored_txs)
      (simp add: mint_block_def)
  then show ?thesis
    using v by (simp add: AddBlockV2_def snd_addBlockV2 ledger_tx_def created_coins_def
        createBlockRewardTransaction_def Let_def)
qed

theorem AddBlockV2_mints_any_amount_witness:
  "snd (AddBlockV2 no_persister (mint_block first_block 0 5 (2 ^ 64 - 1) 7) short_chain) = Inr ()"
  using AddBlockV2_mints_any_amount [of short_chain first_block no_persister 0 5 "2 ^ 64 - 1" 7]
  by (simp add: short_chain_simps)

text \<open>
  A block numbered zero is accepted whatever the chain, and sends the height back to zero.
\<close>

theorem AddBlockV2_accepts_number_zero:
  assumes "bh_Number (blk_Header b) = 0"
  shows "snd (AddBlockV2 ps b c) = Inr () \<and> GetHeight (fst (AddBlockV2 ps b c)) = 0 \<and>
    ch_blocks (fst (AddBlockV2 ps b c)) = ch_blocks c @ [b]"
  using validateBlockV2_genesis [OF assms, of c]
  by (simp add: AddBlockV2_def snd_addBlockV2 addBlockV2_accepts GetHeight_def assms)

theorem AddBlockV2_accepts_number_zero_witness:
  "GetHeight (fst (AddBlockV2 no_persister zero_block short_chain)) = 0 \<and> GetHeight short_chain = 1"
proof -
  have "bh_Number (blk_Header zero_block) = 0"
    by (simp add: zero_block_def zero_header_def)
  moreover have "GetHeight short_chain = 1"
    by (simp add: GetHeight_def short_chain_simps) (simp add: first_block_def)
  ultimately show ?thesis
    using AddBlockV2_accepts_number_zero by blast
qed

subsection \<open>Transfers\<close>

definition utxo_point :: "utxo \<Rightarrow> outpoint" where
  "utxo_point u = (u_TxHash u, u_Index u)"

definition utxo_input :: "utxo \<Rightarrow> tx_input" where
  "utxo_input u = \<lparr>in_PreviousTxHash = u_TxHash u, in_Index = u_Index u, in_Signature = []\<rparr>"

lemma select_inputs_prefix:
  "\<exists>k. select_inputs need us (ins, t) =
     (ins @ map utxo_input (take k us), t + sum_list (map u_Amount (take k us)))"
proof (induction us arbitrary: ins t)
  case Nil
  show ?case by simp
next
  case (Cons u us)
  show ?case
  proof (cases "need \<le> t")
    case True
    then show ?thesis by (intro exI [of _ 0]) simp
  next
    case False
    obtain k where k: "select_inputs need us (ins @ [utxo_input u], t + u_Amount u) =
        ((ins @ [utxo_input u]) @ map utxo_input (take k us),
         t + u_Amount u + sum_list (map u_Amount (take k us)))"
      using Cons by blast
    from False k show ?thesis
      by (intro exI [of _ "Suc k"]) (simp add: utxo_input_def add.assoc)
  qed
qed

lemma select_inputs_covers:
  assumes "need \<le> t + sum_list (map u_Amount us)"
  shows "need \<le> snd (select_inputs need us (ins, t))"
  using assms
proof (induction us arbitrary: ins t)
  case (Cons u us)
  then show ?case by (simp add: add.assoc)
qed simp

lemma CreateTransaction_shape:
  assumes "CreateTransaction ord now from to amount fee c = Inr tx"
  obtains k change where
    "tx_Inputs tx = map utxo_input (take k (GetUTXOs ord from (ch_utxoSet c)))"
    "change = sum_list (map u_Amount (take k (GetUTXOs ord from (ch_utxoSet c)))) - amount - fee"
    "tx_Outputs tx = \<lparr>out_Address = to, out_Amount = amount\<rparr> #
       (if 0 < change then [\<lparr>out_Address = from, out_Amount = change\<rparr>] else [])"
    "tx_From tx = from" "tx_To tx = to" "tx_Amount tx = amount" "tx_Fee tx = fee" "tx_Nonce tx = 0"
    "tx_GasUsed tx = 0" "tx_GasPrice tx = 0" "tx_Data tx = []" "tx_Timestamp tx = now"
    "tx_Hash tx = Tx_CalculateHash tx"
    "amount + fee \<le> sum_list (map u_Amount (take k (GetUTXOs ord from (ch_utxoSet c))))"
proof -
  obtain k where k: "select_inputs (amount + fee) (GetUTXOs ord from (ch_utxoSet c)) ([], 0) =
      (map utxo_input (take k (GetUTXOs ord from (ch_utxoSet c))),
       sum_list (map u_Amount (take k (GetUTXOs ord from (ch_utxoSet c)))))"
    using select_inputs_prefix [of "amount + fee" "GetUTXOs ord from (ch_utxoSet c)" "[]" 0] by auto
  have "amount + fee \<le> sum_list (map u_Amount (GetUTXOs ord from (ch_utxoSet c)))"
    using assms by (auto simp: CreateTransaction_def Let_def sum_amounts_eq not_less split: if_splits)
  then have "amount + fee \<le> sum_list (map u_Amount (take k (GetUTXOs ord from (ch_utxoSet c))))"
    using select_inputs_covers [of "amount + fee" 0 "GetUTXOs ord from (ch_utxoSet c)" "[]"] by (simp add: k)
  with k assms show thesis
    by (intro that [of k "sum_list (map u_Amount (take k (GetUTXOs ord from (ch_utxoSet c)))) - amount - fee"])
      (auto simp: CreateTransaction_def Let_def Tx_CalculateHash_def tx_preimage_def not_less split: if_splits)
qed


lemma GetUTXOs_unspent:
  assumes "utxo_wf us" and "u \<in> set (GetUTXOs ord a us)"
  shows "unspent us (utxo_point u) = Some (u_Amount u, a, u_BlockHash u)"
proof -
  obtain k where "us k = Some u" "u_Address u = a" "\<not> u_Spent u"
    using assms(2) by (auto simp: GetUTXOs_def range_vals_def map_filter_def)
  with utxo_wfD [OF assms(1)] show ?thesis
    by (auto simp: utxo_point_def)
qed

lemma distinct_GetUTXOs:
  assumes "utxo_wf us" and "range_order us ord"
  shows "distinct (map utxo_point (GetUTXOs ord a us))"
proof -
  have key: "us k = Some u \<Longrightarrow> k = getKey (u_TxHash u) (u_Index u)" for k u
    by (rule utxo_wfD [OF assms(1)])
  have "distinct (range_vals us ord)"
    using range_order_distinct [OF assms(2)] key by (rule distinct_range_vals)
  moreover have "inj_on utxo_point (set (range_vals us ord))"
  proof (rule inj_onI)
    fix u v
    assume "u \<in> set (range_vals us ord)" "v \<in> set (range_vals us ord)" "utxo_point u = utxo_point v"
    then obtain j k where "us j = Some u" "us k = Some v"
      by (auto simp: range_vals_def map_filter_def)
    moreover from this have "j = k"
      using key [of j u] key [of k v] \<open>utxo_point u = utxo_point v\<close> by (simp add: utxo_point_def)
    ultimately show "u = v" by simp
  qed
  ultimately have "distinct (map utxo_point (range_vals us ord))"
    by (simp add: distinct_map)
  then show ?thesis
    by (simp add: GetUTXOs_def distinct_map_filter)
qed

lemma spent_points_inputs: "tx_Inputs tx = map utxo_input us \<Longrightarrow> spent_points tx = map utxo_point us"
  by (simp add: spent_points_def utxo_input_def utxo_point_def o_def)

lemma coins_balance_restrict:
  assumes "finite (dom m)" and "distinct ps"
  shows "coins_balance (m |` (- set ps)) a = coins_balance m a - sum_list (map (\<lambda>p. coin_for a (m p)) ps)"
  using assms(2)
proof (induction ps)
  case Nil
  show ?case by simp
next
  case (Cons p ps)
  have "m |` (- set (p # ps)) = (m |` (- set ps))(p := None)"
    by (auto simp: restrict_map_def)
  moreover have "(m |` (- set ps)) p = m p"
    using Cons.prems by simp
  moreover have "finite (dom (m |` (- set ps)))"
    using assms(1) by (simp add: dom_restrict)
  ultimately show ?case
    using Cons coins_balance_remove [of "m |` (- set ps)" p a] by simp
qed

lemma created_coins_transfer:
  assumes "tx_Outputs tx = \<lparr>out_Address = to, out_Amount = amount\<rparr> #
      (if 0 < change then [\<lparr>out_Address = from, out_Amount = change\<rparr>] else [])"
  shows "map_of (rev (created_coins tx b)) =
    (let m = [(tx_Hash tx, 0) \<mapsto> (amount, to, b)]
     in if 0 < change then m((tx_Hash tx, 1) \<mapsto> (change, from, b)) else m)"
  using assms by (auto simp: created_coins_def Let_def fun_eq_iff)

lemma balance_after_transfer:
  assumes tx: "CreateTransaction ord now from to amount fee c = Inr tx"
    and wf: "utxo_wf (ch_utxoSet c)" and ord: "range_order (ch_utxoSet c) ord"
    and fresh: "\<And>i. unspent (ch_utxoSet c) (tx_Hash tx, i) = None"
  shows "coins_balance (ledger_tx b tx (unspent (ch_utxoSet c))) a =
    coins_balance (unspent (ch_utxoSet c)) a + (if a = to then amount else 0) - (if a = from then amount + fee else 0)"
proof -
  define m where "m = unspent (ch_utxoSet c)"
  obtain k change where ins: "tx_Inputs tx = map utxo_input (take k (GetUTXOs ord from (ch_utxoSet c)))"
    and change: "change = sum_list (map u_Amount (take k (GetUTXOs ord from (ch_utxoSet c)))) - amount - fee"
    and outs: "tx_Outputs tx = \<lparr>out_Address = to, out_Amount = amount\<rparr> #
       (if 0 < change then [\<lparr>out_Address = from, out_Amount = change\<rparr>] else [])"
    by (rule CreateTransaction_shape [OF tx])
  define us where "us = take k (GetUTXOs ord from (ch_utxoSet c))"
  have fin: "finite (dom m)"
    unfolding m_def by (rule finite_unspent [OF wf])
  have "distinct (map utxo_point us)"
    using distinct_GetUTXOs [OF wf ord, of "from"] by (simp add: us_def take_map [symmetric])
  moreover have "coin_for a (m (utxo_point u)) = (if a = from then u_Amount u else 0)" if "u \<in> set us" for u
    using GetUTXOs_unspent [OF wf, of u ord "from"] that by (auto simp: us_def m_def coin_for_def dest: in_set_takeD)
  then have "sum_list (map (\<lambda>p. coin_for a (m p)) (map utxo_point us)) =
      (if a = from then sum_list (map u_Amount us) else 0)"
    by (simp add: o_def cong: map_cong)
  ultimately have r: "coins_balance (m |` (- set (spent_points tx))) a =
      coins_balance m a - (if a = from then amount + fee + change else 0)"
    using coins_balance_restrict [OF fin, of "map utxo_point us" a] spent_points_inputs [OF ins]
    by (simp add: us_def [symmetric] change)
  let ?r = "m |` (- set (spent_points tx))"
  have none: "?r (tx_Hash tx, i) = None" for i
    using fresh [of i] by (simp add: m_def restrict_map_def)
  have finr: "finite (dom ?r)" "finite (dom (?r((tx_Hash tx, 0) \<mapsto> (amount, to, b))))"
    using fin by (simp_all add: dom_restrict)
  have led: "ledger_tx b tx m =
      (if 0 < change then ?r((tx_Hash tx, 0) \<mapsto> (amount, to, b), (tx_Hash tx, 1) \<mapsto> (change, from, b))
       else ?r((tx_Hash tx, 0) \<mapsto> (amount, to, b)))"
    by (simp add: ledger_tx_def created_coins_transfer [OF outs] Let_def)
  have "coins_balance (ledger_tx b tx m) a =
      coins_balance ?r a + (if a = to then amount else 0) + (if a = from then change else 0)"
    using finr none
    by (auto simp: led coins_balance_add coin_for_def word_gt_0)
  with r show ?thesis
    by (auto simp: m_def algebra_simps split: if_splits)
qed


lemma unat_sum_list_words:
  "sum_list (map unat ws) < 2 ^ 64 \<Longrightarrow> unat (sum_list (ws :: u64 list)) = sum_list (map unat ws)"
proof (induction ws)
  case (Cons w ws)
  then show ?case by (simp add: unat_add_small)
qed simp

lemma sum_list_take_le: "sum_list (take k xs) \<le> sum_list (xs :: nat list)"
proof -
  have "sum_list xs = sum_list (take k xs) + sum_list (drop k xs)"
    by (metis append_take_drop_id sum_list_append)
  then show ?thesis by simp
qed


text \<open>
  C11. A created transaction conserves value: if the sums involved fit 64 bits, it spends distinct
  unspent outputs of the sender whose amounts are exactly its outputs plus the fee.
\<close>

theorem CreateTransaction_conserves:
  assumes tx: "CreateTransaction ord now from to amount fee c = Inr tx"
    and wf: "utxo_wf (ch_utxoSet c)" and ord: "range_order (ch_utxoSet c) ord"
    and need: "unat amount + unat fee < 2 ^ 64"
    and have_sum: "sum_list (map (\<lambda>u. unat (u_Amount u)) (GetUTXOs ord from (ch_utxoSet c))) < 2 ^ 64"
  shows "distinct (spent_points tx) \<and>
    (\<forall>p\<in>set (spent_points tx). \<exists>amt b. unspent (ch_utxoSet c) p = Some (amt, from, b)) \<and>
    sum_list (map (\<lambda>p. unat (fst (the (unspent (ch_utxoSet c) p)))) (spent_points tx)) =
      sum_list (map (\<lambda>out. unat (out_Amount out)) (tx_Outputs tx)) + unat fee"
proof -
  obtain k change where ins: "tx_Inputs tx = map utxo_input (take k (GetUTXOs ord from (ch_utxoSet c)))"
    and change: "change = sum_list (map u_Amount (take k (GetUTXOs ord from (ch_utxoSet c)))) - amount - fee"
    and outs: "tx_Outputs tx = \<lparr>out_Address = to, out_Amount = amount\<rparr> #
       (if 0 < change then [\<lparr>out_Address = from, out_Amount = change\<rparr>] else [])"
    and covers: "amount + fee \<le> sum_list (map u_Amount (take k (GetUTXOs ord from (ch_utxoSet c))))"
    by (rule CreateTransaction_shape [OF tx])
  define us where "us = take k (GetUTXOs ord from (ch_utxoSet c))"
  have points: "spent_points tx = map utxo_point us"
    using spent_points_inputs [OF ins] by (simp add: us_def)
  have coins: "unspent (ch_utxoSet c) (utxo_point u) = Some (u_Amount u, from, u_BlockHash u)" if "u \<in> set us" for u
    using GetUTXOs_unspent [OF wf] that by (auto simp: us_def dest: in_set_takeD)
  define S where "S = sum_list (map (\<lambda>u. unat (u_Amount u)) us)"
  have "S < 2 ^ 64"
    using sum_list_take_le [of k "map (\<lambda>u. unat (u_Amount u)) (GetUTXOs ord from (ch_utxoSet c))"] have_sum
    by (simp add: S_def us_def take_map)
  then have S: "unat (sum_list (map u_Amount us)) = S"
    using unat_sum_list_words [of "map u_Amount us"] by (simp add: S_def o_def)
  have need': "unat (amount + fee) = unat amount + unat fee"
    using need by (rule unat_add_small)
  with covers S have "unat amount + unat fee \<le> S"
    by (simp add: us_def [symmetric] word_le_nat_alt)
  moreover have "change = sum_list (map u_Amount us) - (amount + fee)"
    by (simp add: change us_def)
  ultimately have "unat change = S - (unat amount + unat fee)"
    using need' S by (simp add: unat_sub_le)
  moreover have "sum_list (map (\<lambda>out. unat (out_Amount out)) (tx_Outputs tx)) = unat amount + unat change"
    by (simp add: outs word_gt_0)
  moreover have "sum_list (map (\<lambda>p. unat (fst (the (unspent (ch_utxoSet c) p)))) (spent_points tx)) = S"
    by (simp add: points S_def o_def coins cong: map_cong)
  moreover have "distinct (spent_points tx)"
    using distinct_GetUTXOs [OF wf ord, of "from"] by (simp add: points us_def take_map [symmetric])
  moreover have "\<forall>p\<in>set (spent_points tx). \<exists>amt b. unspent (ch_utxoSet c) p = Some (amt, from, b)"
    using coins by (auto simp: points)
  ultimately show ?thesis
    using \<open>unat amount + unat fee \<le> S\<close> by simp
qed

text \<open>
  The check of the balance wraps: with a fee that complements the amount to \<open>2 ^ 64\<close>, an address
  without a single coin creates a transaction that pays that amount and spends nothing.
\<close>

theorem CreateTransaction_overflow:
  assumes "fee \<noteq> 0"
  shows "\<exists>tx. CreateTransaction ord now from to (- fee) fee c = Inr tx \<and> tx_Inputs tx = [] \<and>
    tx_Outputs tx = [\<lparr>out_Address = to, out_Amount = - fee\<rparr>]"
proof -
  have "select_inputs 0 us ([], 0) = ([], 0)" for us
    by (cases us) simp_all
  then show ?thesis
    by (simp add: CreateTransaction_def Let_def)
qed

theorem CreateTransaction_overflow_witness:
  "\<exists>tx. CreateTransaction [] 0 3 4 (- 1) 1 (empty_chain testnet_genesis None :: unit chain) = Inr tx \<and>
     tx_Inputs tx = [] \<and> tx_Outputs tx = [\<lparr>out_Address = 4, out_Amount = - 1\<rparr>]"
  using CreateTransaction_overflow [of 1 "[]" 0 3 4 "empty_chain testnet_genesis None :: unit chain"] by simp

text \<open>
  Two transfers between the same parties of the same amount and fee have the same hash, whenever
  they are made and whatever they spend: in a ledger the outputs of the second replace those of the
  first.
\<close>

theorem repeated_transfer_same_hash:
  assumes "CreateTransaction ord now from to amount fee c = Inr tx"
    and "CreateTransaction ord' now' from to amount fee c' = Inr tx'"
  shows "tx_Hash tx = tx_Hash tx' \<and>
    ledger_tx b' tx' (ledger_tx b tx m) (tx_Hash tx, 0) = Some (amount, to, b')"
proof -
  obtain k change where t: "tx_Outputs tx = \<lparr>out_Address = to, out_Amount = amount\<rparr> #
       (if 0 < change then [\<lparr>out_Address = from, out_Amount = change\<rparr>] else [])"
    "tx_From tx = from" "tx_To tx = to" "tx_Amount tx = amount" "tx_Fee tx = fee" "tx_Nonce tx = 0"
    "tx_GasUsed tx = 0" "tx_GasPrice tx = 0" "tx_Data tx = []" "tx_Hash tx = Tx_CalculateHash tx"
    by (rule CreateTransaction_shape [OF assms(1)])
  obtain k' change' where t': "tx_Outputs tx' = \<lparr>out_Address = to, out_Amount = amount\<rparr> #
       (if 0 < change' then [\<lparr>out_Address = from, out_Amount = change'\<rparr>] else [])"
    "tx_From tx' = from" "tx_To tx' = to" "tx_Amount tx' = amount" "tx_Fee tx' = fee" "tx_Nonce tx' = 0"
    "tx_GasUsed tx' = 0" "tx_GasPrice tx' = 0" "tx_Data tx' = []" "tx_Hash tx' = Tx_CalculateHash tx'"
    by (rule CreateTransaction_shape [OF assms(2)])
  have "tx_Hash tx = tx_Hash tx'"
    using t(2-) t'(2-) by (simp add: Tx_CalculateHash_def tx_preimage_def)
  then show ?thesis
    by (simp add: ledger_tx_def created_coins_transfer [OF t'(1)] Let_def map_add_Some_iff)
qed

subsection \<open>A transfer on a small chain\<close>

text \<open>A chain with one coin, of address 99, under a hash other than that of the transfer.\<close>

definition transfer_99 :: "hash \<Rightarrow> gotime \<Rightarrow> transaction" where
  "transfer_99 h now = (let tx = zero_tx\<lparr>tx_From := 99, tx_To := 7, tx_Amount := 1000, tx_Fee := 10,
     tx_Inputs := [\<lparr>in_PreviousTxHash = h, in_Index = 0, in_Signature = []\<rparr>],
     tx_Outputs := [\<lparr>out_Address = 7, out_Amount = 1000\<rparr>, \<lparr>out_Address = 99, out_Amount = 4998990\<rparr>],
     tx_Timestamp := now\<rparr> in tx\<lparr>tx_Hash := Tx_CalculateHash tx\<rparr>)"

definition coin_hash :: hash where
  "coin_hash = tx_Hash (transfer_99 0 0) + 1"

definition funded_chain :: "unit chain" where
  "funded_chain = (empty_chain testnet_genesis None)\<lparr>ch_bestBlock := Some first_block,
     ch_utxoSet := AddUTXO coin_hash 0 5000000 99 42 NewUTXOSet\<rparr>"

lemma tx_Hash_transfer_99: "tx_Hash (transfer_99 h now) = tx_Hash (transfer_99 0 0)"
  by (simp add: transfer_99_def Let_def Tx_CalculateHash_def tx_preimage_def)

lemma funded_chain_utxos:
  "utxo_wf (ch_utxoSet funded_chain)" "range_order (ch_utxoSet funded_chain) [getKey coin_hash 0]"
  "GetUTXOs [getKey coin_hash 0] 99 (ch_utxoSet funded_chain) =
     [\<lparr>u_TxHash = coin_hash, u_Index = 0, u_Amount = 5000000, u_Address = 99, u_Spent = False, u_BlockHash = 42\<rparr>]"
proof -
  show "utxo_wf (ch_utxoSet funded_chain)"
    by (simp add: funded_chain_def wf_intros)
qed (simp_all add: funded_chain_def range_order_def AddUTXO_def NewUTXOSet_def GetUTXOs_def)

lemma CreateTransaction_funded_chain:
  "CreateTransaction [getKey coin_hash 0] now 99 7 1000 10 funded_chain = Inr (transfer_99 coin_hash now)"
  by (simp add: CreateTransaction_def funded_chain_utxos Let_def sum_amounts_def transfer_99_def zero_tx_def
      Tx_CalculateHash_def tx_preimage_def)

theorem CreateTransaction_conserves_witness:
  "sum_list (map (\<lambda>p. unat (fst (the (unspent (ch_utxoSet funded_chain) p)))) (spent_points (transfer_99 coin_hash 0)))
     = 5000000 \<and>
   sum_list (map (\<lambda>out. unat (out_Amount out)) (tx_Outputs (transfer_99 coin_hash 0))) = 4999990"
  using CreateTransaction_conserves [OF CreateTransaction_funded_chain [of 0] funded_chain_utxos(1,2)]
  by (simp add: funded_chain_utxos) (simp add: transfer_99_def Let_def)

theorem repeated_transfer_same_hash_witness:
  "tx_Hash (transfer_99 coin_hash 0) = tx_Hash (transfer_99 coin_hash 1)"
  using repeated_transfer_same_hash [OF CreateTransaction_funded_chain CreateTransaction_funded_chain] by simp

definition transfer_block :: "block" where
  "transfer_block = (mint_block first_block 0 0 0 43)\<lparr>blk_Txs := [transfer_99 coin_hash 0]\<rparr>"

lemma transfer_block_accepted: "validateBlockV2 transfer_block funded_chain = Inr ()"
proof -
  have "extends first_block transfer_block"
    by (simp add: transfer_block_def extends_body extends_mint_block)
  then show ?thesis
    by (simp add: validateBlockV2_iff funded_chain_def)
qed

lemma after_transfer_utxos:
  "ch_utxoSet (fst (AddBlockV2 no_persister transfer_block funded_chain)) =
   processTransactionUTXOs (transfer_99 coin_hash 0) 43 (ch_utxoSet funded_chain)"
  by (simp add: AddBlockV2_def addBlockV2_accepts [OF transfer_block_accepted])
    (simp add: transfer_block_def mint_block_def)

lemma transfer_99_fields:
  "tx_Inputs (transfer_99 h now) = [\<lparr>in_PreviousTxHash = h, in_Index = 0, in_Signature = []\<rparr>]"
  "tx_Outputs (transfer_99 h now) = [\<lparr>out_Address = 7, out_Amount = 1000\<rparr>, \<lparr>out_Address = 99, out_Amount = 4998990\<rparr>]"
  by (simp_all add: transfer_99_def Let_def)

end
