(* ===== verification/Templates.thy ===== *)
theory Templates
  imports Blockchain
begin

text \<open>
  Block templates and rewards of \<^verbatim>\<open>core/blockchain.go\<close>, the list of recent blocks, and the difficulty
  adjustment that averages block times.
\<close>

subsection \<open>Recent blocks\<close>

lemma recent_loop_eq:
  assumes "n \<le> length bs" and "0 < limit"
    and "start = max 0 (int (length bs) - limit)" and "length result = length bs - n" and "start \<le> int n"
    and "int (length result) < limit \<or> n = 0"
  shows "recent_loop bs start limit n result = result @ rev (drop (nat start) (take n bs))"
  using assms
proof (induction n arbitrary: result)
  case 0
  then show ?case by simp
next
  case (Suc n)
  show ?case
  proof (cases "start \<le> int n")
    case False
    with Suc.prems have "nat start = Suc n" by linarith
    with False show ?thesis by simp
  next
    case True
    have n: "n < length bs" using Suc.prems by simp
    have d: "drop (nat start) (take (Suc n) bs) = drop (nat start) (take n bs) @ [bs ! n]"
      using True n by (simp add: take_Suc_conv_app_nth)
    show ?thesis
    proof (cases "limit \<le> int (length result) + 1")
      case True
      then have "int (length bs) - limit = int n"
        using Suc.prems by linarith
      then have "nat start = n" using Suc.prems(3) by simp
      then show ?thesis using True d Suc.prems \<open>start \<le> int n\<close> by (simp add: Let_def)
    next
      case False
      have "recent_loop bs start limit n (result @ [bs ! n]) =
          (result @ [bs ! n]) @ rev (drop (nat start) (take n bs))"
        using Suc.prems n True False by (intro Suc.IH) auto
      then show ?thesis using True False d by (simp add: Let_def)
    qed
  qed
qed

text \<open>
  For a non-negative limit the recent blocks are the last \<open>limit\<close> blocks, newest first; a
  negative one makes the allocation panic on any chain that has a block.
\<close>

theorem GetRecentBlocks_newest_first:
  "GetRecentBlocks limit c =
     (if ch_blocks c = [] then Inr []
      else if limit < 0 then Inl MakeSliceRange
      else Inr (take (nat limit) (rev (ch_blocks c))))"
proof (cases "ch_blocks c = [] \<or> limit < 0")
  case True
  then show ?thesis by (auto simp: GetRecentBlocks_def)
next
  case False
  let ?bs = "ch_blocks c"
  define start where "start = max 0 (int (length ?bs) - limit)"
  have start: "(if int (length ?bs) - limit < 0 then 0 else int (length ?bs) - limit) = start"
    by (simp add: start_def)
  have "recent_loop ?bs start limit (length ?bs) [] = take (nat limit) (rev ?bs)"
  proof (cases "limit = 0")
    case True
    then have "start = int (length ?bs)" by (simp add: start_def)
    with True show ?thesis by (cases ?bs rule: rev_cases) (auto simp: Let_def)
  next
    case pos: False
    then have "recent_loop ?bs start limit (length ?bs) [] = [] @ rev (drop (nat start) (take (length ?bs) ?bs))"
      using False by (intro recent_loop_eq) (auto simp: start_def)
    moreover have "nat start = length ?bs - nat limit"
      using False by (auto simp: start_def max_def nat_diff_distrib)
    ultimately show ?thesis
      by (cases "nat limit \<le> length ?bs") (simp_all add: rev_drop)
  qed
  then show ?thesis
    unfolding GetRecentBlocks_def Let_def start using False by simp
qed

subsection \<open>Templates\<close>

lemma CreateNewBlockV2_shape:
  assumes "CreateNewBlockV2 pl ord t1 t2 miner txs c = Inr (Some b)" and "ch_bestBlock c = Some p"
  obtains d where
    "CalculateDifficulty pl (ch_genesis c) (bh_Number (blk_Header p) + 1) (Some p) = Inr d"
    "blk_Txs b = createBlockRewardTransaction t1 miner (calculateBlockReward pl (bh_Number (blk_Header p) + 1) c)
       # txs @ GetPendingTransactions ord (ch_mempool c)"
    "blk_Header b = \<lparr>bh_ParentHash = blk_Hash p, bh_Number = bh_Number (blk_Header p) + 1,
       bh_Timestamp = t2, bh_Difficulty = d, bh_Miner = miner, bh_Nonce = 0,
       bh_MerkleRoot = 0, bh_TxCount = of_nat (length (blk_Txs b)), bh_NetworkFee = 0, bh_TreasuryFee = 0\<rparr>"
    "blk_Hash b = Block_CalculateHash b"
  using assms
  by (auto simp: CreateNewBlockV2_def Let_def Block_CalculateHash_def split: sum.splits)

text \<open>
  A template is a valid block up to its work: on an unchanged chain it is accepted with whatever
  nonce and hash the miner fills in, if the clock has not gone back, the count does not overflow and
  the hash passes the proof of work at the template's difficulty.
\<close>

theorem template_accepted:
  assumes "CreateNewBlockV2 pl ord t1 t2 miner txs c = Inr (Some b)"
    and "GetBestBlock c = Some p" and "bh_Timestamp (blk_Header p) \<le> t2"
    and "b' = b\<lparr>blk_Header := (blk_Header b)\<lparr>bh_Nonce := nonce\<rparr>, blk_Hash := h\<rparr>"
    and "ValidateProofOfWorkV2 b'"
  shows "snd (AddBlockV2 ps b' c) = Inr ()"
proof -
  have p: "ch_bestBlock c = Some p" using assms(2) by (simp add: GetBestBlock_def)
  obtain d where "blk_Header b = \<lparr>bh_ParentHash = blk_Hash p, bh_Number = bh_Number (blk_Header p) + 1,
       bh_Timestamp = t2, bh_Difficulty = d, bh_Miner = miner, bh_Nonce = 0,
       bh_MerkleRoot = 0, bh_TxCount = of_nat (length (blk_Txs b)), bh_NetworkFee = 0, bh_TreasuryFee = 0\<rparr>"
    by (rule CreateNewBlockV2_shape [OF assms(1) p])
  then have "extends p b'"
    using assms(3,5) by (simp add: extends_def assms(4))
  then show ?thesis
    by (simp add: AddBlockV2_def snd_addBlockV2 validateBlockV2_iff [OF p])
qed

definition one_block_chain :: "unit chain" where
  "one_block_chain = (empty_chain testnet_genesis None)\<lparr>ch_bestBlock := Some first_block\<rparr>"

lemma first_block_header:
  "bh_Number (blk_Header first_block) = 1" "bh_Difficulty (blk_Header first_block) = 20"
  "bh_Timestamp (blk_Header first_block) = 1700000000 * 1000000000" "blk_Hash first_block = 42"
  by (simp_all add: first_block_def)

theorem template_accepted_witness:
  "\<exists>b. CreateNewBlockV2 zero_platform [] 0 1700000000000000001 5 [] one_block_chain = Inr (Some b) \<and>
     snd (AddBlockV2 no_persister
       (b\<lparr>blk_Header := (blk_Header b)\<lparr>bh_Nonce := 8\<rparr>, blk_Hash := 9\<rparr>) one_block_chain) = Inr ()"
proof -
  have d: "CalculateDifficulty zero_platform testnet_genesis 2 (Some first_block) = Inr 20"
    by (simp add: CalculateDifficulty_def Let_def testnet_genesis_def first_block_header)
  then obtain b where b: "CreateNewBlockV2 zero_platform [] 0 1700000000000000001 5 [] one_block_chain = Inr (Some b)"
    by (simp add: CreateNewBlockV2_def one_block_chain_def first_block_header Let_def)
  then have "bh_Difficulty (blk_Header b) = 20"
    using d by (auto simp: CreateNewBlockV2_def one_block_chain_def first_block_header Let_def)
  then have "snd (AddBlockV2 no_persister
      (b\<lparr>blk_Header := (blk_Header b)\<lparr>bh_Nonce := 8\<rparr>, blk_Hash := 9\<rparr>) one_block_chain) = Inr ()"
    by (intro template_accepted [OF b, of first_block])
      (simp_all add: GetBestBlock_def one_block_chain_def first_block_header ValidateProofOfWorkV2_def)
  with b show ?thesis by blast
qed

subsection \<open>Rewards\<close>

lemma halve_reward_le:
  assumes "\<forall>h\<in>set hs. f64_unit (he_RewardMultiplier h)" and "unat r < 2 ^ 53"
  shows "unat (halve_reward pl n hs r) \<le> unat r"
  using assms
proof (induction hs arbitrary: r)
  case Nil
  show ?case by simp
next
  case (Cons h hs)
  have le: "unat (u64_of_f64 pl (f64_mul (f64_of_u64 r) (he_RewardMultiplier h))) \<le> unat r"
    using Cons.prems by (intro u64_of_unit_mul_le) simp_all
  show ?case
  proof (cases "he_AfterBlocks h < n")
    case True
    have "unat (halve_reward pl n hs (u64_of_f64 pl (f64_mul (f64_of_u64 r) (he_RewardMultiplier h))))
        \<le> unat (u64_of_f64 pl (f64_mul (f64_of_u64 r) (he_RewardMultiplier h)))"
      using Cons.prems le by (intro Cons.IH) simp_all
    with True le show ?thesis by simp
  next
    case False
    with Cons show ?thesis by simp
  qed
qed

text \<open>
  No block pays its miner more than the initial reward: with halving factors between zero and
  one the reward of every block number is at most the configured one in micro-coins, whatever the
  platform does with floats that fit no integer.
\<close>

theorem calculateBlockReward_bounded:
  assumes "holds_nat (f64_mul (g_InitialBlockReward (ch_genesis c)) micro) T" and "T < 2 ^ 53"
    and "\<forall>h\<in>set (g_HalvingSchedule (ch_genesis c)). f64_unit (he_RewardMultiplier h)"
  shows "unat (calculateBlockReward pl n c) \<le> T"
proof -
  have "unat (u64_of_f64 pl (f64_mul (g_InitialBlockReward (ch_genesis c)) micro)) = T"
    using unat_u64_of_trunc [OF holds_nat_trunc [OF assms(1)]] assms(2) by simp
  then show ?thesis
    using halve_reward_le [OF assms(3), of "u64_of_f64 pl (f64_mul (g_InitialBlockReward (ch_genesis c)) micro)" pl n]
      assms(2) by (simp add: calculateBlockReward_def)
qed

definition half :: f64 where
  "half = FFin False 4503599627370496 (- 53)"

definition halving_chain :: "unit chain" where
  "halving_chain = empty_chain (testnet_genesis\<lparr>g_HalvingSchedule := [\<lparr>he_AfterBlocks = 100, he_RewardMultiplier = half\<rparr>]\<rparr>) None"

theorem calculateBlockReward_bounded_witness:
  "unat (calculateBlockReward zero_platform 101 halving_chain) \<le> 5000000"
  using calculateBlockReward_bounded [of halving_chain 5000000 zero_platform 101] five_micro
  by (simp add: halving_chain_def testnet_genesis_def half_def)

text \<open>
  The two schedules disagree at the halving: at the block number a halving names,
  \<^verbatim>\<open>GetCurrentReward\<close> has halved already, the reward of the block template has not.
\<close>

theorem halving_off_by_one:
  assumes "g_HalvingSchedule (ch_genesis c) = [h]" and "\<not> lg_Enabled (dc_LaunchGuard (g_Difficulty (ch_genesis c)))"
  shows "GetCurrentReward (ch_genesis c) (he_AfterBlocks h) =
      Inr (f64_mul (g_InitialBlockReward (ch_genesis c)) (he_RewardMultiplier h)) \<and>
    calculateBlockReward pl (he_AfterBlocks h) c =
      u64_of_f64 pl (f64_mul (g_InitialBlockReward (ch_genesis c)) micro)"
  using assms by (simp add: GetCurrentReward_def calculateBlockReward_def)

theorem halving_off_by_one_witness:
  "GetCurrentReward (ch_genesis halving_chain) 100 = Inr (f64_mul (f64_of_nat 5) half) \<and>
   calculateBlockReward zero_platform 100 halving_chain = 5000000"
proof -
  have "u64_of_f64 zero_platform (f64_mul (f64_of_nat 5) micro) = 5000000"
    using u64_of_holds_nat [OF five_micro] by simp
  then show ?thesis
    using halving_off_by_one [of halving_chain "\<lparr>he_AfterBlocks = 100, he_RewardMultiplier = half\<rparr>" zero_platform]
    by (simp add: halving_chain_def testnet_genesis_def)
qed

subsection \<open>The averaging adjustment\<close>

text \<open>
  The averaging adjustment keeps its window and clamps its result: it never holds more block
  times than the window, and returns 4 before it has two of them and a value from 1 to 1000 after,
  whatever the platform makes of an infinite or negative factor.
\<close>

theorem da_CalculateDifficulty_bounded:
  assumes "int (length (da_blockTimes da)) \<le> da_windowSize da"
  shows "int (length (da_blockTimes (fst (da_CalculateDifficulty pl n (Some p) da)))) \<le>
      da_windowSize (fst (da_CalculateDifficulty pl n (Some p) da)) \<and>
    (\<exists>d. snd (da_CalculateDifficulty pl n (Some p) da) = Inr d \<and> 1 \<le> d \<and> d \<le> 1000)"
  using assms by (auto simp: da_CalculateDifficulty_def Let_def word_le_nat_alt word_less_nat_alt not_less)

theorem da_CalculateDifficulty_bounded_witness:
  "\<exists>d. snd (da_CalculateDifficulty zero_platform 2 (Some first_block) NewDifficultyAdjustment) = Inr d \<and> 1 \<le> d \<and> d \<le> 1000"
  using da_CalculateDifficulty_bounded [of NewDifficultyAdjustment zero_platform 2 first_block]
  by (simp add: NewDifficultyAdjustment_def)

end
