(* ===== verification/Storage.thy ===== *)
theory Storage
  imports Blockchain
begin

text \<open>
  \<^verbatim>\<open>storage/leveldb.go\<close>: blocks and transactions in a key-value database. The database
  (\<^verbatim>\<open>goleveldb\<close>) is not part of the repository: it is the record \<open>leveldb\<close> of the methods the code
  calls, over a database state \<open>'d\<close>. The JSON text of blocks and transactions is the record
  \<open>codec\<close> of \<^verbatim>\<open>json.Marshal\<close> and \<^verbatim>\<open>json.Unmarshal\<close> at these two types. What the code
  relies on is named: \<open>reliable\<close> for the database, \<open>codes\<close> for a block and the codec.
\<close>

subsection \<open>The database and its wrapper\<close>

datatype ldb_error = ErrNotFound | LdbError string

record 'd leveldb =
  ldb_Put :: "bytes \<Rightarrow> bytes \<Rightarrow> 'd \<Rightarrow> 'd \<times> ldb_error option"
  ldb_Get :: "bytes \<Rightarrow> 'd \<Rightarrow> ldb_error + bytes option"
  ldb_Delete :: "bytes \<Rightarrow> 'd \<Rightarrow> 'd \<times> ldb_error option"
  ldb_Close :: "'d \<Rightarrow> 'd \<times> ldb_error option"

text \<open>\<^verbatim>\<open>s.db\<close> is set by the constructor and never cleared, so that it is never nil.\<close>

record 'd ldb_storage =
  ls_db :: 'd
  ls_path :: string

datatype open_error = CreateDirectory string | OpenDatabase string

text \<open>\<^verbatim>\<open>os.MkdirAll\<close> and \<^verbatim>\<open>leveldb.OpenFile\<close> are arguments.\<close>

definition NewLevelDBStorage ::
  "(string \<Rightarrow> string option) \<Rightarrow> (string \<Rightarrow> string + 'd) \<Rightarrow> string \<Rightarrow> open_error + 'd ldb_storage" where
  "NewLevelDBStorage mkdir_all open_file path =
     (case mkdir_all path of
        Some e \<Rightarrow> Inl (CreateDirectory e)
      | None \<Rightarrow>
          (case open_file path of
             Inl e \<Rightarrow> Inl (OpenDatabase e)
           | Inr d \<Rightarrow> Inr \<lparr>ls_db = d, ls_path = path\<rparr>))"

definition ls_Put :: "'d leveldb \<Rightarrow> bytes \<Rightarrow> bytes \<Rightarrow> 'd ldb_storage \<Rightarrow> 'd ldb_storage \<times> ldb_error option" where
  "ls_Put ldb k v s = (let (d, e) = ldb_Put ldb k v (ls_db s) in (s\<lparr>ls_db := d\<rparr>, e))"

definition ls_Get :: "'d leveldb \<Rightarrow> bytes \<Rightarrow> 'd ldb_storage \<Rightarrow> ldb_error + bytes option" where
  "ls_Get ldb k s = ldb_Get ldb k (ls_db s)"

definition ls_Delete :: "'d leveldb \<Rightarrow> bytes \<Rightarrow> 'd ldb_storage \<Rightarrow> 'd ldb_storage \<times> ldb_error option" where
  "ls_Delete ldb k s = (let (d, e) = ldb_Delete ldb k (ls_db s) in (s\<lparr>ls_db := d\<rparr>, e))"

definition ls_Has :: "'d leveldb \<Rightarrow> bytes \<Rightarrow> 'd ldb_storage \<Rightarrow> bool \<times> ldb_error option" where
  "ls_Has ldb k s =
     (case ldb_Get ldb k (ls_db s) of
        Inl ErrNotFound \<Rightarrow> (False, None)
      | Inl e \<Rightarrow> (False, Some e)
      | Inr _ \<Rightarrow> (True, None))"

definition ls_Close :: "'d leveldb \<Rightarrow> 'd ldb_storage \<Rightarrow> 'd ldb_storage \<times> ldb_error option" where
  "ls_Close ldb s = (let (d, e) = ldb_Close ldb (ls_db s) in (s\<lparr>ls_db := d\<rparr>, e))"

definition ensureDir :: "(string \<Rightarrow> string option) \<Rightarrow> string \<Rightarrow> string option" where
  "ensureDir mkdir_all path = mkdir_all path"

definition ls_GetStats :: "'d ldb_storage \<Rightarrow> (string \<times> string) list" where
  "ls_GetStats s = [(''path'', ls_path s)]"

text \<open>The iterator is disabled in the source: it has no state, and no key is ever found.\<close>

type_synonym ldb_iterator = unit

definition ls_Iterator :: "bytes \<Rightarrow> 'd ldb_storage \<Rightarrow> ldb_iterator" where
  "ls_Iterator key_prefix s = ()"

definition it_Next :: "ldb_iterator \<Rightarrow> ldb_iterator \<times> bool" where
  "it_Next it = (it, False)"

definition it_Key :: "ldb_iterator \<Rightarrow> bytes option" where
  "it_Key it = None"

definition it_Value :: "ldb_iterator \<Rightarrow> bytes option" where
  "it_Value it = None"

definition it_Release :: "ldb_iterator \<Rightarrow> ldb_iterator" where
  "it_Release it = it"

definition it_Error :: "ldb_iterator \<Rightarrow> ldb_error option" where
  "it_Error it = None"

subsection \<open>Blocks and transactions by key\<close>

record codec =
  cd_marshal_block :: "block \<Rightarrow> string + bytes"
  cd_unmarshal_block :: "bytes \<Rightarrow> string + block"
  cd_marshal_tx :: "transaction \<Rightarrow> string + bytes"
  cd_unmarshal_tx :: "bytes \<Rightarrow> string + transaction"

datatype store_error =
  MarshalFailed string | StoreByHash ldb_error | StoreByNumber ldb_error | UpdateBest ldb_error
  | DatabaseError ldb_error | UnmarshalFailed string | DecodeHashFailed

text \<open>\<^verbatim>\<open>%d\<close> of an unsigned number.\<close>

fun show_nat :: "nat \<Rightarrow> string" where
  "show_nat n = (if n < 10 then [char_of (48 + n)] else show_nat (n div 10) @ [char_of (48 + n mod 10)])"

declare show_nat.simps [simp del]

definition hash_key :: "bytes \<Rightarrow> bytes" where
  "hash_key h = str_bytes (''block_hash_'' @ hex_encode h)"

definition number_key :: "u64 \<Rightarrow> bytes" where
  "number_key n = str_bytes (''block_number_'' @ show_nat (unat n))"

definition best_key :: bytes where
  "best_key = str_bytes ''best_block''"

definition tx_key :: "bytes \<Rightarrow> bytes" where
  "tx_key h = str_bytes (''tx_hash_'' @ hex_encode h)"

text \<open>What follows a \<^verbatim>\<open>storage.Get\<close> of a block: the error, nothing for nil data, or the decoded block.\<close>

definition decode_block :: "codec \<Rightarrow> ldb_error + bytes option \<Rightarrow> store_error + block option" where
  "decode_block cd r =
     (case r of
        Inl e \<Rightarrow> Inl (DatabaseError e)
      | Inr None \<Rightarrow> Inr None
      | Inr (Some data) \<Rightarrow>
          (case cd_unmarshal_block cd data of
             Inl e \<Rightarrow> Inl (UnmarshalFailed e)
           | Inr b \<Rightarrow> Inr (Some b)))"

definition bs_GetBlockByHash :: "codec \<Rightarrow> 'd leveldb \<Rightarrow> bytes \<Rightarrow> 'd ldb_storage \<Rightarrow> store_error + block option" where
  "bs_GetBlockByHash cd ldb h s = decode_block cd (ls_Get ldb (hash_key h) s)"

definition bs_GetBlockByNumber :: "codec \<Rightarrow> 'd leveldb \<Rightarrow> u64 \<Rightarrow> 'd ldb_storage \<Rightarrow> store_error + block option" where
  "bs_GetBlockByNumber cd ldb n s = decode_block cd (ls_Get ldb (number_key n) s)"

definition bs_GetBestBlock :: "codec \<Rightarrow> 'd leveldb \<Rightarrow> 'd ldb_storage \<Rightarrow> store_error + block option" where
  "bs_GetBestBlock cd ldb s =
     (case ls_Get ldb best_key s of
        Inl ErrNotFound \<Rightarrow> Inr None
      | Inl e \<Rightarrow> Inl (DatabaseError e)
      | Inr None \<Rightarrow> Inr None
      | Inr (Some hashData) \<Rightarrow>
          (case hex_decode (bytes_str hashData) of
             None \<Rightarrow> Inl DecodeHashFailed
           | Some hashBytes \<Rightarrow> bs_GetBlockByHash cd ldb hashBytes s))"

definition bs_SetBestBlockHash :: "'d leveldb \<Rightarrow> bytes \<Rightarrow> 'd ldb_storage \<Rightarrow> 'd ldb_storage \<times> ldb_error option" where
  "bs_SetBestBlockHash ldb h s = ls_Put ldb best_key h s"

definition bs_SetBestBlock :: "'d leveldb \<Rightarrow> block \<Rightarrow> 'd ldb_storage \<Rightarrow> 'd ldb_storage \<times> ldb_error option" where
  "bs_SetBestBlock ldb b s = ls_Put ldb best_key (str_bytes (hex_encode (hash_bytes (blk_Hash b)))) s"

text \<open>A failed write leaves what was written before it.\<close>

definition bs_StoreBlock ::
  "codec \<Rightarrow> 'd leveldb \<Rightarrow> block \<Rightarrow> 'd ldb_storage \<Rightarrow> 'd ldb_storage \<times> (store_error + unit)" where
  "bs_StoreBlock cd ldb b s =
     (case cd_marshal_block cd b of
        Inl e \<Rightarrow> (s, Inl (MarshalFailed e))
      | Inr data \<Rightarrow>
          (case ls_Put ldb (hash_key (hash_bytes (blk_Hash b))) data s of
             (s1, Some e) \<Rightarrow> (s1, Inl (StoreByHash e))
           | (s1, None) \<Rightarrow>
               (case ls_Put ldb (number_key (bh_Number (blk_Header b))) data s1 of
                  (s2, Some e) \<Rightarrow> (s2, Inl (StoreByNumber e))
                | (s2, None) \<Rightarrow>
                    (let bestBlockNumber =
                       (case bs_GetBestBlock cd ldb s2 of
                          Inr (Some best) \<Rightarrow> bh_Number (blk_Header best)
                        | _ \<Rightarrow> 0)
                     in if bestBlockNumber < bh_Number (blk_Header b) then
                          (case bs_SetBestBlock ldb b s2 of
                             (s3, Some e) \<Rightarrow> (s3, Inl (UpdateBest e))
                           | (s3, None) \<Rightarrow> (s3, Inr ()))
                        else (s2, Inr ())))))"

definition bs_GetBlockCount :: "codec \<Rightarrow> 'd leveldb \<Rightarrow> 'd ldb_storage \<Rightarrow> store_error + u64" where
  "bs_GetBlockCount cd ldb s =
     (case bs_GetBestBlock cd ldb s of
        Inl e \<Rightarrow> Inl e
      | Inr None \<Rightarrow> Inr 0
      | Inr (Some best) \<Rightarrow> Inr (bh_Number (blk_Header best)))"

definition bs_StoreTransaction ::
  "codec \<Rightarrow> 'd leveldb \<Rightarrow> transaction \<Rightarrow> 'd ldb_storage \<Rightarrow> 'd ldb_storage \<times> (store_error + unit)" where
  "bs_StoreTransaction cd ldb tx s =
     (case cd_marshal_tx cd tx of
        Inl e \<Rightarrow> (s, Inl (MarshalFailed e))
      | Inr data \<Rightarrow>
          (case ls_Put ldb (tx_key (hash_bytes (tx_Hash tx))) data s of
             (s1, Some e) \<Rightarrow> (s1, Inl (DatabaseError e))
           | (s1, None) \<Rightarrow> (s1, Inr ())))"

definition bs_GetTransaction :: "codec \<Rightarrow> 'd leveldb \<Rightarrow> bytes \<Rightarrow> 'd ldb_storage \<Rightarrow> store_error + transaction option" where
  "bs_GetTransaction cd ldb h s =
     (case ls_Get ldb (tx_key h) s of
        Inl e \<Rightarrow> Inl (DatabaseError e)
      | Inr None \<Rightarrow> Inr None
      | Inr (Some data) \<Rightarrow>
          (case cd_unmarshal_tx cd data of
             Inl e \<Rightarrow> Inl (UnmarshalFailed e)
           | Inr tx \<Rightarrow> Inr (Some tx)))"

definition bs_Close :: "'d leveldb \<Rightarrow> 'd ldb_storage \<Rightarrow> 'd ldb_storage \<times> (store_error + unit)" where
  "bs_Close ldb s =
     (case ls_Close ldb s of (s', Some e) \<Rightarrow> (s', Inl (DatabaseError e)) | (s', None) \<Rightarrow> (s', Inr ()))"

text \<open>\<^verbatim>\<open>BlockStorage\<close> as the \<^verbatim>\<open>BlockPersister\<close> of a chain.\<close>

definition block_persister :: "codec \<Rightarrow> 'd leveldb \<Rightarrow> ('d ldb_storage, store_error) persister" where
  "block_persister cd ldb =
     \<lparr>ps_StoreBlock = bs_StoreBlock cd ldb, ps_GetBlockByNumber = bs_GetBlockByNumber cd ldb,
      ps_GetBlockByHash = bs_GetBlockByHash cd ldb, ps_GetBestBlock = bs_GetBestBlock cd ldb,
      ps_GetBlockCount = bs_GetBlockCount cd ldb, ps_Close = bs_Close ldb\<rparr>"

subsection \<open>Keys\<close>

definition read_nat :: "string \<Rightarrow> nat" where
  "read_nat s = foldl (\<lambda>n c. 10 * n + (of_char c - 48)) 0 s"

lemma read_show_nat [simp]: "read_nat (show_nat n) = n"
proof (induction n rule: show_nat.induct)
  case (1 n)
  have digit: "of_char (char_of (48 + d) :: char) - 48 = d" if "d < 10" for d :: nat
    using that by simp
  show ?case
  proof (cases "n < 10")
    case True
    then show ?thesis by (simp add: show_nat.simps [of n] read_nat_def digit)
  next
    case False
    then have "read_nat (show_nat (n div 10)) = n div 10" using 1 by simp
    then show ?thesis
      using False digit [of "n mod 10"] by (simp add: show_nat.simps [of n] read_nat_def)
  qed
qed

lemma show_nat_inj [simp]: "show_nat m = show_nat n \<longleftrightarrow> m = n"
  by (metis read_show_nat)

lemma str_bytes_inj [simp]: "str_bytes s = str_bytes t \<longleftrightarrow> s = t"
  by (metis bytes_str_bytes)

lemma number_key_inj [simp]: "number_key m = number_key n \<longleftrightarrow> m = n"
  by (simp add: number_key_def word_unat_eq_iff)

lemma hash_key_inj' [simp]: "hash_key h = hash_key h' \<longleftrightarrow> h = h'"
  by (simp add: hash_key_def) (metis hex_decode_encode option.inject)

lemma keys_distinct [simp]:
  "hash_key h \<noteq> number_key n" "number_key n \<noteq> hash_key h" "best_key \<noteq> hash_key h" "hash_key h \<noteq> best_key"
  "best_key \<noteq> number_key n" "number_key n \<noteq> best_key" "tx_key t \<noteq> hash_key h" "tx_key t \<noteq> number_key n"
  "tx_key t \<noteq> best_key"
  by (simp_all add: hash_key_def number_key_def best_key_def tx_key_def)

subsection \<open>What the code relies on\<close>

text \<open>
  A database in a good state takes every write, stays good, and finds the last value written under
  each key.
\<close>

definition reliable :: "'d leveldb \<Rightarrow> ('d \<Rightarrow> bool) \<Rightarrow> bool" where
  "reliable ldb good \<longleftrightarrow> (\<forall>d k v. good d \<longrightarrow>
     snd (ldb_Put ldb k v d) = None \<and> good (fst (ldb_Put ldb k v d)) \<and>
     (\<forall>j. ldb_Get ldb j (fst (ldb_Put ldb k v d)) = (if j = k then Inr (Some v) else ldb_Get ldb j d)))"

text \<open>The JSON text of the block can be written, and read back.\<close>

definition codes :: "codec \<Rightarrow> block \<Rightarrow> bool" where
  "codes cd b \<longleftrightarrow> (\<exists>data. cd_marshal_block cd b = Inr data \<and> cd_unmarshal_block cd data = Inr b)"

lemma reliable_Put:
  assumes "reliable ldb good" and "good (ls_db s)"
  shows "snd (ls_Put ldb k v s) = None" and "good (ls_db (fst (ls_Put ldb k v s)))"
    and "ls_Get ldb j (fst (ls_Put ldb k v s)) = (if j = k then Inr (Some v) else ls_Get ldb j s)"
  using assms by (simp_all add: reliable_def ls_Put_def ls_Get_def case_prod_beta Let_def)

lemma ls_Put_eq:
  assumes "reliable ldb good" and "good (ls_db s)"
  shows "ls_Put ldb k v s = (fst (ls_Put ldb k v s), None)"
  by (metis prod.collapse reliable_Put(1) [OF assms])

subsection \<open>Storing a block\<close>

definition best_number :: "store_error + block option \<Rightarrow> u64" where
  "best_number r = (case r of Inr (Some best) \<Rightarrow> bh_Number (blk_Header best) | _ \<Rightarrow> 0)"

lemma StoreBlock_steps:
  assumes rel: "reliable ldb good" and good: "good (ls_db s)"
    and data: "cd_marshal_block cd b = Inr data" "cd_unmarshal_block cd data = Inr b"
  obtains s2 s' where
    "bs_StoreBlock cd ldb b s = (s', Inr ())" and "good (ls_db s2)" and "good (ls_db s')"
    and "\<And>j. ls_Get ldb j s2 = (if j = number_key (bh_Number (blk_Header b)) \<or> j = hash_key (hash_bytes (blk_Hash b))
           then Inr (Some data) else ls_Get ldb j s)"
    and "\<And>j. ls_Get ldb j s' = (if j = best_key \<and> best_number (bs_GetBestBlock cd ldb s2) < bh_Number (blk_Header b)
           then Inr (Some (str_bytes (hex_encode (hash_bytes (blk_Hash b))))) else ls_Get ldb j s2)"
proof -
  define s1 where "s1 = fst (ls_Put ldb (hash_key (hash_bytes (blk_Hash b))) data s)"
  define s2 where "s2 = fst (ls_Put ldb (number_key (bh_Number (blk_Header b))) data s1)"
  define s3 where "s3 = fst (bs_SetBestBlock ldb b s2)"
  note p1 = ls_Put_eq [OF rel good, of "hash_key (hash_bytes (blk_Hash b))" data, folded s1_def]
  have g1: "good (ls_db s1)" unfolding s1_def by (rule reliable_Put(2) [OF rel good])
  note p2 = ls_Put_eq [OF rel g1, of "number_key (bh_Number (blk_Header b))" data, folded s2_def]
  have g2: "good (ls_db s2)" unfolding s2_def by (rule reliable_Put(2) [OF rel g1])
  have p3: "bs_SetBestBlock ldb b s2 = (s3, None)"
    unfolding s3_def bs_SetBestBlock_def by (rule ls_Put_eq [OF rel g2])
  have g3: "good (ls_db s3)" unfolding s3_def bs_SetBestBlock_def by (rule reliable_Put(2) [OF rel g2])
  define up where "up \<longleftrightarrow> best_number (bs_GetBestBlock cd ldb s2) < bh_Number (blk_Header b)"
  have "bs_StoreBlock cd ldb b s = (if up then s3 else s2, Inr ())"
    by (simp add: bs_StoreBlock_def data(1) p1 p2 p3 up_def best_number_def)
  moreover have "good (ls_db (if up then s3 else s2))" using g2 g3 by simp
  moreover have "ls_Get ldb j s2 = (if j = number_key (bh_Number (blk_Header b)) \<or> j = hash_key (hash_bytes (blk_Hash b))
      then Inr (Some data) else ls_Get ldb j s)" for j
    unfolding s2_def s1_def using g1 good by (simp add: reliable_Put(3) [OF rel] s1_def)
  moreover have "ls_Get ldb j (if up then s3 else s2) = (if j = best_key \<and> up
      then Inr (Some (str_bytes (hex_encode (hash_bytes (blk_Hash b))))) else ls_Get ldb j s2)" for j
    using g2 by (simp add: s3_def bs_SetBestBlock_def reliable_Put(3) [OF rel])
  ultimately show thesis using that g2 unfolding up_def by blast
qed

lemma StoreBlock_durable:
  assumes rel: "reliable ldb good" and good: "good (ls_db s)" and "codes cd b"
  shows "snd (bs_StoreBlock cd ldb b s) = Inr ()" and "good (ls_db (fst (bs_StoreBlock cd ldb b s)))"
    and "bs_GetBlockByNumber cd ldb n (fst (bs_StoreBlock cd ldb b s)) =
      (if n = bh_Number (blk_Header b) then Inr (Some b) else bs_GetBlockByNumber cd ldb n s)"
    and "bs_GetBlockByHash cd ldb h (fst (bs_StoreBlock cd ldb b s)) =
      (if h = hash_bytes (blk_Hash b) then Inr (Some b) else bs_GetBlockByHash cd ldb h s)"
    and "best_number (bs_GetBestBlock cd ldb s) < bh_Number (blk_Header b) \<Longrightarrow>
      bs_GetBestBlock cd ldb (fst (bs_StoreBlock cd ldb b s)) = Inr (Some b)"
    and "bh_Number (blk_Header b) = 0 \<Longrightarrow>
      ls_Get ldb best_key (fst (bs_StoreBlock cd ldb b s)) = ls_Get ldb best_key s"
proof -
  obtain data where data: "cd_marshal_block cd b = Inr data" "cd_unmarshal_block cd data = Inr b"
    using assms(3) by (auto simp: codes_def)
  obtain s2 s' where st: "bs_StoreBlock cd ldb b s = (s', Inr ())" and g: "good (ls_db s')"
    and get2: "\<And>j. ls_Get ldb j s2 = (if j = number_key (bh_Number (blk_Header b)) \<or> j = hash_key (hash_bytes (blk_Hash b))
           then Inr (Some data) else ls_Get ldb j s)"
    and get': "\<And>j. ls_Get ldb j s' = (if j = best_key \<and> best_number (bs_GetBestBlock cd ldb s2) < bh_Number (blk_Header b)
           then Inr (Some (str_bytes (hex_encode (hash_bytes (blk_Hash b))))) else ls_Get ldb j s2)"
    using StoreBlock_steps [OF rel good data] by metis
  show "snd (bs_StoreBlock cd ldb b s) = Inr ()" and "good (ls_db (fst (bs_StoreBlock cd ldb b s)))"
    using st g by simp_all
  show "bs_GetBlockByNumber cd ldb n (fst (bs_StoreBlock cd ldb b s)) =
      (if n = bh_Number (blk_Header b) then Inr (Some b) else bs_GetBlockByNumber cd ldb n s)"
    by (simp add: bs_GetBlockByNumber_def st get' get2 decode_block_def data(2))
  have hash': "bs_GetBlockByHash cd ldb h s' =
      (if h = hash_bytes (blk_Hash b) then Inr (Some b) else bs_GetBlockByHash cd ldb h s)" for h
    by (simp add: bs_GetBlockByHash_def get' get2 decode_block_def data(2))
  then show "bs_GetBlockByHash cd ldb h (fst (bs_StoreBlock cd ldb b s)) =
      (if h = hash_bytes (blk_Hash b) then Inr (Some b) else bs_GetBlockByHash cd ldb h s)"
    by (simp add: st)
  have hash2: "bs_GetBlockByHash cd ldb h s2 =
      (if h = hash_bytes (blk_Hash b) then Inr (Some b) else bs_GetBlockByHash cd ldb h s)" for h
    by (simp add: bs_GetBlockByHash_def get2 decode_block_def data(2))
  have best2: "bs_GetBestBlock cd ldb s2 = bs_GetBestBlock cd ldb s \<or> bs_GetBestBlock cd ldb s2 = Inr (Some b)"
    by (simp add: bs_GetBestBlock_def get2 hash2 split: sum.split option.split ldb_error.split)
  have best': "bs_GetBestBlock cd ldb s' =
      (if best_number (bs_GetBestBlock cd ldb s2) < bh_Number (blk_Header b) then Inr (Some b)
       else bs_GetBestBlock cd ldb s2)"
  proof (cases "best_number (bs_GetBestBlock cd ldb s2) < bh_Number (blk_Header b)")
    case True
    then have "ls_Get ldb best_key s' = Inr (Some (str_bytes (hex_encode (hash_bytes (blk_Hash b)))))"
      by (simp add: get')
    then have "bs_GetBestBlock cd ldb s' = bs_GetBlockByHash cd ldb (hash_bytes (blk_Hash b)) s'"
      by (simp add: bs_GetBestBlock_def)
    then show ?thesis using True hash' by simp
  next
    case False
    then have best: "ls_Get ldb best_key s' = ls_Get ldb best_key s2" by (simp add: get')
    have same: "bs_GetBlockByHash cd ldb h s' = bs_GetBlockByHash cd ldb h s2" for h
      by (simp add: hash' hash2)
    have "bs_GetBestBlock cd ldb s' = bs_GetBestBlock cd ldb s2"
      by (simp only: bs_GetBestBlock_def best same)
    then show ?thesis using False by simp
  qed
  show "best_number (bs_GetBestBlock cd ldb s) < bh_Number (blk_Header b) \<Longrightarrow>
      bs_GetBestBlock cd ldb (fst (bs_StoreBlock cd ldb b s)) = Inr (Some b)"
    using best2 by (auto simp: st best')
  show "bh_Number (blk_Header b) = 0 \<Longrightarrow>
      ls_Get ldb best_key (fst (bs_StoreBlock cd ldb b s)) = ls_Get ldb best_key s"
    by (simp add: st get' get2)
qed

text \<open>
  A block stored in a database that keeps what is written to it can be read back by number and
  by hash, and becomes the best block when it counts further than the recorded one; no other number
  or hash is affected.
\<close>

theorem StoreBlock_readback:
  assumes "reliable ldb good" and "good (ls_db s)" and "codes cd b"
  defines "s' \<equiv> fst (bs_StoreBlock cd ldb b s)"
  shows "snd (bs_StoreBlock cd ldb b s) = Inr () \<and>
    bs_GetBlockByNumber cd ldb n s' = (if n = bh_Number (blk_Header b) then Inr (Some b) else bs_GetBlockByNumber cd ldb n s) \<and>
    bs_GetBlockByHash cd ldb h s' = (if h = hash_bytes (blk_Hash b) then Inr (Some b) else bs_GetBlockByHash cd ldb h s) \<and>
    (best_number (bs_GetBestBlock cd ldb s) < bh_Number (blk_Header b) \<longrightarrow> bs_GetBestBlock cd ldb s' = Inr (Some b)) \<and>
    (bh_Number (blk_Header b) = 0 \<longrightarrow> ls_Get ldb best_key s' = ls_Get ldb best_key s)"
  using StoreBlock_durable [OF assms(1-3)] unfolding s'_def by simp

subsection \<open>A database in memory\<close>

text \<open>
  The documented behaviour of the database, on a finite map: it satisfies what the code relies on, and
  its wrapper is a keyed table.
\<close>

definition mem_ldb :: "(bytes \<rightharpoonup> bytes) leveldb" where
  "mem_ldb = \<lparr>ldb_Put = (\<lambda>k v d. (d(k \<mapsto> v), None)),
     ldb_Get = (\<lambda>k d. case d k of None \<Rightarrow> Inl ErrNotFound | Some v \<Rightarrow> Inr (Some v)),
     ldb_Delete = (\<lambda>k d. (d(k := None), None)), ldb_Close = (\<lambda>d. (d, None))\<rparr>"

lemma reliable_mem: "reliable mem_ldb (\<lambda>_. True)"
  by (simp add: reliable_def mem_ldb_def)

definition ls_look :: "(bytes \<rightharpoonup> bytes) ldb_storage \<Rightarrow> bytes \<Rightarrow> bytes option" where
  "ls_look s k = (case ls_Get mem_ldb k s of Inr r \<Rightarrow> r | Inl _ \<Rightarrow> None)"

interpretation db_tab: keyed_table ls_look "\<lambda>(k, v) s. fst (ls_Put mem_ldb k v s)" fst snd
  "\<lambda>k s. fst (ls_Delete mem_ldb k s)"
  by unfold_locales (auto simp: ls_look_def ls_Get_def ls_Put_def ls_Delete_def mem_ldb_def split: option.splits if_splits)

text \<open>A codec for the genesis block and one more.\<close>

definition two_block_codec :: "block \<Rightarrow> block \<Rightarrow> codec" where
  "two_block_codec a b =
     \<lparr>cd_marshal_block = (\<lambda>x. if x = a then Inr [0] else if x = b then Inr [1] else Inl ''unsupported''),
      cd_unmarshal_block = (\<lambda>d. if d = [0] then Inr a else if d = [1] then Inr b else Inl ''syntax''),
      cd_marshal_tx = (\<lambda>x. Inl ''unsupported''), cd_unmarshal_tx = (\<lambda>d. Inl ''syntax'')\<rparr>"

lemma codes_two: "codes (two_block_codec a b) a" "codes (two_block_codec a b) b"
  by (simp_all add: codes_def two_block_codec_def)

theorem StoreBlock_readback_witness:
  "let cd = two_block_codec zero_block first_block;
       s = \<lparr>ls_db = Map.empty, ls_path = ''/data''\<rparr>;
       s' = fst (bs_StoreBlock cd mem_ldb first_block s)
   in bs_GetBlockByNumber cd mem_ldb 1 s' = Inr (Some first_block) \<and>
      bs_GetBestBlock cd mem_ldb s' = Inr (Some first_block) \<and>
      bs_GetBlockByNumber cd mem_ldb 2 s' = Inl (DatabaseError ErrNotFound)"
proof -
  let ?s = "\<lparr>ls_db = Map.empty, ls_path = ''/data''\<rparr>" and ?cd = "two_block_codec zero_block first_block"
  have n: "bh_Number (blk_Header first_block) = 1" by (simp add: first_block_def)
  have e: "bs_GetBestBlock ?cd mem_ldb ?s = Inr None" "bs_GetBlockByNumber ?cd mem_ldb 2 ?s = Inl (DatabaseError ErrNotFound)"
    by (simp_all add: bs_GetBestBlock_def bs_GetBlockByNumber_def ls_Get_def mem_ldb_def decode_block_def)
  note r = StoreBlock_readback [OF reliable_mem TrueI codes_two(2) [of zero_block first_block], of ?s _ "[]"]
  show ?thesis using r [of 1] r [of 2] by (simp add: n e best_number_def)
qed

end
