(* ===== verification/BlockIndex.thy ===== *)
theory BlockIndex
  imports Storage "HOL-Library.Multiset"
begin

text \<open>
  What the block storage of \<^verbatim>\<open>storage/leveldb.go\<close> promises, without keys, texts and database: an
  index of blocks by hash and by number, with the hash of the best block. \<open>indexes\<close> relates a
  storage to the index it implements.
\<close>

subsection \<open>The index\<close>

record block_index =
  bi_hash :: "bytes \<rightharpoonup> block"
  bi_number :: "u64 \<rightharpoonup> block"
  bi_best :: "bytes option"

definition empty_index :: block_index where
  "empty_index = \<lparr>bi_hash = Map.empty, bi_number = Map.empty, bi_best = None\<rparr>"

definition best_of :: "block_index \<Rightarrow> block option" where
  "best_of ix = (case bi_best ix of None \<Rightarrow> None | Some h \<Rightarrow> bi_hash ix h)"

definition number_of :: "block option \<Rightarrow> u64" where
  "number_of b = (case b of None \<Rightarrow> 0 | Some b \<Rightarrow> bh_Number (blk_Header b))"

definition index_block :: "block \<Rightarrow> block_index \<Rightarrow> block_index" where
  "index_block b ix =
     (let ix1 = ix\<lparr>bi_hash := (bi_hash ix)(hash_bytes (blk_Hash b) \<mapsto> b),
                   bi_number := (bi_number ix)(bh_Number (blk_Header b) \<mapsto> b)\<rparr>
      in if number_of (best_of ix1) < bh_Number (blk_Header b)
         then ix1\<lparr>bi_best := Some (hash_bytes (blk_Hash b))\<rparr> else ix1)"

definition found :: "block option \<Rightarrow> store_error + block option" where
  "found b = (case b of None \<Rightarrow> Inl (DatabaseError ErrNotFound) | Some b \<Rightarrow> Inr (Some b))"

definition indexes :: "codec \<Rightarrow> 'd leveldb \<Rightarrow> 'd ldb_storage \<Rightarrow> block_index \<Rightarrow> bool" where
  "indexes cd ldb s ix \<longleftrightarrow>
     (\<forall>h. bs_GetBlockByHash cd ldb h s = found (bi_hash ix h)) \<and>
     (\<forall>n. bs_GetBlockByNumber cd ldb n s = found (bi_number ix n)) \<and>
     ls_Get ldb best_key s =
       (case bi_best ix of None \<Rightarrow> Inl ErrNotFound | Some h \<Rightarrow> Inr (Some (str_bytes (hex_encode h))))"

lemma found_inj [simp]: "found b = found b' \<longleftrightarrow> b = b'"
  by (cases b; cases b') (auto simp: found_def)

lemma indexes_best:
  "indexes cd ldb s ix \<Longrightarrow>
     bs_GetBestBlock cd ldb s = (case bi_best ix of None \<Rightarrow> Inr None | Some h \<Rightarrow> found (bi_hash ix h))"
  by (simp add: bs_GetBestBlock_def indexes_def split: option.split)

lemma indexes_best_number: "indexes cd ldb s ix \<Longrightarrow> best_number (bs_GetBestBlock cd ldb s) = number_of (best_of ix)"
  by (simp add: indexes_best best_number_def best_of_def number_of_def found_def split: option.split)

subsection \<open>Storing implements indexing\<close>

text \<open>A write under the keys of a block is an entry of the index.\<close>

lemma indexes_put:
  assumes ix: "indexes cd ldb s ix" and "cd_unmarshal_block cd data = Inr b"
  shows "(\<And>j. ls_Get ldb j s' = (if j = hash_key h then Inr (Some data) else ls_Get ldb j s)) \<Longrightarrow>
      indexes cd ldb s' (ix\<lparr>bi_hash := (bi_hash ix)(h \<mapsto> b)\<rparr>)"
    and "(\<And>j. ls_Get ldb j s' = (if j = number_key n then Inr (Some data) else ls_Get ldb j s)) \<Longrightarrow>
      indexes cd ldb s' (ix\<lparr>bi_number := (bi_number ix)(n \<mapsto> b)\<rparr>)"
  using assms
  by (auto simp: indexes_def bs_GetBlockByHash_def bs_GetBlockByNumber_def decode_block_def found_def)

lemma indexes_set_best:
  assumes "indexes cd ldb s ix"
    and "\<And>j. ls_Get ldb j s' = (if j = best_key then Inr (Some (str_bytes (hex_encode h))) else ls_Get ldb j s)"
  shows "indexes cd ldb s' (ix\<lparr>bi_best := Some h\<rparr>)"
  using assms by (simp add: indexes_def bs_GetBlockByHash_def bs_GetBlockByNumber_def)

lemma indexes_same:
  assumes "indexes cd ldb s ix" and "\<And>j. ls_Get ldb j s' = ls_Get ldb j s"
  shows "indexes cd ldb s' ix"
  using assms by (simp add: indexes_def bs_GetBlockByHash_def bs_GetBlockByNumber_def)

lemma StoreBlock_indexes:
  assumes rel: "reliable ldb good" and good: "good (ls_db s)" and "codes cd b" and ix: "indexes cd ldb s ix"
  shows "snd (bs_StoreBlock cd ldb b s) = Inr ()" "good (ls_db (fst (bs_StoreBlock cd ldb b s)))"
    "indexes cd ldb (fst (bs_StoreBlock cd ldb b s)) (index_block b ix)"
proof -
  show "snd (bs_StoreBlock cd ldb b s) = Inr ()" "good (ls_db (fst (bs_StoreBlock cd ldb b s)))"
    by (rule StoreBlock_durable(1,2) [OF rel good assms(3)])+
  obtain data where data: "cd_marshal_block cd b = Inr data" "cd_unmarshal_block cd data = Inr b"
    using assms(3) by (auto simp: codes_def)
  let ?h = "hash_bytes (blk_Hash b)" and ?n = "bh_Number (blk_Header b)"
  let ?ix1 = "ix\<lparr>bi_hash := (bi_hash ix)(?h \<mapsto> b)\<rparr>"
  let ?ix2 = "?ix1\<lparr>bi_number := (bi_number ix)(?n \<mapsto> b)\<rparr>"
  define s1 where "s1 = fst (ls_Put ldb (hash_key ?h) data s)"
  obtain s2 s' where st: "bs_StoreBlock cd ldb b s = (s', Inr ())"
    and get2: "\<And>j. ls_Get ldb j s2 = (if j = number_key ?n \<or> j = hash_key ?h then Inr (Some data) else ls_Get ldb j s)"
    and get': "\<And>j. ls_Get ldb j s' = (if j = best_key \<and> best_number (bs_GetBestBlock cd ldb s2) < ?n
           then Inr (Some (str_bytes (hex_encode ?h))) else ls_Get ldb j s2)"
    using StoreBlock_steps [OF rel good data] by metis
  have "indexes cd ldb s1 ?ix1"
    unfolding s1_def by (rule indexes_put(1) [OF ix data(2)]) (rule reliable_Put(3) [OF rel good])
  then have ix2: "indexes cd ldb s2 ?ix2"
    by (rule indexes_put(2) [where ix = ?ix1, OF _ data(2), simplified])
      (simp add: get2 s1_def reliable_Put(3) [OF rel good])
  note bn = indexes_best_number [OF ix2]
  show "indexes cd ldb (fst (bs_StoreBlock cd ldb b s)) (index_block b ix)"
  proof (cases "number_of (best_of ?ix2) < ?n")
    case True
    have "indexes cd ldb s' (?ix2\<lparr>bi_best := Some ?h\<rparr>)"
      by (rule indexes_set_best [OF ix2]) (simp add: get' bn True)
    with True show ?thesis by (simp add: st index_block_def)
  next
    case False
    have "indexes cd ldb s' ?ix2" by (rule indexes_same [OF ix2]) (simp add: get' bn False)
    with False show ?thesis by (simp add: st index_block_def)
  qed
qed

definition store_all :: "codec \<Rightarrow> 'd leveldb \<Rightarrow> block list \<Rightarrow> 'd ldb_storage \<Rightarrow> 'd ldb_storage" where
  "store_all cd ldb bs s = fold (\<lambda>b s. fst (bs_StoreBlock cd ldb b s)) bs s"

lemma store_all_indexes:
  assumes "reliable ldb good" and "good (ls_db s)" and "\<forall>b\<in>set bs. codes cd b" and "indexes cd ldb s ix"
  shows "good (ls_db (store_all cd ldb bs s)) \<and> indexes cd ldb (store_all cd ldb bs s) (fold index_block bs ix)"
  using assms
proof (induction bs arbitrary: s ix)
  case (Cons b bs)
  have c: "codes cd b" using Cons.prems(3) by simp
  note d = StoreBlock_indexes [OF Cons.prems(1,2) c Cons.prems(4)]
  have "\<forall>b\<in>set bs. codes cd b" using Cons.prems(3) by simp
  from Cons.IH [OF Cons.prems(1) d(2) this d(3)] show ?case by (simp add: store_all_def)
qed (simp add: store_all_def)

subsection \<open>The index of a list of blocks\<close>

text \<open>
  The index of blocks with different hashes and numbers: each is found by both, and the best is one with
  the greatest number, unless all are numbered zero.
\<close>

abbreviation blk_Number :: "block \<Rightarrow> u64" where
  "blk_Number b \<equiv> bh_Number (blk_Header b)"

abbreviation blk_key :: "block \<Rightarrow> bytes" where
  "blk_key b \<equiv> hash_bytes (blk_Hash b)"

definition index_of :: "block set \<Rightarrow> block_index \<Rightarrow> bool" where
  "index_of B ix \<longleftrightarrow>
     (\<forall>h b. bi_hash ix h = Some b \<longleftrightarrow> b \<in> B \<and> blk_key b = h) \<and>
     (\<forall>n b. bi_number ix n = Some b \<longleftrightarrow> b \<in> B \<and> blk_Number b = n) \<and>
     (case bi_best ix of
        None \<Rightarrow> \<forall>b\<in>B. blk_Number b = 0
      | Some h \<Rightarrow> \<exists>b\<in>B. blk_key b = h \<and> blk_Number b \<noteq> 0 \<and> (\<forall>b'\<in>B. blk_Number b' \<le> blk_Number b))"

lemma index_of_best: "index_of B ix \<Longrightarrow> b \<in> B \<Longrightarrow> blk_Number b \<le> number_of (best_of ix)"
  by (auto simp: index_of_def best_of_def number_of_def split: option.splits) (metis option.sel option.distinct(1))+

lemma index_of_insert:
  assumes ix: "index_of B ix" and fresh: "blk_key b \<notin> blk_key ` B" "blk_Number b \<notin> blk_Number ` B"
  shows "index_of (insert b B) (index_block b ix)"
proof -
  let ?ix1 = "ix\<lparr>bi_hash := (bi_hash ix)(blk_key b \<mapsto> b), bi_number := (bi_number ix)(blk_Number b \<mapsto> b)\<rparr>"
  have other: "blk_key x \<noteq> blk_key b" "blk_Number x \<noteq> blk_Number b" if "x \<in> B" for x
    using fresh that by (metis imageI)+
  have tabs: "(\<forall>h x. bi_hash ?ix1 h = Some x \<longleftrightarrow> x \<in> insert b B \<and> blk_key x = h) \<and>
      (\<forall>n x. bi_number ?ix1 n = Some x \<longleftrightarrow> x \<in> insert b B \<and> blk_Number x = n)"
    using ix other by (auto simp: index_of_def)
  have best: "best_of ?ix1 = best_of ix"
    using ix other(1) by (auto simp: best_of_def index_of_def split: option.splits)
  have top: "\<forall>x\<in>B. blk_Number x \<le> number_of (best_of ix)" using index_of_best [OF ix] by blast
  show ?thesis
  proof (cases "number_of (best_of ix) < blk_Number b")
    case True
    then have "blk_Number b \<noteq> 0" "\<forall>x\<in>insert b B. blk_Number x \<le> blk_Number b" using top by (auto simp: order.strict_implies_order intro: order.trans)
    with True tabs show ?thesis by (simp add: index_of_def index_block_def best)
  next
    case False
    then have ib: "index_block b ix = ?ix1" by (simp add: index_block_def best)
    have "case bi_best ix of
        None \<Rightarrow> \<forall>x\<in>insert b B. blk_Number x = 0
      | Some h \<Rightarrow> \<exists>x\<in>insert b B. blk_key x = h \<and> blk_Number x \<noteq> 0 \<and> (\<forall>x'\<in>insert b B. blk_Number x' \<le> blk_Number x)"
    proof (cases "bi_best ix")
      case None
      then show ?thesis using ix False by (auto simp: index_of_def best_of_def number_of_def word_gt_0)
    next
      case (Some h)
      then obtain x where x: "x \<in> B" "blk_key x = h" "blk_Number x \<noteq> 0" "\<forall>x'\<in>B. blk_Number x' \<le> blk_Number x"
        using ix by (auto simp: index_of_def)
      then have "best_of ix = Some x" using ix Some by (simp add: best_of_def index_of_def)
      then have "blk_Number b \<le> blk_Number x" using False by (simp add: number_of_def)
      with x Some show ?thesis by auto
    qed
    then show ?thesis using tabs by (simp add: index_of_def ib)
  qed
qed

lemma index_of_fold:
  assumes "index_of B ix" and "distinct (map blk_key bs)" "distinct (map blk_Number bs)"
    and "blk_key ` set bs \<inter> blk_key ` B = {}" "blk_Number ` set bs \<inter> blk_Number ` B = {}"
  shows "index_of (set bs \<union> B) (fold index_block bs ix)"
  using assms
proof (induction bs arbitrary: B ix)
  case (Cons b bs)
  have "index_of (insert b B) (index_block b ix)"
    by (rule index_of_insert [OF Cons.prems(1)]) (use Cons.prems(4,5) in auto)
  then have "index_of (set bs \<union> insert b B) (fold index_block bs (index_block b ix))"
    by (rule Cons.IH) (use Cons.prems(2-5) in auto)
  then show ?case by simp
qed simp

lemma index_of_empty: "index_of {} empty_index"
  by (simp add: index_of_def empty_index_def)

lemma map_eqI: "\<forall>k v. f k = Some v \<longleftrightarrow> P k v \<Longrightarrow> \<forall>k v. f' k = Some v \<longleftrightarrow> P k v \<Longrightarrow> f = f'"
  by (intro ext) (metis option.exhaust)

lemma index_of_unique:
  assumes "inj_on blk_Number B" and "index_of B ix" and "index_of B ix'"
  shows "ix = ix'"
proof -
  have h: "bi_hash ix = bi_hash ix'"
    by (rule map_eqI [where P = "\<lambda>h b. b \<in> B \<and> blk_key b = h"]) (use assms(2,3) in \<open>simp_all add: index_of_def\<close>)
  have n: "bi_number ix = bi_number ix'"
    by (rule map_eqI [where P = "\<lambda>n b. b \<in> B \<and> blk_Number b = n"]) (use assms(2,3) in \<open>simp_all add: index_of_def\<close>)
  have "bi_best ix = bi_best ix'"
  proof (cases "bi_best ix"; cases "bi_best ix'")
    fix k k' assume k: "bi_best ix = Some k" "bi_best ix' = Some k'"
    then obtain b b' where b: "b \<in> B" "blk_key b = k" "\<forall>x\<in>B. blk_Number x \<le> blk_Number b"
        "b' \<in> B" "blk_key b' = k'" "\<forall>x\<in>B. blk_Number x \<le> blk_Number b'"
      using assms(2,3) by (auto simp: index_of_def)
    then have "blk_Number b = blk_Number b'" by (simp add: order.antisym)
    with b k assms(1) show ?thesis by (auto dest: inj_onD)
  qed (use assms(2,3) in \<open>auto simp: index_of_def\<close>)
  with h n show ?thesis by simp
qed

subsection \<open>The order of stores\<close>

lemma mset_same_blocks:
  "mset bs' = mset bs \<Longrightarrow> set bs' = set bs \<and> distinct (map f bs') = distinct (map f bs)"
  by (metis mset_eq_imp_distinct_iff mset_map set_mset_mset)

text \<open>
  C8. Storing blocks with different hashes and numbers in an empty storage implements the index: every
  block is found by its hash and its number, the best one has the greatest number, and nothing else
  is found. The order in which the blocks are stored makes no difference.
\<close>

theorem block_storage_refines_index:
  assumes rel: "reliable ldb good" and good: "good (ls_db s)" and empty: "indexes cd ldb s empty_index"
    and codes: "\<forall>b\<in>set bs. codes cd b" and dist: "distinct (map blk_key bs)" "distinct (map blk_Number bs)"
    and perm: "mset bs' = mset bs"
  defines "ix \<equiv> fold index_block bs empty_index"
  shows "index_of (set bs) ix \<and> indexes cd ldb (store_all cd ldb bs s) ix \<and> indexes cd ldb (store_all cd ldb bs' s) ix"
proof (intro conjI)
  note same = mset_same_blocks [OF perm]
  have io: "index_of (set bs) ix" unfolding ix_def using index_of_fold [OF index_of_empty dist] by simp
  then show "index_of (set bs) ix" .
  show "indexes cd ldb (store_all cd ldb bs s) ix"
    unfolding ix_def using store_all_indexes [OF rel good codes empty] by blast
  have "distinct (map blk_key bs')" "distinct (map blk_Number bs')" using same dist by blast+
  then have "index_of (set bs') (fold index_block bs' empty_index)"
    using index_of_fold [OF index_of_empty, of bs'] by simp
  then have "index_of (set bs) (fold index_block bs' empty_index)" using same by metis
  moreover have "inj_on blk_Number (set bs)" using dist(2) by (simp add: distinct_map)
  ultimately have "fold index_block bs' empty_index = ix" using io by (blast intro: index_of_unique)
  moreover have "indexes cd ldb (store_all cd ldb bs' s) (fold index_block bs' empty_index)"
    using store_all_indexes [OF rel good _ empty, of bs'] codes same by blast
  ultimately show "indexes cd ldb (store_all cd ldb bs' s) ix" by simp
qed

lemma empty_storage: "indexes cd mem_ldb \<lparr>ls_db = Map.empty, ls_path = p\<rparr> empty_index"
  by (simp add: indexes_def empty_index_def bs_GetBlockByHash_def bs_GetBlockByNumber_def decode_block_def found_def
    ls_Get_def mem_ldb_def)

lemma hash_bytes_inj [simp]: "hash_bytes h = hash_bytes h' \<longleftrightarrow> h = h'"
  by (metis be_val_hash_bytes word_unat_eq_iff)

lemma two_blocks:
  "blk_Number zero_block = 0" "blk_Number first_block = 1" "blk_Hash zero_block \<noteq> blk_Hash first_block"
  by (simp_all add: zero_block_def zero_header_def first_block_def)

theorem block_storage_refines_index_witness:
  "let cd = two_block_codec zero_block first_block; s = \<lparr>ls_db = Map.empty, ls_path = ''/data''\<rparr>
   in bs_GetBestBlock cd mem_ldb (store_all cd mem_ldb [first_block, zero_block] s) = Inr (Some first_block)"
proof -
  let ?cd = "two_block_codec zero_block first_block" and ?s = "\<lparr>ls_db = Map.empty, ls_path = ''/data''\<rparr>"
  have "indexes ?cd mem_ldb (store_all ?cd mem_ldb [first_block, zero_block] ?s) (fold index_block [zero_block, first_block] empty_index)"
    using block_storage_refines_index [where bs = "[zero_block, first_block]" and bs' = "[first_block, zero_block]" and cd = ?cd,
        OF reliable_mem TrueI empty_storage [where p = "''/data''"]]
    by (simp add: codes_two two_blocks)
  then show ?thesis
    by (simp add: indexes_best index_block_def empty_index_def two_blocks found_def best_of_def number_of_def)
qed

end
