(* ===== verification/Restart.thy ===== *)
theory Restart
  imports Storage
begin

text \<open>
  The node and its database together: a chain writes every accepted block through
  \<^verbatim>\<open>BlockStorage\<close>, and a node started on that database loads the chain it left.
\<close>

subsection \<open>What a running chain leaves in its storage\<close>

definition stored :: "codec \<Rightarrow> 'd leveldb \<Rightarrow> ('d \<Rightarrow> bool) \<Rightarrow> 'd ldb_storage chain \<Rightarrow> bool" where
  "stored cd ldb good c \<longleftrightarrow> (\<exists>s. ch_storage c = Some s \<and> good (ls_db s) \<and>
     (\<forall>i<length (ch_blocks c). bs_GetBlockByNumber cd ldb (of_nat i) s = Inr (Some (ch_blocks c ! i))) \<and>
     (if length (ch_blocks c) = Suc 0 then ls_Get ldb best_key s = Inl ErrNotFound
      else bs_GetBestBlock cd ldb s = Inr (Some (last (ch_blocks c)))))"

definition regular :: "codec \<Rightarrow> 's chain \<Rightarrow> bool" where
  "regular cd c \<longleftrightarrow> (\<forall>b\<in>set (tl (ch_blocks c)). bh_Number (blk_Header b) \<noteq> 0) \<and> (\<forall>b\<in>set (ch_blocks c). codes cd b)"

lemma stored_cong:
  "ch_storage c' = ch_storage c \<Longrightarrow> ch_blocks c' = ch_blocks c \<Longrightarrow> stored cd ldb good c' = stored cd ldb good c"
  by (simp only: stored_def)

lemma regular_cong: "ch_blocks c' = ch_blocks c \<Longrightarrow> regular cd c' = regular cd c"
  by (simp only: regular_def)

lemma ps_block_persister [simp]:
  "ps_StoreBlock (block_persister cd ldb) = bs_StoreBlock cd ldb"
  "ps_GetBlockByNumber (block_persister cd ldb) = bs_GetBlockByNumber cd ldb"
  "ps_GetBestBlock (block_persister cd ldb) = bs_GetBestBlock cd ldb"
  by (simp_all add: block_persister_def)

lemma fresh_ErrNotFound:
  "ls_Get ldb best_key s = Inl ErrNotFound \<Longrightarrow> bs_GetBestBlock cd ldb s = Inr None"
  by (simp add: bs_GetBestBlock_def)

text \<open>Numbers count up from zero, so that a chain whose later blocks are not numbered zero is short.\<close>

lemma chain_inv_numbers:
  assumes "chain_inv g c" and "\<forall>b\<in>set (tl (ch_blocks c)). bh_Number (blk_Header b) \<noteq> 0" and "i < length (ch_blocks c)"
  shows "bh_Number (blk_Header (ch_blocks c ! i)) = of_nat i"
  using assms by (intro chain_numbers) (simp_all add: chain_inv_def)

lemma regular_length:
  assumes "chain_inv g c" and "\<forall>b\<in>set (tl (ch_blocks c)). bh_Number (blk_Header b) \<noteq> 0"
  shows "length (ch_blocks c) \<le> 2 ^ 64"
proof (rule ccontr)
  assume "\<not> length (ch_blocks c) \<le> 2 ^ 64"
  then have len: "2 ^ 64 < length (ch_blocks c)" by simp
  have "bh_Number (blk_Header (ch_blocks c ! (2 ^ 64))) = of_nat (2 ^ 64)"
    by (rule chain_inv_numbers [OF assms len])
  moreover have "ch_blocks c ! (2 ^ 64) = tl (ch_blocks c) ! (2 ^ 64 - 1)"
    using len by (simp add: nth_tl)
  moreover have "tl (ch_blocks c) ! (2 ^ 64 - 1) \<in> set (tl (ch_blocks c))"
    using len by (intro nth_mem) simp
  moreover have "(of_nat (2 ^ 64) :: u64) = 0"
    unfolding word_of_nat_eq_0_iff by simp
  ultimately show False using assms(2) by metis
qed

lemma of_nat_u64_eq: "i < 2 ^ 64 \<Longrightarrow> j < 2 ^ 64 \<Longrightarrow> (of_nat i :: u64) = of_nat j \<longleftrightarrow> i = j"
  by (simp add: word_of_nat_eq_iff take_bit_eq_mod)

lemma of_nat_u64_less: "i < j \<Longrightarrow> j < 2 ^ 64 \<Longrightarrow> (of_nat i :: u64) < of_nat j"
  by (simp add: word_of_nat_less_iff take_bit_eq_mod)

lemma stored_addBlockV2:
  assumes rel: "reliable ldb good" and inv: "chain_inv g c" and st: "stored cd ldb good c"
    and v: "validateBlockV2 b c = Inr ()"
    and reg: "regular cd (fst (addBlockV2 (block_persister cd ldb) b c))"
  shows "stored cd ldb good (fst (addBlockV2 (block_persister cd ldb) b c))"
proof -
  let ?bs = "ch_blocks c" and ?n = "length (ch_blocks c)"
  let ?c = "fst (addBlockV2 (block_persister cd ldb) b c)"
  have inv': "chain_inv g ?c" by (rule chain_inv_addBlockV2 [OF inv])
  have blocks: "ch_blocks ?c = ?bs @ [b]" by (simp add: addBlockV2_accepts(1) [OF v])
  have ne: "?bs \<noteq> []" using inv by (simp add: chain_inv_def)
  have codes: "codes cd b" using reg by (simp add: regular_def blocks)
  have num: "bh_Number (blk_Header (ch_blocks ?c ! i)) = of_nat i" if "i < Suc ?n" for i
    using that reg by (intro chain_inv_numbers [OF inv']) (simp_all add: regular_def blocks)
  have len: "?n < 2 ^ 64"
    using regular_length [OF inv'] reg by (simp add: regular_def blocks)
  have nb: "bh_Number (blk_Header b) = of_nat ?n"
    using num [of ?n] by (simp add: blocks)
  obtain s where s: "ch_storage c = Some s" "good (ls_db s)"
    and num_s: "\<And>i. i < ?n \<Longrightarrow> bs_GetBlockByNumber cd ldb (of_nat i) s = Inr (Some (?bs ! i))"
    and best_s: "if ?n = Suc 0 then ls_Get ldb best_key s = Inl ErrNotFound
      else bs_GetBestBlock cd ldb s = Inr (Some (last ?bs))"
    using st by (auto simp: stored_def)
  note d = StoreBlock_durable [OF rel s(2) codes]
  have "best_number (bs_GetBestBlock cd ldb s) < bh_Number (blk_Header b)"
  proof (cases "?n = Suc 0")
    case True
    then show ?thesis using best_s by (simp add: fresh_ErrNotFound best_number_def nb)
  next
    case False
    have "last ?bs = ch_blocks ?c ! (?n - 1)"
      using ne by (simp add: blocks nth_append last_conv_nth)
    then have "bh_Number (blk_Header (last ?bs)) = of_nat (?n - 1)"
      using num [of "?n - 1"] by simp
    then show ?thesis
      using False best_s of_nat_u64_less [of "?n - 1" ?n] len ne by (simp add: best_number_def nb)
  qed
  then have "bs_GetBestBlock cd ldb (fst (bs_StoreBlock cd ldb b s)) = Inr (Some b)" by (rule d(5))
  moreover have "bs_GetBlockByNumber cd ldb (of_nat i) (fst (bs_StoreBlock cd ldb b s)) = Inr (Some ((?bs @ [b]) ! i))"
    if "i < Suc ?n" for i
  proof (cases "i = ?n")
    case True
    then show ?thesis by (simp add: d(3) nb)
  next
    case False
    then have "i < ?n" using that by simp
    then show ?thesis
      using len num_s [of i] of_nat_u64_eq [of i ?n] by (simp add: d(3) nb nth_append)
  qed
  moreover have "ch_storage ?c = Some (fst (bs_StoreBlock cd ldb b s))"
    by (simp add: addBlockV2_accepts(10) [OF v] s(1))
  ultimately show ?thesis using d(2) ne by (simp add: stored_def blocks)
qed

lemma stored_started:
  assumes rel: "reliable ldb good" and good: "good (ls_db s0)" and best: "ls_Get ldb best_key s0 = Inl ErrNotFound"
    and reg: "regular cd (NewBlockchainV2 (block_persister cd ldb) g (Some s0))"
  shows "stored cd ldb good (NewBlockchainV2 (block_persister cd ldb) g (Some s0))"
proof -
  have fresh: "fresh_start (block_persister cd ldb) (Some s0)"
    by (simp add: fresh_start_def fresh_ErrNotFound best)
  have v: "validateBlockV2 (createGenesisBlockV2 g) (empty_chain g (Some s0)) = Inr ()"
    by (simp add: validateBlockV2_genesis)
  have codes: "codes cd (createGenesisBlockV2 g)"
    using reg by (simp add: regular_def NewBlockchainV2_fresh [OF fresh] addBlockV2_accepts(1) [OF v])
  note d = StoreBlock_durable [OF rel good codes]
  show ?thesis
    by (simp add: stored_def NewBlockchainV2_fresh [OF fresh] addBlockV2_accepts [OF v] d(2,3) d(6) best)
qed

lemma stored_reachable:
  assumes rel: "reliable ldb good" and good: "good (ls_db s0)" and best: "ls_Get ldb best_key s0 = Inl ErrNotFound"
    and "reachable (block_persister cd ldb) g (Some s0) c"
  shows "regular cd c \<Longrightarrow> stored cd ldb good c"
  using assms(4)
proof (induction rule: reachable.induct)
  case started
  then show ?case by (rule stored_started [OF rel good best])
next
  case (stepped c c')
  have fresh: "fresh_start (block_persister cd ldb) (Some s0)"
    by (simp add: fresh_start_def fresh_ErrNotFound best)
  note inv = reachable_inv [OF stepped(1) fresh]
  from stepped(2) show ?case
  proof (cases rule: chain_step.cases)
    case (offer_block b)
    show ?thesis
    proof (cases "validateBlockV2 b c")
      case (Inl e)
      with stepped offer_block show ?thesis by (simp add: addBlockV2_rejects)
    next
      case (Inr u)
      then have v: "validateBlockV2 b c = Inr ()" by simp
      have "ch_blocks c \<noteq> []" using inv by (simp add: chain_inv_def)
      then have "regular cd c"
        using stepped(4) by (simp add: offer_block regular_def addBlockV2_accepts(1) [OF v])
      then have "stored cd ldb good c" by (rule stepped(3))
      with stepped(4) show ?thesis
        unfolding offer_block by (intro stored_addBlockV2 [OF rel inv _ v])
    qed
  qed (use stepped(3,4) stored_cong [of c' c cd ldb good] regular_cong [of c' c cd] in simp_all)
qed

subsection \<open>Loading it\<close>

lemma load_blocks_all:
  assumes "\<forall>j<length bs. ps_GetBlockByNumber ps (i + of_nat j) s = Inr (Some (bs ! j))"
  shows "load_blocks ps s (length bs) i c =
    c\<lparr>ch_blocks := ch_blocks c @ bs,
      ch_utxoSet := fold (\<lambda>b. process_stored_txs (blk_Hash b) (blk_Txs b)) bs (ch_utxoSet c)\<rparr>"
  using assms
proof (induction bs arbitrary: i c)
  case Nil
  then show ?case by simp
next
  case (Cons b bs)
  have "ps_GetBlockByNumber ps i s = Inr (Some b)"
    using Cons.prems by (auto dest: spec [of _ 0])
  moreover have "\<forall>j<length bs. ps_GetBlockByNumber ps ((i + 1) + of_nat j) s = Inr (Some (bs ! j))"
  proof (intro allI impI)
    fix j assume "j < length bs"
    then show "ps_GetBlockByNumber ps ((i + 1) + of_nat j) s = Inr (Some (bs ! j))"
      using Cons.prems [rule_format, of "Suc j"] by (simp add: add.assoc add.left_commute)
  qed
  ultimately show ?case by (simp add: Cons.IH)
qed

lemma unspent_replay:
  "unspent (fold (\<lambda>b. process_stored_txs (blk_Hash b) (blk_Txs b)) bs us) = fold ledger_block bs (unspent us)"
  by (induction bs arbitrary: us) (simp_all add: unspent_process_stored_txs ledger_block_def)

lemma restarted:
  assumes rel: "reliable ldb good" and inv: "chain_inv g c" and st: "stored cd ldb good c" and reg: "regular cd c"
  defines "c' \<equiv> NewBlockchainV2 (block_persister cd ldb) g (ch_storage c)"
  shows "ch_blocks c' = ch_blocks c" and "ch_bestBlock c' = ch_bestBlock c" and "ch_height c' = ch_height c"
    and "unspent (ch_utxoSet c') = unspent (ch_utxoSet c)" and "ch_mempool c' = NewMempool"
proof -
  let ?ps = "block_persister cd ldb" and ?bs = "ch_blocks c" and ?n = "length (ch_blocks c)"
  have ne: "?bs \<noteq> []" and hd: "hd ?bs = createGenesisBlockV2 g" and best: "ch_bestBlock c = Some (last ?bs)"
    and height: "ch_height c = bh_Number (blk_Header (last ?bs))" and led: "unspent (ch_utxoSet c) = ledger_of ?bs"
    using inv by (simp_all add: chain_inv_def)
  have no0: "\<forall>b\<in>set (tl ?bs). bh_Number (blk_Header b) \<noteq> 0" using reg by (simp add: regular_def)
  define m :: u64 where "m = of_nat (?n - 1)"
  have last: "bh_Number (blk_Header (last ?bs)) = m"
    using chain_inv_numbers [OF inv no0, of "?n - 1"] ne by (simp add: last_conv_nth m_def)
  obtain s where s: "ch_storage c = Some s"
    and num_s: "\<forall>i<?n. bs_GetBlockByNumber cd ldb (of_nat i) s = Inr (Some (?bs ! i))"
    and best_s: "if ?n = Suc 0 then ls_Get ldb best_key s = Inl ErrNotFound
      else bs_GetBestBlock cd ldb s = Inr (Some (last ?bs))"
    using st by (auto simp: stored_def)
  have "ch_blocks c' = ch_blocks c \<and> ch_bestBlock c' = ch_bestBlock c \<and> ch_height c' = ch_height c \<and>
    unspent (ch_utxoSet c') = unspent (ch_utxoSet c) \<and> ch_mempool c' = NewMempool"
  proof (cases "?n = Suc 0")
    case True
    then have bs: "?bs = [createGenesisBlockV2 g]" using hd by (cases ?bs) simp_all
    have fresh: "fresh_start ?ps (Some s)"
      using True best_s by (simp add: fresh_start_def fresh_ErrNotFound)
    have v: "validateBlockV2 (createGenesisBlockV2 g) (empty_chain g (Some s)) = Inr ()"
      by (simp add: validateBlockV2_genesis)
    have txs: "blk_Txs (createGenesisBlockV2 g) = []" by (simp add: createGenesisBlockV2_def Let_def)
    show ?thesis
      by (simp add: c'_def s NewBlockchainV2_fresh [OF fresh] addBlockV2_accepts [OF v] best height led bs txs
          ledger_of_def ledger_block_def)
  next
    case False
    then have "0 < ?n - 1" using ne by (cases ?bs) auto
    moreover have "?n - 1 < 2 ^ 64" using regular_length [OF inv no0] ne by (cases ?bs) auto
    moreover have "unat (of_nat m :: u64) = m" if "m < 2 ^ 64" for m
      using that by (simp add: unat_of_nat)
    ultimately have u: "unat (of_nat (?n - 1) :: u64) = ?n - 1" and pos: "0 < ?n - 1" by blast+
    from u pos have nz: "m \<noteq> 0" unfolding m_def by (metis unat_0 less_numeral_extra(3))
    have k: "Suc (unat m) = ?n" using pos unfolding m_def by (simp only: u)
    define c0 where "c0 = (empty_chain g (Some s))\<lparr>ch_height := m, ch_bestBlock := Some (last ?bs)\<rparr>"
    have "load_blocks ?ps s ?n 0 c0 = c0\<lparr>ch_blocks := ch_blocks c0 @ ?bs,
        ch_utxoSet := fold (\<lambda>b. process_stored_txs (blk_Hash b) (blk_Txs b)) ?bs (ch_utxoSet c0)\<rparr>"
      by (rule load_blocks_all) (simp add: num_s)
    moreover have "loadChainFromStorage ?ps (empty_chain g (Some s)) = load_blocks ?ps s ?n 0 c0"
      using False best_s k by (simp add: loadChainFromStorage_def last c0_def k)
    ultimately have "c' = c0\<lparr>ch_blocks := ch_blocks c0 @ ?bs,
        ch_utxoSet := fold (\<lambda>b. process_stored_txs (blk_Hash b) (blk_Txs b)) ?bs (ch_utxoSet c0)\<rparr>"
      using nz by (simp add: c'_def s NewBlockchainV2_def Let_def c0_def)
    then show ?thesis
      by (simp add: c0_def best height last led unspent_replay ledger_of_def)
  qed
  then show "ch_blocks c' = ch_blocks c" and "ch_bestBlock c' = ch_bestBlock c" and "ch_height c' = ch_height c"
    and "unspent (ch_utxoSet c') = unspent (ch_utxoSet c)" and "ch_mempool c' = NewMempool"
    by simp_all
qed

text \<open>
  A node that is stopped and started again on its database finds the chain it left. Take a chain
  reached from an empty database in which no second block claims number zero and every block survives
  its JSON text: a node started on that storage has the same blocks, best block and height, and the
  same unspent outputs. Its pending transactions are gone.
\<close>

theorem restart_keeps_chain:
  assumes "reliable ldb good" and "good (ls_db s0)" and "ls_Get ldb best_key s0 = Inl ErrNotFound"
    and "reachable (block_persister cd ldb) g (Some s0) c"
    and "\<forall>b\<in>set (tl (ch_blocks c)). bh_Number (blk_Header b) \<noteq> 0" and "\<forall>b\<in>set (ch_blocks c). codes cd b"
  defines "c' \<equiv> NewBlockchainV2 (block_persister cd ldb) g (ch_storage c)"
  shows "ch_blocks c' = ch_blocks c \<and> GetBestBlock c' = GetBestBlock c \<and> GetHeight c' = GetHeight c \<and>
    unspent (ch_utxoSet c') = unspent (ch_utxoSet c) \<and> ch_mempool c' = NewMempool"
proof -
  have "fresh_start (block_persister cd ldb) (Some s0)"
    by (simp add: fresh_start_def fresh_ErrNotFound assms(3))
  from reachable_inv [OF assms(4) this] have inv: "chain_inv g c" .
  have reg: "regular cd c" using assms(5,6) by (simp add: regular_def)
  have "stored cd ldb good c" by (rule stored_reachable [OF assms(1-4) reg])
  from restarted [OF assms(1) inv this reg] show ?thesis
    unfolding c'_def GetBestBlock_def GetHeight_def by simp
qed

definition disk :: "(bytes \<rightharpoonup> bytes) ldb_storage" where
  "disk = \<lparr>ls_db = Map.empty, ls_path = ''/data''\<rparr>"

definition disk_ps :: "((bytes \<rightharpoonup> bytes) ldb_storage, store_error) persister" where
  "disk_ps = block_persister (two_block_codec (createGenesisBlockV2 testnet_genesis) first_block) mem_ldb"

definition disk_chain :: "(bytes \<rightharpoonup> bytes) ldb_storage chain" where
  "disk_chain = fst (addBlockV2 disk_ps first_block (NewBlockchainV2 disk_ps testnet_genesis (Some disk)))"

lemma disk_empty: "ls_Get mem_ldb best_key disk = Inl ErrNotFound"
  by (simp add: disk_def ls_Get_def mem_ldb_def)

lemma ch_blocks_disk_chain: "ch_blocks disk_chain = [createGenesisBlockV2 testnet_genesis, first_block]"
proof -
  have fresh: "fresh_start disk_ps (Some disk)"
    by (simp add: fresh_start_def disk_ps_def fresh_ErrNotFound [OF disk_empty])
  have v: "validateBlockV2 (createGenesisBlockV2 testnet_genesis) (empty_chain testnet_genesis (Some disk)) = Inr ()"
    by (simp add: validateBlockV2_genesis)
  have "extends (createGenesisBlockV2 testnet_genesis) first_block"
    by (simp add: extends_def first_block_def createGenesisBlockV2_def zero_header_def Let_def ValidateProofOfWorkV2_def)
  then have "validateBlockV2 first_block (NewBlockchainV2 disk_ps testnet_genesis (Some disk)) = Inr ()"
    by (subst validateBlockV2_iff [where a = "createGenesisBlockV2 testnet_genesis"])
      (simp_all add: NewBlockchainV2_fresh [OF fresh] addBlockV2_accepts [OF v])
  then show ?thesis
    by (simp add: disk_chain_def addBlockV2_accepts(1) NewBlockchainV2_fresh [OF fresh] addBlockV2_accepts(1) [OF v])
qed

theorem restart_keeps_chain_witness:
  "ch_blocks (NewBlockchainV2 disk_ps testnet_genesis (ch_storage disk_chain)) =
     [createGenesisBlockV2 testnet_genesis, first_block]"
proof -
  let ?cd = "two_block_codec (createGenesisBlockV2 testnet_genesis) first_block"
  have n: "bh_Number (blk_Header first_block) \<noteq> 0" by (simp add: first_block_def)
  have r: "reachable (block_persister ?cd mem_ldb) testnet_genesis (Some disk) disk_chain"
    unfolding disk_chain_def disk_ps_def by (rule stepped [OF started offer_block])
  show ?thesis
    using restart_keeps_chain [OF reliable_mem TrueI disk_empty r] n
    by (simp add: ch_blocks_disk_chain codes_two disk_ps_def)
qed

end
