(* ===== verification/StoreRaces.thy ===== *)
theory StoreRaces
  imports BlockIndex Restart
begin

text \<open>
  Blocks stored at the same time. \<^verbatim>\<open>addBlockV2\<close> stores a block after it has given the lock of the chain
  back, and \<^verbatim>\<open>StoreBlock\<close> holds the lock of the database for each of its reads and writes alone, so
  that the calls of two requests interleave. A call is cut at its accesses to the database; a schedule
  is the list of the calls that take the next turn. The turns of the index are what they implement.
\<close>

subsection \<open>Turns\<close>

text \<open>Where a call of \<^verbatim>\<open>StoreBlock\<close> stands, with the text of the block while it still writes it.\<close>

datatype (store_texts: 'a) store_pc = AtHash | AtNumber 'a | AtBest | AtBestBlock bytes | AtSet u64 | Stored "store_error + unit"
  for map: map_store_pc

definition store_turn ::
  "codec \<Rightarrow> 'd leveldb \<Rightarrow> block \<Rightarrow> bytes store_pc \<Rightarrow> 'd ldb_storage \<Rightarrow> 'd ldb_storage \<times> bytes store_pc" where
  "store_turn cd ldb b pc s =
     (case pc of
        AtHash \<Rightarrow>
          (case cd_marshal_block cd b of
             Inl e \<Rightarrow> (s, Stored (Inl (MarshalFailed e)))
           | Inr data \<Rightarrow>
               (case ls_Put ldb (hash_key (hash_bytes (blk_Hash b))) data s of
                  (s1, Some e) \<Rightarrow> (s1, Stored (Inl (StoreByHash e)))
                | (s1, None) \<Rightarrow> (s1, AtNumber data)))
      | AtNumber data \<Rightarrow>
          (case ls_Put ldb (number_key (bh_Number (blk_Header b))) data s of
             (s1, Some e) \<Rightarrow> (s1, Stored (Inl (StoreByNumber e)))
           | (s1, None) \<Rightarrow> (s1, AtBest))
      | AtBest \<Rightarrow>
          (s, case ls_Get ldb best_key s of
                Inr (Some hashData) \<Rightarrow>
                  (case hex_decode (bytes_str hashData) of None \<Rightarrow> AtSet 0 | Some hashBytes \<Rightarrow> AtBestBlock hashBytes)
              | _ \<Rightarrow> AtSet 0)
      | AtBestBlock hashBytes \<Rightarrow> (s, AtSet (best_number (bs_GetBlockByHash cd ldb hashBytes s)))
      | AtSet n \<Rightarrow>
          if n < bh_Number (blk_Header b) then
            (case bs_SetBestBlock ldb b s of
               (s1, Some e) \<Rightarrow> (s1, Stored (Inl (UpdateBest e)))
             | (s1, None) \<Rightarrow> (s1, Stored (Inr ())))
          else (s, Stored (Inr ()))
      | Stored r \<Rightarrow> (s, Stored r))"

lemma store_turn_simps:
  "store_turn cd ldb b AtHash s =
     (case cd_marshal_block cd b of
        Inl e \<Rightarrow> (s, Stored (Inl (MarshalFailed e)))
      | Inr data \<Rightarrow>
          (case ls_Put ldb (hash_key (hash_bytes (blk_Hash b))) data s of
             (s1, Some e) \<Rightarrow> (s1, Stored (Inl (StoreByHash e)))
           | (s1, None) \<Rightarrow> (s1, AtNumber data)))"
  "store_turn cd ldb b (AtNumber data) s =
     (case ls_Put ldb (number_key (bh_Number (blk_Header b))) data s of
        (s1, Some e) \<Rightarrow> (s1, Stored (Inl (StoreByNumber e)))
      | (s1, None) \<Rightarrow> (s1, AtBest))"
  "store_turn cd ldb b AtBest s =
     (s, case ls_Get ldb best_key s of
           Inr (Some hashData) \<Rightarrow>
             (case hex_decode (bytes_str hashData) of None \<Rightarrow> AtSet 0 | Some hashBytes \<Rightarrow> AtBestBlock hashBytes)
         | _ \<Rightarrow> AtSet 0)"
  "store_turn cd ldb b (AtBestBlock h) s = (s, AtSet (best_number (bs_GetBlockByHash cd ldb h s)))"
  "store_turn cd ldb b (AtSet n) s =
     (if n < bh_Number (blk_Header b) then
        (case bs_SetBestBlock ldb b s of
           (s1, Some e) \<Rightarrow> (s1, Stored (Inl (UpdateBest e)))
         | (s1, None) \<Rightarrow> (s1, Stored (Inr ())))
      else (s, Stored (Inr ())))"
  "store_turn cd ldb b (Stored r) s = (s, Stored r)"
  by (simp_all add: store_turn_def)

text \<open>The turns of one call, and those of several: a turn of a call that is not there changes nothing.\<close>

definition store_turns :: "codec \<Rightarrow> 'd leveldb \<Rightarrow> block \<Rightarrow> nat \<Rightarrow> 'd ldb_storage \<Rightarrow> 'd ldb_storage \<times> bytes store_pc" where
  "store_turns cd ldb b k s = ((\<lambda>(s, pc). store_turn cd ldb b pc s) ^^ k) (s, AtHash)"

definition turn_of :: "(block \<Rightarrow> 'p \<Rightarrow> 's \<Rightarrow> 's \<times> 'p) \<Rightarrow> nat \<Rightarrow> 's \<times> (block \<times> 'p) list \<Rightarrow> 's \<times> (block \<times> 'p) list" where
  "turn_of turn i st =
     (if i < length (snd st)
      then (let (b, pc) = snd st ! i; (s', pc') = turn b pc (fst st) in (s', (snd st)[i := (b, pc')])) else st)"

definition run_schedule :: "(block \<Rightarrow> 'p \<Rightarrow> 's \<Rightarrow> 's \<times> 'p) \<Rightarrow> nat list \<Rightarrow> 's \<times> (block \<times> 'p) list \<Rightarrow> 's \<times> (block \<times> 'p) list" where
  "run_schedule turn sched st = fold (turn_of turn) sched st"

text \<open>A call that is not interrupted is \<^verbatim>\<open>StoreBlock\<close>.\<close>

lemma store_turns_StoreBlock:
  "store_turns cd ldb b 5 s = (fst (bs_StoreBlock cd ldb b s), Stored (snd (bs_StoreBlock cd ldb b s)))"
proof -
  let ?f = "\<lambda>(s, pc). store_turn cd ldb b pc s"
  let ?h = "hash_key (hash_bytes (blk_Hash b))" and ?n = "number_key (bh_Number (blk_Header b))"
  have turns: "store_turns cd ldb b 5 s = ?f (?f (?f (?f (?f (s, AtHash)))))"
    by (simp add: store_turns_def eval_nat_numeral)
  show ?thesis
  proof (cases "cd_marshal_block cd b")
    case (Inl e)
    then show ?thesis by (simp add: turns store_turn_simps bs_StoreBlock_def)
  next
    case (Inr data)
    obtain s1 e1 where p1: "ls_Put ldb ?h data s = (s1, e1)" by fastforce
    obtain s2 e2 where p2: "ls_Put ldb ?n data s1 = (s2, e2)" by fastforce
    show ?thesis
    proof (cases "e1 = None \<and> e2 = None")
      case False
      with Inr p1 p2 show ?thesis
        by (cases e1; cases e2) (simp_all add: turns store_turn_simps bs_StoreBlock_def)
    next
      case True
      define num where "num = best_number (bs_GetBestBlock cd ldb s2)"
      have set: "?f (s2, AtSet num) = (fst (bs_StoreBlock cd ldb b s), Stored (snd (bs_StoreBlock cd ldb b s)))"
        using Inr p1 p2 True by (simp add: bs_StoreBlock_def store_turn_simps num_def best_number_def split: prod.split option.split)
      have stays: "(case store_turn cd ldb b (AtSet n) s2 of (s, pc) \<Rightarrow> store_turn cd ldb b pc s) = store_turn cd ldb b (AtSet n) s2"
        for n by (simp add: store_turn_simps(5,6) split: prod.split option.split)
      have "?f (?f (s2, AtBest)) = ?f (s2, AtSet num) \<and> ?f (?f (s2, AtSet num)) = ?f (s2, AtSet num) \<or>
          ?f (?f (s2, AtBest)) = (s2, AtSet num)"
        by (simp add: stays num_def store_turn_simps(3,4) bs_GetBestBlock_def best_number_def
          split: sum.split option.split ldb_error.split)
      then have "?f (?f (?f (s2, AtBest))) = ?f (s2, AtSet num)" by auto
      then show ?thesis using Inr p1 p2 True set by (simp add: turns store_turn_simps(1,2))
    qed
  qed
qed

lemma map_pc_Stored [simp]:
  "map_store_pc f pc = Stored r \<longleftrightarrow> pc = Stored r" "Stored r = map_store_pc f pc \<longleftrightarrow> pc = Stored r"
  by (cases pc; auto)+

subsection \<open>The turns of the index\<close>

definition index_turn :: "block \<Rightarrow> unit store_pc \<Rightarrow> block_index \<Rightarrow> block_index \<times> unit store_pc" where
  "index_turn b pc ix =
     (case pc of
        AtHash \<Rightarrow> (ix\<lparr>bi_hash := (bi_hash ix)(blk_key b \<mapsto> b)\<rparr>, AtNumber ())
      | AtNumber _ \<Rightarrow> (ix\<lparr>bi_number := (bi_number ix)(blk_Number b \<mapsto> b)\<rparr>, AtBest)
      | AtBest \<Rightarrow> (ix, case bi_best ix of None \<Rightarrow> AtSet 0 | Some h \<Rightarrow> AtBestBlock h)
      | AtBestBlock h \<Rightarrow> (ix, AtSet (number_of (bi_hash ix h)))
      | AtSet n \<Rightarrow> (if n < blk_Number b then ix\<lparr>bi_best := Some (blk_key b)\<rparr> else ix, Stored (Inr ()))
      | Stored r \<Rightarrow> (ix, Stored r))"

text \<open>A call and its turns in the index: the text it still writes is that of its block.\<close>

definition pc_implements :: "codec \<Rightarrow> block \<times> bytes store_pc \<Rightarrow> block \<times> unit store_pc \<Rightarrow> bool" where
  "pc_implements cd t it \<longleftrightarrow> fst it = fst t \<and> snd it = map_store_pc (\<lambda>_. ()) (snd t) \<and> codes cd (fst t) \<and>
     (\<forall>data\<in>store_texts (snd t). cd_unmarshal_block cd data = Inr (fst t))"

definition implements ::
  "codec \<Rightarrow> 'd leveldb \<Rightarrow> ('d \<Rightarrow> bool) \<Rightarrow> 'd ldb_storage \<times> (block \<times> bytes store_pc) list \<Rightarrow>
   block_index \<times> (block \<times> unit store_pc) list \<Rightarrow> bool" where
  "implements cd ldb good st ist \<longleftrightarrow> good (ls_db (fst st)) \<and> indexes cd ldb (fst st) (fst ist) \<and>
     list_all2 (pc_implements cd) (snd st) (snd ist)"

lemma turn_implements:
  assumes rel: "reliable ldb good" and good: "good (ls_db s)" and ix: "indexes cd ldb s ix"
    and pc: "pc_implements cd (b, pc) (b', ipc)"
  shows "good (ls_db (fst (store_turn cd ldb b pc s))) \<and>
    indexes cd ldb (fst (store_turn cd ldb b pc s)) (fst (index_turn b' ipc ix)) \<and>
    pc_implements cd (b, snd (store_turn cd ldb b pc s)) (b', snd (index_turn b' ipc ix))"
proof -
  have b: "b' = b" "ipc = map_store_pc (\<lambda>_. ()) pc" "codes cd b" using pc by (auto simp: pc_implements_def)
  obtain enc where enc: "cd_marshal_block cd b = Inr enc" "cd_unmarshal_block cd enc = Inr b"
    using b(3) by (auto simp: codes_def)
  have put: "\<exists>s1. ls_Put ldb k v s = (s1, None) \<and> good (ls_db s1) \<and>
      (\<forall>j. ls_Get ldb j s1 = (if j = k then Inr (Some v) else ls_Get ldb j s))" for k v
    using ls_Put_eq [OF rel good] reliable_Put(2,3) [OF rel good] by blast
  show ?thesis
  proof (cases pc)
    case AtHash
    obtain s1 where s1: "ls_Put ldb (hash_key (blk_key b)) enc s = (s1, None)" "good (ls_db s1)"
        "\<forall>j. ls_Get ldb j s1 = (if j = hash_key (blk_key b) then Inr (Some enc) else ls_Get ldb j s)"
      using put by blast
    have "indexes cd ldb s1 (ix\<lparr>bi_hash := (bi_hash ix)(blk_key b \<mapsto> b)\<rparr>)"
      by (rule indexes_put(1) [OF ix enc(2)]) (use s1(3) in blast)
    then show ?thesis by (simp add: AtHash b store_turn_def index_turn_def enc s1(1,2) pc_implements_def)
  next
    case (AtNumber data)
    then have data: "cd_unmarshal_block cd data = Inr b" using pc by (simp add: pc_implements_def)
    obtain s1 where s1: "ls_Put ldb (number_key (blk_Number b)) data s = (s1, None)" "good (ls_db s1)"
        "\<forall>j. ls_Get ldb j s1 = (if j = number_key (blk_Number b) then Inr (Some data) else ls_Get ldb j s)"
      using put by blast
    have "indexes cd ldb s1 (ix\<lparr>bi_number := (bi_number ix)(blk_Number b \<mapsto> b)\<rparr>)"
      by (rule indexes_put(2) [OF ix data]) (use s1(3) in blast)
    then show ?thesis by (simp add: AtNumber b store_turn_def index_turn_def s1(1,2) pc_implements_def)
  next
    case AtBest
    then show ?thesis
      using ix good by (simp add: b store_turn_def index_turn_def pc_implements_def indexes_def split: option.split)
  next
    case (AtBestBlock h)
    have "best_number (bs_GetBlockByHash cd ldb h s) = number_of (bi_hash ix h)"
      using ix by (simp add: indexes_def best_number_def number_of_def found_def split: option.split)
    then show ?thesis
      using ix good by (simp add: AtBestBlock b store_turn_def index_turn_def pc_implements_def)
  next
    case (AtSet n)
    let ?v = "str_bytes (hex_encode (blk_key b))"
    obtain s1 where s1: "ls_Put ldb best_key ?v s = (s1, None)" "good (ls_db s1)"
        "\<forall>j. ls_Get ldb j s1 = (if j = best_key then Inr (Some ?v) else ls_Get ldb j s)"
      using put by blast
    have "indexes cd ldb s1 (ix\<lparr>bi_best := Some (blk_key b)\<rparr>)"
      by (rule indexes_set_best [OF ix]) (use s1(3) in blast)
    then show ?thesis
      using ix good
      by (simp add: AtSet b store_turn_def index_turn_def bs_SetBestBlock_def s1(1,2) pc_implements_def)
  next
    case (Stored r)
    then show ?thesis using ix good b by (simp add: store_turn_def index_turn_def pc_implements_def)
  qed
qed

lemma schedule_implements:
  assumes rel: "reliable ldb good" and "implements cd ldb good st ist"
  shows "implements cd ldb good (run_schedule (store_turn cd ldb) sched st) (run_schedule index_turn sched ist)"
  using assms(2)
proof (induction sched arbitrary: st ist)
  case (Cons i sched)
  have "implements cd ldb good (turn_of (store_turn cd ldb) i st) (turn_of index_turn i ist)"
  proof (cases "i < length (snd st)")
    case True
    have len: "length (snd ist) = length (snd st)" using Cons.prems by (auto simp: implements_def dest: list_all2_lengthD)
    obtain b pc where t: "snd st ! i = (b, pc)" by fastforce
    obtain b' ipc where it: "snd ist ! i = (b', ipc)" by fastforce
    have "pc_implements cd (b, pc) (b', ipc)"
      using Cons.prems True t it by (auto simp: implements_def dest: list_all2_nthD)
    from turn_implements [OF rel _ _ this] Cons.prems True len show ?thesis
      by (auto simp: implements_def turn_of_def t it split_beta intro!: list_all2_update_cong)
  next
    case False
    have "length (snd ist) = length (snd st)" using Cons.prems by (auto simp: implements_def dest: list_all2_lengthD)
    with False Cons.prems show ?thesis by (simp add: turn_of_def)
  qed
  then show ?case using Cons.IH by (simp add: run_schedule_def)
qed (simp add: run_schedule_def)

text \<open>Calls that begin.\<close>

definition calls :: "block list \<Rightarrow> (block \<times> 'a store_pc) list" where
  "calls bs = map (\<lambda>b. (b, AtHash)) bs"

lemma calls_implement:
  "good (ls_db s) \<Longrightarrow> indexes cd ldb s ix \<Longrightarrow> \<forall>b\<in>set bs. codes cd b \<Longrightarrow> implements cd ldb good (s, calls bs) (ix, calls bs)"
  by (simp add: implements_def calls_def pc_implements_def list_all2_conv_all_nth)

subsection \<open>What every schedule keeps\<close>

definition entered :: "(block \<times> unit store_pc) list \<Rightarrow> block set" where
  "entered ts = {b. \<exists>pc. (b, pc) \<in> set ts \<and> pc \<noteq> AtHash}"

definition numbered :: "(block \<times> unit store_pc) list \<Rightarrow> block set" where
  "numbered ts = {b. \<exists>pc. (b, pc) \<in> set ts \<and> pc \<noteq> AtHash \<and> pc \<noteq> AtNumber ()}"

definition tables :: "block set \<Rightarrow> block_index \<times> (block \<times> unit store_pc) list \<Rightarrow> bool" where
  "tables B st \<longleftrightarrow>
     (\<forall>h b. bi_hash (fst st) h = Some b \<longleftrightarrow> b \<in> B \<union> entered (snd st) \<and> blk_key b = h) \<and>
     (\<forall>n b. bi_number (fst st) n = Some b \<longleftrightarrow> b \<in> B \<union> numbered (snd st) \<and> blk_Number b = n)"

lemma index_turn_pc:
  "snd (index_turn b pc ix) \<noteq> AtHash"
  "snd (index_turn b pc ix) = AtNumber () \<longleftrightarrow> pc = AtHash"
  by (cases pc; simp add: index_turn_def split: option.split)+

lemma turn_sets:
  fixes ix :: block_index
  assumes "distinct (map fst ts)" and "i < length ts" and "ts ! i = (b, pc)"
  defines "ts' \<equiv> ts[i := (b, snd (index_turn b pc ix))]"
  shows "entered ts' = insert b (entered ts)"
    and "numbered ts' = (if pc = AtHash then numbered ts else insert b (numbered ts))"
    and "map fst ts' = map fst ts"
proof -
  have d: "distinct ts" using assms(1) by (simp add: distinct_map)
  have set: "set ts' = insert (b, snd (index_turn b pc ix)) (set ts - {(b, pc)})"
    unfolding ts'_def by (simp add: set_update_distinct [OF d assms(2)] assms(3))
  show "entered ts' = insert b (entered ts)"
    using index_turn_pc(1) [of b pc ix] by (auto simp: entered_def set)
  have at: "snd (index_turn b pc ix) = AtNumber () \<longleftrightarrow> pc = AtHash" by (rule index_turn_pc(2))
  show "numbered ts' = (if pc = AtHash then numbered ts else insert b (numbered ts))"
  proof (cases "pc = AtHash")
    case True
    then have "snd (index_turn b pc ix) = AtNumber ()" using at by simp
    with True show ?thesis by (auto simp: numbered_def set)
  next
    case False
    then have "snd (index_turn b pc ix) \<noteq> AtNumber ()" using at by simp
    with False show ?thesis using index_turn_pc(1) [of b pc ix] by (auto simp: numbered_def set)
  qed
  show "map fst ts' = map fst ts" unfolding ts'_def using assms(2,3) by (simp add: map_update list_update_same_conv)
qed

lemma tables_turn:
  assumes dist: "distinct (map blk_key bs)" "distinct (map blk_Number bs)"
    and fresh: "blk_key ` set bs \<inter> blk_key ` B = {}" "blk_Number ` set bs \<inter> blk_Number ` B = {}"
    and bs: "map fst (snd st) = bs" and tab: "tables B st"
  shows "map fst (snd (turn_of index_turn i st)) = bs" "tables B (turn_of index_turn i st)"
proof -
  obtain ix ts where st: "st = (ix, ts)" by fastforce
  have "map fst (snd (turn_of index_turn i st)) = bs \<and> tables B (turn_of index_turn i st)"
  proof (cases "i < length ts")
    case False
    then show ?thesis using bs tab by (simp add: turn_of_def st)
  next
    case True
    obtain b pc where t: "ts ! i = (b, pc)" by fastforce
    have d: "distinct (map fst ts)" using dist(1) bs by (auto simp: st distinct_map)
    define ts' where "ts' = ts[i := (b, snd (index_turn b pc ix))]"
    note sets = turn_sets [OF d True t, of ix, folded ts'_def]
    have "(b, pc) \<in> set ts" using True t nth_mem by metis
    then have inE: "pc \<noteq> AtHash \<Longrightarrow> b \<in> entered ts" and inN: "pc \<noteq> AtHash \<Longrightarrow> pc \<noteq> AtNumber () \<Longrightarrow> b \<in> numbered ts"
      by (auto simp: entered_def numbered_def)
    have b: "b \<in> set bs" using True t bs by (metis fst_conv length_map nth_map nth_mem snd_conv st)
    have sub: "entered ts \<subseteq> set bs" "numbered ts \<subseteq> set bs"
      using bs by (force simp: entered_def numbered_def st)+
    have key: "x = b" if "x \<in> B \<union> set bs" "blk_key x = blk_key b" for x
      using that b fresh(1) dist(1) unfolding distinct_map inj_on_def by blast
    have num: "x = b" if "x \<in> B \<union> set bs" "blk_Number x = blk_Number b" for x
      using that b fresh(2) dist(2) unfolding distinct_map inj_on_def by blast
    have turned: "turn_of index_turn i st = (fst (index_turn b pc ix), ts')"
      using True by (simp add: turn_of_def st t split_beta ts'_def)
    have "tables B (fst (index_turn b pc ix), ts')"
    proof (cases pc)
      case AtHash
      with tab sub key show ?thesis by (auto simp: tables_def st sets index_turn_def)
    next
      case (AtNumber u)
      with inE tab sub num show ?thesis by (auto simp: tables_def st sets index_turn_def)
    qed (use tab in \<open>auto simp: tables_def st sets index_turn_def insert_absorb [OF inE] insert_absorb [OF inN]\<close>)
    then show ?thesis using sets(3) bs by (simp add: turned [unfolded st] st)
  qed
  then show "map fst (snd (turn_of index_turn i st)) = bs" "tables B (turn_of index_turn i st)" by blast+
qed

lemma tables_schedule:
  assumes "distinct (map blk_key bs)" "distinct (map blk_Number bs)"
    and "blk_key ` set bs \<inter> blk_key ` B = {}" "blk_Number ` set bs \<inter> blk_Number ` B = {}"
    and "map fst (snd st) = bs" and "tables B st"
  shows "map fst (snd (run_schedule index_turn sched st)) = bs \<and> tables B (run_schedule index_turn sched st)"
  using assms(5,6)
  by (induction sched arbitrary: st) (simp_all add: run_schedule_def tables_turn [OF assms(1-4)])

lemma tables_calls: "index_of B ix \<Longrightarrow> tables B (ix, calls bs)"
  by (auto simp: tables_def index_of_def calls_def entered_def numbered_def)

lemma run_tables:
  assumes rel: "reliable ldb good" and good: "good (ls_db s)" and ix: "indexes cd ldb s ix" and io: "index_of B ix"
    and codes: "\<forall>b\<in>set bs. codes cd b" and dist: "distinct (map blk_key bs)" "distinct (map blk_Number bs)"
    and fresh: "blk_key ` set bs \<inter> blk_key ` B = {}" "blk_Number ` set bs \<inter> blk_Number ` B = {}"
  shows "implements cd ldb good (run_schedule (store_turn cd ldb) sched (s, calls bs)) (run_schedule index_turn sched (ix, calls bs))"
    and "tables B (run_schedule index_turn sched (ix, calls bs))"
    and "map fst (snd (run_schedule index_turn sched (ix, calls bs))) = bs"
proof -
  show "implements cd ldb good (run_schedule (store_turn cd ldb) sched (s, calls bs)) (run_schedule index_turn sched (ix, calls bs))"
    by (rule schedule_implements [OF rel calls_implement [where good = good, OF good ix codes]])
  have "map fst (snd (ix, calls bs :: (block \<times> unit store_pc) list)) = bs" by (simp add: calls_def comp_def)
  from tables_schedule [OF dist fresh this tables_calls [OF io]]
  show "tables B (run_schedule index_turn sched (ix, calls bs))"
    and "map fst (snd (run_schedule index_turn sched (ix, calls bs))) = bs" by blast+
qed

lemma tables_done:
  assumes "tables B (ix', its)" and "map fst its = bs" and "\<forall>t\<in>set its. \<exists>r. snd t = Stored r"
    and "b \<in> set bs \<union> B"
  shows "bi_hash ix' (blk_key b) = Some b" "bi_number ix' (blk_Number b) = Some b"
proof -
  have "b \<in> B \<union> entered its \<and> b \<in> B \<union> numbered its"
    using assms(2-4) by (force simp: entered_def numbered_def)
  then show "bi_hash ix' (blk_key b) = Some b" "bi_number ix' (blk_Number b) = Some b"
    using assms(1) by (auto simp: tables_def)
qed

text \<open>
  C12. Blocks with different hashes and numbers that are stored at the same time, whatever the order of
  the reads and writes of the calls, are all found by hash and by number when the calls have returned,
  and so are the blocks that were there before.
\<close>

theorem concurrent_stores_keep_blocks:
  assumes rel: "reliable ldb good" and good: "good (ls_db s)" and ix: "indexes cd ldb s ix" and io: "index_of B ix"
    and codes: "\<forall>b\<in>set bs. codes cd b" and dist: "distinct (map blk_key bs)" "distinct (map blk_Number bs)"
    and fresh: "blk_key ` set bs \<inter> blk_key ` B = {}" "blk_Number ` set bs \<inter> blk_Number ` B = {}"
    and run: "run_schedule (store_turn cd ldb) sched (s, calls bs) = (s', ts)" and returned: "\<forall>t\<in>set ts. \<exists>r. snd t = Stored r"
    and b: "b \<in> set bs \<union> B"
  shows "bs_GetBlockByHash cd ldb (blk_key b) s' = Inr (Some b) \<and> bs_GetBlockByNumber cd ldb (blk_Number b) s' = Inr (Some b)"
proof -
  obtain ix' its where irun: "run_schedule index_turn sched (ix, calls bs) = (ix', its)" by fastforce
  note r = run_tables [OF rel good ix io codes dist fresh, of sched, unfolded run irun]
  have l2: "list_all2 (pc_implements cd) ts its" using r(1) by (simp add: implements_def)
  have "\<forall>t\<in>set its. \<exists>r. snd t = Stored r"
  proof
    fix it assume "it \<in> set its"
    then obtain i where i: "i < length its" "its ! i = it" by (auto simp: in_set_conv_nth)
    then have "pc_implements cd (ts ! i) it" "ts ! i \<in> set ts"
      using list_all2_nthD2 [OF l2 i(1)] list_all2_lengthD [OF l2] by simp_all
    with returned show "\<exists>r. snd it = Stored r" by (auto simp: pc_implements_def)
  qed
  from tables_done [OF r(2) r(3) [simplified] this b] r(1) show ?thesis
    by (simp add: implements_def indexes_def found_def)
qed

subsection \<open>A schedule that loses a block\<close>

lemma race_index:
  assumes io: "index_of B ix" and fresh: "blk_key b1 \<notin> blk_key ` B" "blk_key b2 \<notin> blk_key ` B"
    and num: "number_of (best_of ix) < blk_Number b1" "blk_Number b1 < blk_Number b2"
  shows "\<exists>sched ix'. run_schedule index_turn sched (ix, calls [b1, b2]) = (ix', [(b1, Stored (Inr ())), (b2, Stored (Inr ()))]) \<and>
    bi_best ix' = Some (blk_key b1)"
proof -
  have less: "number_of (best_of ix) < blk_Number b2" using num by (rule order.strict_trans)
  show ?thesis
  proof (cases "bi_best ix")
    case None
    then have "number_of (best_of ix) = 0" by (simp add: best_of_def number_of_def)
    with num(1) less have "0 < blk_Number b1" "0 < blk_Number b2" by simp_all
    with None show ?thesis
      by (intro exI [of _ "[0, 0, 0, 1, 1, 1, 1, 0]"]) (simp add: run_schedule_def turn_of_def index_turn_def calls_def)
  next
    case (Some h)
    have "h \<in> blk_key ` B" using io Some by (auto simp: index_of_def)
    then have "h \<noteq> blk_key b1" "h \<noteq> blk_key b2" using fresh by metis+
    moreover have "number_of (bi_hash ix h) = number_of (best_of ix)" by (simp add: best_of_def Some)
    ultimately show ?thesis
      using Some num(1) less
      by (intro exI [of _ "[0, 0, 0, 0, 1, 1, 1, 1, 1, 0]"]) (simp add: run_schedule_def turn_of_def index_turn_def calls_def)
  qed
qed

text \<open>Two blocks that extend a chain count on from it.\<close>

lemma accepted_numbers:
  assumes inv: "chain_inv g c" and "validateBlockV2 b1 c = Inr ()" "validateBlockV2 b2 (fst (addBlockV2 ps b1 c)) = Inr ()"
    and num: "\<forall>b\<in>set (tl (ch_blocks c)) \<union> {b1, b2}. blk_Number b \<noteq> 0"
  shows "\<forall>i<length (ch_blocks c). blk_Number ((ch_blocks c @ [b1]) ! i) = of_nat i"
    and "blk_Number b1 = of_nat (length (ch_blocks c))" and "blk_Number b1 < blk_Number b2"
    and "\<forall>b\<in>set (ch_blocks c). blk_Number b < blk_Number b1"
proof -
  let ?n = "length (ch_blocks c)"
  define c2 where "c2 = fst (addBlockV2 ps b2 (fst (addBlockV2 ps b1 c)))"
  have blocks: "ch_blocks c2 = ch_blocks c @ [b1, b2]" using assms(2,3) by (simp add: c2_def addBlockV2_accepts(1))
  have inv2: "chain_inv g c2" unfolding c2_def by (intro chain_inv_addBlockV2 inv)
  have "ch_blocks c \<noteq> []" using inv by (simp add: chain_inv_def)
  then have tl2: "\<forall>b\<in>set (tl (ch_blocks c2)). blk_Number b \<noteq> 0" using num by (auto simp: blocks)
  have number: "blk_Number ((ch_blocks c @ [b1, b2]) ! i) = of_nat i" if "i < Suc (Suc ?n)" for i
    using chain_inv_numbers [OF inv2 tl2, of i] that by (simp add: blocks)
  have len: "Suc ?n < 2 ^ 64" using regular_length [OF inv2 tl2] by (simp add: blocks)
  have low: "blk_Number (ch_blocks c ! i) = of_nat i" if "i < ?n" for i using number [of i] that by (simp add: nth_append)
  then show "\<forall>i<?n. blk_Number ((ch_blocks c @ [b1]) ! i) = of_nat i" by (simp add: nth_append)
  show n1: "blk_Number b1 = of_nat ?n" using number [of ?n] by (simp add: nth_append)
  have "blk_Number b2 = of_nat (Suc ?n)" using number [of "Suc ?n"] by (simp add: nth_append)
  then show "blk_Number b1 < blk_Number b2" using of_nat_u64_less [OF _ len, of ?n] n1 by (simp only:)
  have "(of_nat i :: u64) < of_nat ?n" if "i < ?n" for i using that len by (intro of_nat_u64_less) simp_all
  then show "\<forall>b\<in>set (ch_blocks c). blk_Number b < blk_Number b1" using low by (auto simp: n1 in_set_conv_nth)
qed

text \<open>A storage whose index has the blocks of a chain, and its last one as the best, is loaded as that chain.\<close>

lemma index_reloaded:
  fixes c :: "'d ldb_storage chain" and s :: "'d ldb_storage"
  assumes rel: "reliable ldb good" and good: "good (ls_db s)" and inv: "chain_inv g c" and ix: "indexes cd ldb s ix"
    and regular: "\<forall>b\<in>set (tl (ch_blocks c)). blk_Number b \<noteq> 0" "\<forall>b\<in>set (ch_blocks c). codes cd b"
    and found: "\<forall>b\<in>set (ch_blocks c). bi_hash ix (blk_key b) = Some b \<and> bi_number ix (blk_Number b) = Some b"
    and best: "bi_best ix = Some (blk_key (last (ch_blocks c)))" and long: "1 < length (ch_blocks c)"
  shows "ch_blocks (NewBlockchainV2 (block_persister cd ldb) g (Some s)) = ch_blocks c"
proof -
  have by_number: "bs_GetBlockByNumber cd ldb (of_nat i) s = Inr (Some (ch_blocks c ! i))" if "i < length (ch_blocks c)" for i
  proof -
    have "bi_number ix (blk_Number (ch_blocks c ! i)) = Some (ch_blocks c ! i)" using found nth_mem [OF that] by blast
    then show ?thesis using ix by (simp add: chain_inv_numbers [OF inv regular(1) that] indexes_def found_def)
  qed
  have "last (ch_blocks c) \<in> set (ch_blocks c)" using long by (intro last_in_set) auto
  then have "bs_GetBestBlock cd ldb s = Inr (Some (last (ch_blocks c)))"
    using found by (simp add: indexes_best [OF ix] best found_def)
  then have st: "stored cd ldb good (c\<lparr>ch_storage := Some s\<rparr>)" using by_number good long by (simp add: stored_def)
  have reg: "Restart.regular cd (c\<lparr>ch_storage := Some s\<rparr>)" using regular by (simp add: regular_def)
  have "chain_inv g (c\<lparr>ch_storage := Some s\<rparr>)" using inv by (simp add: chain_inv_def)
  from restarted(1) [OF rel this st reg] show ?thesis by simp
qed

text \<open>
  C13. Two blocks accepted one after the other, whose stores overlap, can be stored such that the record
  of the best block falls back to the first: its call reads the record, the other call finishes, and
  then it writes its own. Both calls return without an error, and the node started again has lost
  the second block.
\<close>

theorem concurrent_stores_lose_block:
  fixes c :: "'d ldb_storage chain"
  assumes rel: "reliable ldb good" and good: "good (ls_db s)" and inv: "chain_inv g c"
    and ix: "indexes cd ldb s ix" and io: "index_of (set (ch_blocks c)) ix"
    and v: "validateBlockV2 b1 c = Inr ()" "validateBlockV2 b2 (fst (addBlockV2 (block_persister cd ldb) b1 c)) = Inr ()"
    and num: "\<forall>b\<in>set (tl (ch_blocks c)) \<union> {b1, b2}. blk_Number b \<noteq> 0"
    and codes: "\<forall>b\<in>set (ch_blocks c) \<union> {b1, b2}. codes cd b"
    and hashes: "blk_key b1 \<notin> blk_key ` set (ch_blocks c)" "blk_key b2 \<notin> blk_key ` set (ch_blocks c)" "blk_key b1 \<noteq> blk_key b2"
  shows "\<exists>sched s'. run_schedule (store_turn cd ldb) sched (s, calls [b1, b2]) = (s', [(b1, Stored (Inr ())), (b2, Stored (Inr ()))]) \<and>
    ch_blocks (NewBlockchainV2 (block_persister cd ldb) g (Some s')) = ch_blocks c @ [b1]"
proof -
  define c1 where "c1 = fst (addBlockV2 (block_persister cd ldb) b1 c)"
  have blocks: "ch_blocks c1 = ch_blocks c @ [b1]" using v(1) by (simp add: c1_def addBlockV2_accepts(1))
  have ne: "ch_blocks c \<noteq> []" using inv by (simp add: chain_inv_def)
  note n = accepted_numbers(3,4) [OF inv v num]
  have "0 < blk_Number b1" using num by (simp add: word_gt_0)
  then have low: "number_of (best_of ix) < blk_Number b1"
    using n(2) io by (auto simp: number_of_def best_of_def index_of_def split: option.splits)
  obtain sched ix' where irun:
    "run_schedule index_turn sched (ix, calls [b1, b2]) = (ix', [(b1, Stored (Inr ())), (b2, Stored (Inr ()))])"
    and best: "bi_best ix' = Some (blk_key b1)"
    using race_index [OF io hashes(1,2) low n(1)] by blast
  have "\<forall>b\<in>set (ch_blocks c). blk_Number b < blk_Number b2" using n order.strict_trans by blast
  then have fresh: "distinct (map blk_key [b1, b2])" "distinct (map blk_Number [b1, b2])"
      "blk_key ` set [b1, b2] \<inter> blk_key ` set (ch_blocks c) = {}" "blk_Number ` set [b1, b2] \<inter> blk_Number ` set (ch_blocks c) = {}"
    using hashes n by (auto simp: image_iff dest: order.strict_implies_not_eq)
  have codes2: "\<forall>b\<in>set [b1, b2]. codes cd b" using codes by simp
  obtain s' ts where run: "run_schedule (store_turn cd ldb) sched (s, calls [b1, b2]) = (s', ts)" by fastforce
  note r = run_tables [OF rel good ix io codes2 fresh, of sched, unfolded run irun]
  have ts: "ts = [(b1, Stored (Inr ())), (b2, Stored (Inr ()))]"
    using r(1) by (auto simp: implements_def pc_implements_def list_all2_Cons2)
  have "ch_blocks (NewBlockchainV2 (block_persister cd ldb) g (Some s')) = ch_blocks c1"
  proof (rule index_reloaded [OF rel])
    show "good (ls_db s')" "indexes cd ldb s' ix'" using r(1) by (simp_all add: implements_def)
    show "chain_inv g c1" unfolding c1_def by (rule chain_inv_addBlockV2 [OF inv])
    show "\<forall>b\<in>set (ch_blocks c1). bi_hash ix' (blk_key b) = Some b \<and> bi_number ix' (blk_Number b) = Some b"
      using tables_done [OF r(2) r(3) [simplified snd_conv]] by (simp add: blocks)
  qed (use num codes ne best in \<open>auto simp: blocks\<close>)
  with run ts show ?thesis by (auto simp: blocks)
qed

subsection \<open>Two blocks on the genesis block\<close>

definition racing1 :: block where
  "racing1 = first_block\<lparr>blk_Hash := blk_Hash (createGenesisBlockV2 testnet_genesis) + 1\<rparr>"

definition racing2 :: block where
  "racing2 = racing1\<lparr>blk_Header := (blk_Header racing1)\<lparr>bh_ParentHash := blk_Hash racing1, bh_Number := 2\<rparr>,
     blk_Hash := blk_Hash (createGenesisBlockV2 testnet_genesis) + 2\<rparr>"

text \<open>A codec for a list of at most 256 blocks.\<close>

fun position :: "block list \<Rightarrow> block \<Rightarrow> nat option" where
  "position [] b = None"
| "position (x # xs) b = (if x = b then Some 0 else map_option Suc (position xs b))"

definition listing_codec :: "block list \<Rightarrow> codec" where
  "listing_codec bs =
     \<lparr>cd_marshal_block = (\<lambda>b. case position bs b of None \<Rightarrow> Inl ''unsupported'' | Some i \<Rightarrow> Inr [of_nat i]),
      cd_unmarshal_block = (\<lambda>d. case d of [x] \<Rightarrow> if unat x < length bs then Inr (bs ! unat x) else Inl ''syntax'' | _ \<Rightarrow> Inl ''syntax''),
      cd_marshal_tx = (\<lambda>x. Inl ''unsupported''), cd_unmarshal_tx = (\<lambda>d. Inl ''syntax'')\<rparr>"

lemma position_nth: "b \<in> set bs \<Longrightarrow> \<exists>i<length bs. position bs b = Some i \<and> bs ! i = b"
  by (induction bs) auto

lemma codes_listing: "b \<in> set bs \<Longrightarrow> length bs \<le> 256 \<Longrightarrow> codes (listing_codec bs) b"
  using position_nth [of b bs] by (auto simp: codes_def listing_codec_def unat_of_nat take_bit_eq_mod)

abbreviation genesis0 :: block where
  "genesis0 \<equiv> createGenesisBlockV2 testnet_genesis"

definition racing_codec :: codec where
  "racing_codec = listing_codec [genesis0, racing1, racing2]"

definition racing_disk :: "(bytes \<rightharpoonup> bytes) ldb_storage" where
  "racing_disk = store_all racing_codec mem_ldb [genesis0] disk"

definition racing_chain :: "(bytes \<rightharpoonup> bytes) ldb_storage chain" where
  "racing_chain = NewBlockchainV2 (block_persister racing_codec mem_ldb) testnet_genesis None"

lemma racing_codes: "\<forall>b\<in>{genesis0, racing1, racing2}. codes racing_codec b"
  unfolding racing_codec_def by (intro ballI codes_listing) simp_all

lemma racing_index:
  "indexes racing_codec mem_ldb racing_disk (index_block genesis0 empty_index)" "index_of {genesis0} (index_block genesis0 empty_index)"
proof -
  have "indexes racing_codec mem_ldb disk empty_index" unfolding disk_def by (rule empty_storage)
  then show "indexes racing_codec mem_ldb racing_disk (index_block genesis0 empty_index)"
    unfolding racing_disk_def using store_all_indexes [OF reliable_mem TrueI, where bs = "[genesis0]"] racing_codes by simp
  show "index_of {genesis0} (index_block genesis0 empty_index)"
    by (rule index_of_insert [OF index_of_empty]) simp_all
qed

lemma racing_numbers: "blk_Number racing1 = 1" "blk_Number racing2 = 2"
  by (simp_all add: racing1_def racing2_def first_block_def)

lemma racing_hashes:
  "blk_Hash racing1 \<noteq> blk_Hash genesis0" "blk_Hash racing2 \<noteq> blk_Hash genesis0" "blk_Hash racing1 \<noteq> blk_Hash racing2"
  by (simp_all add: racing1_def racing2_def)

lemma racing_accepted:
  "ch_blocks racing_chain = [genesis0]" "chain_inv testnet_genesis racing_chain"
  "validateBlockV2 racing1 racing_chain = Inr ()"
  "validateBlockV2 racing2 (fst (addBlockV2 (block_persister racing_codec mem_ldb) racing1 racing_chain)) = Inr ()"
proof -
  let ?e = "empty_chain testnet_genesis None :: (bytes \<rightharpoonup> bytes) ldb_storage chain"
  have v: "validateBlockV2 genesis0 ?e = Inr ()" by (simp add: validateBlockV2_genesis)
  note start = racing_chain_def NewBlockchainV2_fresh [OF fresh_None] addBlockV2_accepts [OF v]
  show "ch_blocks racing_chain = [genesis0]" by (simp add: start)
  show "chain_inv testnet_genesis racing_chain"
    unfolding racing_chain_def by (rule reachable_inv [OF reachable.started fresh_None])
  have "extends genesis0 racing1"
    by (simp add: extends_def racing1_def first_block_def createGenesisBlockV2_def zero_header_def Let_def ValidateProofOfWorkV2_def)
  then show v1: "validateBlockV2 racing1 racing_chain = Inr ()"
    by (subst validateBlockV2_iff [where a = genesis0]) (simp_all add: start)
  have "extends racing1 racing2"
    by (simp add: extends_def racing2_def racing1_def first_block_def zero_header_def ValidateProofOfWorkV2_def)
  then show "validateBlockV2 racing2 (fst (addBlockV2 (block_persister racing_codec mem_ldb) racing1 racing_chain)) = Inr ()"
    by (subst validateBlockV2_iff [where a = racing1]) (simp_all add: addBlockV2_accepts [OF v1])
qed

theorem concurrent_stores_keep_blocks_witness:
  "bs_GetBlockByNumber racing_codec mem_ldb 2
     (fst (run_schedule (store_turn racing_codec mem_ldb) [0, 0, 0, 1, 1, 1, 1, 0] (racing_disk, calls [racing1, racing2]))) =
   Inr (Some racing2)"
proof -
  let ?sched = "[0, 0, 0, 1, 1, 1, 1, 0] :: nat list"
  obtain s' ts where run: "run_schedule (store_turn racing_codec mem_ldb) ?sched (racing_disk, calls [racing1, racing2]) = (s', ts)"
    by fastforce
  have codes: "\<forall>b\<in>set [racing1, racing2]. codes racing_codec b" using racing_codes by simp
  have "blk_Number genesis0 = 0" by simp
  then have dist: "distinct (map blk_key [racing1, racing2])" "distinct (map blk_Number [racing1, racing2])"
    "blk_key ` set [racing1, racing2] \<inter> blk_key ` {genesis0} = {}" "blk_Number ` set [racing1, racing2] \<inter> blk_Number ` {genesis0} = {}"
    using racing_hashes by (auto simp: racing_numbers)
  have "implements racing_codec mem_ldb (\<lambda>_. True) (s', ts)
      (run_schedule index_turn ?sched (index_block genesis0 empty_index, calls [racing1, racing2]))"
    using run_tables(1) [OF reliable_mem _ racing_index codes dist, of ?sched] run by simp
  moreover have "snd (run_schedule index_turn ?sched (index_block genesis0 empty_index, calls [racing1, racing2])) =
      [(racing1, Stored (Inr ())), (racing2, Stored (Inr ()))]"
    by (simp add: run_schedule_def turn_of_def index_turn_def calls_def index_block_def empty_index_def racing_numbers number_of_def best_of_def)
  ultimately have "\<forall>t\<in>set ts. \<exists>r. snd t = Stored r"
    by (auto simp: implements_def pc_implements_def list_all2_Cons2)
  from concurrent_stores_keep_blocks [OF reliable_mem TrueI racing_index codes dist run this, of racing2] run
  show ?thesis by (simp add: racing_numbers)
qed

theorem concurrent_stores_lose_block_witness:
  "\<exists>sched s'. run_schedule (store_turn racing_codec mem_ldb) sched (racing_disk, calls [racing1, racing2]) =
        (s', [(racing1, Stored (Inr ())), (racing2, Stored (Inr ()))]) \<and>
      ch_blocks (NewBlockchainV2 (block_persister racing_codec mem_ldb) testnet_genesis (Some s')) = [genesis0, racing1]"
  using concurrent_stores_lose_block [OF reliable_mem TrueI racing_accepted(2) racing_index(1) _ racing_accepted(3,4)]
    racing_codes racing_hashes racing_index(2)
  by (simp add: racing_accepted(1) racing_numbers)

end
