(* ===== verification/Wire.thy ===== *)
theory Wire
  imports GoFloat GoStrings CoreTypes
begin

text \<open>
  The values that cross the JSON-RPC boundary. \<open>gojson\<close> is what \<^verbatim>\<open>json.Unmarshal\<close> makes of a
  JSON text in an \<^verbatim>\<open>interface{}\<close>: every number is a \<^verbatim>\<open>float64\<close>, an object is a map, given here
  by its entries with distinct keys. \<open>rpc_value\<close> is what a handler puts into a reply, with its Go
  type; \<open>wire\<close> is such a value as the receiver decodes it, a number rounded to the nearest
  \<^verbatim>\<open>float64\<close>.
\<close>

datatype gojson =
  JNil | JBool bool | JNum f64 | JStr string | JArr "gojson list" | JObj "(string \<times> gojson) list"

datatype rpc_value =
  VNil | VBool bool | VU64 u64 | VU32 u32 | VI64 int | VF64 f64 | VStr string
  | VArr "rpc_value list" | VObj "(string \<times> rpc_value) list"

primrec wire :: "rpc_value \<Rightarrow> gojson" where
  "wire VNil = JNil"
| "wire (VBool b) = JBool b"
| "wire (VU64 n) = JNum (f64_of_u64 n)"
| "wire (VU32 n) = JNum (f64_of_nat (unat n))"
| "wire (VI64 i) = JNum (f64_of_int i)"
| "wire (VF64 x) = JNum x"
| "wire (VStr s) = JStr s"
| "wire (VArr vs) = JArr (map wire vs)"
| "wire (VObj kvs) = JObj (map (map_prod id wire) kvs)"

text \<open>The one thing \<^verbatim>\<open>json.Marshal\<close> refuses among these: a float that is not a number or infinite.\<close>

fun f64_finite :: "f64 \<Rightarrow> bool" where
  "f64_finite (FFin s m e) = True"
| "f64_finite _ = False"

primrec marshals :: "rpc_value \<Rightarrow> bool" where
  "marshals VNil = True"
| "marshals (VBool b) = True"
| "marshals (VU64 n) = True"
| "marshals (VU32 n) = True"
| "marshals (VI64 i) = True"
| "marshals (VF64 x) = f64_finite x"
| "marshals (VStr s) = True"
| "marshals (VArr vs) = list_all (\<lambda>b. b) (map marshals vs)"
| "marshals (VObj kvs) = list_all snd (map (map_prod id marshals) kvs)"

primrec json_finite :: "gojson \<Rightarrow> bool" where
  "json_finite JNil = True"
| "json_finite (JBool b) = True"
| "json_finite (JNum x) = f64_finite x"
| "json_finite (JStr s) = True"
| "json_finite (JArr vs) = list_all (\<lambda>b. b) (map json_finite vs)"
| "json_finite (JObj kvs) = list_all snd (map (map_prod id json_finite) kvs)"

subsection \<open>Type assertions\<close>

text \<open>\<^verbatim>\<open>v, ok := m[k].(T)\<close>: a missing key is a nil interface, whose assertion fails like that of any
  other type.\<close>

fun as_num :: "gojson option \<Rightarrow> f64 option" where
  "as_num (Some (JNum x)) = Some x"
| "as_num _ = None"

fun as_str :: "gojson option \<Rightarrow> string option" where
  "as_str (Some (JStr s)) = Some s"
| "as_str _ = None"

fun as_arr :: "gojson option \<Rightarrow> gojson list option" where
  "as_arr (Some (JArr vs)) = Some vs"
| "as_arr _ = None"

fun as_obj :: "gojson option \<Rightarrow> (string \<times> gojson) list option" where
  "as_obj (Some (JObj kvs)) = Some kvs"
| "as_obj _ = None"

lemma map_of_wire [simp]: "map_of (map (map_prod id wire) kvs) k = map_option wire (map_of kvs k)"
  by (induction kvs) (auto simp: map_prod_def)

subsection \<open>Numbers on the wire\<close>

text \<open>An integer of up to 53 bits arrives exactly, whatever its Go type.\<close>

lemma f64_of_int_nat: "f64_of_int (int n) = f64_of_nat n"
  by (simp add: f64_of_int_def f64_of_nat_def)

lemma u32_of_wire: "u32_of_f64 pl (f64_of_nat (unat (w :: u32))) = w"
proof -
  have less: "unat w < 2 ^ 32" using unsigned_less [of w] by simp
  then have "holds_nat (f64_of_nat (unat w)) (unat w)" by (intro holds_nat_of_nat) simp
  moreover have "uint w < 2 ^ LENGTH(32)" by (rule unsigned_less)
  ultimately show ?thesis by (simp add: u32_of_f64_def holds_nat_trunc)
qed

lemma int_of_wire:
  assumes "n < 2 ^ 53"
  shows "int_of_f64 pl (f64_of_int (int n)) = int n"
  using holds_nat_trunc [OF holds_nat_of_nat [OF assms]] assms
  by (simp add: int_of_f64_def f64_of_int_nat nat_less_iff)

lemma bitlen_le: "n < 2 ^ k \<Longrightarrow> bitlen n \<le> k"
proof (cases "n = 0")
  case False
  assume "n < 2 ^ k"
  moreover have "2 ^ (bitlen n - 1) \<le> n" "0 < bitlen n" using bitlen_bounds [of n] False by simp_all
  ultimately have "(2::nat) ^ (bitlen n - 1) < 2 ^ k" by linarith
  then have "bitlen n - 1 < k" by simp
  then show ?thesis by simp
qed simp

lemma f64_round_finite:
  assumes "p < 2 ^ 1000"
  shows "f64_finite (f64_round s p 1)"
proof -
  have "bitlen p \<le> 1000" using assms by (rule bitlen_le)
  then have "round_exp p 1 \<le> 948" by (simp add: round_exp_def Let_def)
  then show ?thesis by (simp add: f64_round_def Let_def)
qed

lemma f64_of_int_finite: "- (2 ^ 63) \<le> i \<Longrightarrow> i < 2 ^ 63 \<Longrightarrow> f64_finite (f64_of_int i)"
proof -
  assume "- (2 ^ 63) \<le> i" "i < 2 ^ 63"
  then have "\<bar>i\<bar> \<le> 2 ^ 63" by (simp add: abs_le_iff)
  then have "nat \<bar>i\<bar> \<le> 2 ^ 63" by (simp add: nat_le_iff)
  also have "(2::nat) ^ 63 < 2 ^ 1000" by (rule power_strict_increasing) simp_all
  finally show ?thesis unfolding f64_of_int_def by (rule f64_round_finite)
qed

end
