(* ===== verification/BlockData.thy ===== *)
theory BlockData
  imports Wire Utxo Consensus
begin

text \<open>
  The JSON form of blocks and transactions in \<^verbatim>\<open>rpc/server_v2.go\<close>: the transactions of a block
  template as \<^verbatim>\<open>handleCreateBlockTemplateV2\<close> writes them, and a submitted block as
  \<^verbatim>\<open>parseBlockData\<close> reads it. \<open>parse_time\<close> is \<^verbatim>\<open>time.Parse\<close> with the layout
  \<^verbatim>\<open>time.RFC3339\<close>.
\<close>

subsection \<open>Writing a template\<close>

definition output_json :: "tx_output \<Rightarrow> rpc_value" where
  "output_json out = VObj [(''address'', VStr (hex_encode (addr_bytes (out_Address out)))), (''amount'', VU64 (out_Amount out))]"

definition input_json :: "tx_input \<Rightarrow> rpc_value" where
  "input_json inp = VObj [(''previousTxHash'', VStr (hex_encode (hash_bytes (in_PreviousTxHash inp)))),
     (''index'', VU32 (in_Index inp))]"

definition tx_json :: "transaction \<Rightarrow> rpc_value" where
  "tx_json tx =
     VObj [(''hash'', VStr (hex_encode (hash_bytes (tx_Hash tx)))),
       (''from'', VStr (hex_encode (addr_bytes (tx_From tx)))),
       (''to'', VStr (hex_encode (addr_bytes (tx_To tx)))),
       (''amount'', VU64 (tx_Amount tx)), (''fee'', VU64 (tx_Fee tx)), (''nonce'', VU64 (tx_Nonce tx)),
       (''timestamp'', VI64 (tx_Timestamp tx div 1000000000)),
       (''outputs'', VArr (map output_json (tx_Outputs tx))),
       (''inputs'', VArr (map input_json (tx_Inputs tx)))]"

definition template_json :: "block \<Rightarrow> rpc_value" where
  "template_json b =
     VObj [(''number'', VU64 (bh_Number (blk_Header b))), (''difficulty'', VU64 (bh_Difficulty (blk_Header b))),
       (''parentHash'', VStr (hex_encode (hash_bytes (bh_ParentHash (blk_Header b))))),
       (''timestamp'', VI64 (bh_Timestamp (blk_Header b) div 1000000000)),
       (''miner'', VStr (hex_encode (addr_bytes (bh_Miner (blk_Header b))))),
       (''transactions'', VArr (map tx_json (blk_Txs b)))]"

subsection \<open>Reading a block\<close>

text \<open>\<^verbatim>\<open>for _, c := range s\<close> ranges over runes.\<close>

definition isHexString :: "string \<Rightarrow> bool" where
  "isHexString s = list_all (\<lambda>c. 48 \<le> c \<and> c \<le> 57 \<or> 97 \<le> c \<and> c \<le> 102 \<or> 65 \<le> c \<and> c \<le> 70) (go_runes s)"

text \<open>\<^verbatim>\<open>if x, ok := m[k].(float64); ok { f = uint64(x) }\<close>, with \<open>f\<close> zero before.\<close>

definition num_field :: "platform \<Rightarrow> (string \<times> gojson) list \<Rightarrow> string \<Rightarrow> u64" where
  "num_field pl m k = (case as_num (map_of m k) of Some x \<Rightarrow> u64_of_f64 pl x | None \<Rightarrow> 0)"

text \<open>\<^verbatim>\<open>copy(h[:], b)\<close> of the decoded text, whatever its length, if it decodes.\<close>

definition hash_field :: "(string \<times> gojson) list \<Rightarrow> string \<Rightarrow> hash" where
  "hash_field m k =
     (case as_str (map_of m k) of
        Some s \<Rightarrow> (case hex_decode s of Some b \<Rightarrow> hash_of b | None \<Rightarrow> 0)
      | None \<Rightarrow> 0)"

definition addr_field :: "(string \<times> gojson) list \<Rightarrow> string \<Rightarrow> address" where
  "addr_field m k = (case as_str (map_of m k) of Some s \<Rightarrow> AddressFromString s | None \<Rightarrow> 0)"

definition number_of :: "gojson \<Rightarrow> f64 option" where
  "number_of v = as_num (Some v)"

definition output_address :: "platform \<Rightarrow> gojson \<Rightarrow> address option" where
  "output_address pl v =
     (case v of
        JStr s \<Rightarrow>
          if length s = 40 \<and> isHexString s then map_option addr_of (hex20 s)
          else Some (AddressFromString s)
      | JArr bs \<Rightarrow>
          if length bs = 20 then
            (let addrBytes = map (u8_of_f64 pl) (List.map_filter number_of bs)
             in if length addrBytes = 20 then Some (addr_of addrBytes) else None)
          else None
      | _ \<Rightarrow> None)"

definition parse_output :: "platform \<Rightarrow> (string \<times> gojson) list \<Rightarrow> tx_output" where
  "parse_output pl m =
     \<lparr>out_Address =
        (case map_of m ''address'' of
           Some v \<Rightarrow> (case output_address pl v of Some a \<Rightarrow> a | None \<Rightarrow> 0)
         | None \<Rightarrow> 0),
      out_Amount = num_field pl m ''amount''\<rparr>"

text \<open>A \<^verbatim>\<open>[]byte\<close> never comes out of a JSON text, so that no signature and no data are read.\<close>

definition parse_input :: "platform \<Rightarrow> (string \<times> gojson) list \<Rightarrow> tx_input" where
  "parse_input pl m =
     \<lparr>in_PreviousTxHash = hash_field m ''previousTxHash'',
      in_Index = (case as_num (map_of m ''index'') of Some x \<Rightarrow> u32_of_f64 pl x | None \<Rightarrow> 0),
      in_Signature = []\<rparr>"

text \<open>The elements of an array that are objects; the others are skipped.\<close>

definition objects :: "gojson list option \<Rightarrow> (string \<times> gojson) list list" where
  "objects vs = (case vs of Some vs \<Rightarrow> List.map_filter (\<lambda>v. as_obj (Some v)) vs | None \<Rightarrow> [])"

definition parse_tx :: "platform \<Rightarrow> (string \<Rightarrow> gotime option) \<Rightarrow> (string \<times> gojson) list \<Rightarrow> transaction" where
  "parse_tx pl parse_time m =
     (let tx = \<lparr>tx_From = addr_field m ''from'', tx_To = addr_field m ''to'', tx_Amount = num_field pl m ''amount'',
            tx_Nonce = num_field pl m ''nonce'', tx_Fee = num_field pl m ''fee'',
            tx_GasUsed = num_field pl m ''gasUsed'', tx_GasPrice = num_field pl m ''gasPrice'',
            tx_Data = [], tx_Signature = [], tx_Hash = hash_field m ''hash'',
            tx_Inputs = map (parse_input pl) (objects (as_arr (map_of m ''inputs''))),
            tx_Outputs = map (parse_output pl) (objects (as_arr (map_of m ''outputs''))),
            tx_Timestamp =
              (case as_str (map_of m ''timestamp'') of
                 Some s \<Rightarrow> (case parse_time s of Some t \<Rightarrow> t | None \<Rightarrow> zero_time)
               | None \<Rightarrow> zero_time)\<rparr>
      in if tx_Hash tx = 0 then tx\<lparr>tx_Hash := CalculateTransactionHash tx\<rparr> else tx)"

definition need :: "string \<Rightarrow> 'a option \<Rightarrow> string + 'a" where
  "need e x = (case x of Some v \<Rightarrow> Inr v | None \<Rightarrow> Inl e)"

definition hash32 :: "string \<Rightarrow> bytes option" where
  "hash32 s = (case hex_decode s of Some b \<Rightarrow> if length b = 32 then Some b else None | None \<Rightarrow> None)"

definition parseBlockData :: "platform \<Rightarrow> (string \<Rightarrow> gotime option) \<Rightarrow> (string \<times> gojson) list \<Rightarrow> string + block" where
  "parseBlockData pl parse_time data =
     rbind (need ''invalid number'' (as_num (map_of data ''number''))) (\<lambda>number.
     rbind (need ''invalid difficulty'' (as_num (map_of data ''difficulty''))) (\<lambda>difficulty.
     rbind (need ''invalid nonce'' (as_num (map_of data ''nonce''))) (\<lambda>nonce.
     rbind (need ''invalid hash'' (as_str (map_of data ''hash''))) (\<lambda>hashStr.
     rbind (need ''invalid hash format'' (hash32 hashStr)) (\<lambda>hashBytes.
     rbind (need ''invalid parentHash'' (as_str (map_of data ''parentHash''))) (\<lambda>parentHashStr.
     rbind (need ''invalid parentHash format'' (hash32 parentHashStr)) (\<lambda>parentHashBytes.
     rbind (need ''invalid timestamp'' (as_num (map_of data ''timestamp''))) (\<lambda>timestamp.
       (let transactions = map (parse_tx pl parse_time) (objects (as_arr (map_of data ''transactions'')))
        in Inr \<lparr>blk_Header = zero_header\<lparr>bh_Number := u64_of_f64 pl number, bh_Difficulty := u64_of_f64 pl difficulty,
                  bh_Nonce := u64_of_f64 pl nonce, bh_Timestamp := int_of_f64 pl timestamp * 1000000000,
                  bh_ParentHash := hash_of parentHashBytes\<rparr>,
                blk_Txs = transactions, blk_Hash = hash_of hashBytes\<rparr>)))))))))"

subsection \<open>What is written is read back\<close>

lemma isHexString_hex [simp]: "isHexString (hex_encode bs)"
proof -
  have "is_ascii (hex_encode bs)"
    using set_hex_encode hex_not_space by (fastforce simp: is_ascii_def)
  moreover have "c \<in> set (hex_encode bs) \<Longrightarrow> c \<in> hex_alphabet" for c
    using set_hex_encode by blast
  then have "\<forall>c\<in>set (hex_encode bs). 48 \<le> (of_char c :: nat) \<and> (of_char c :: nat) \<le> 57 \<or>
      97 \<le> (of_char c :: nat) \<and> (of_char c :: nat) \<le> 102 \<or> 65 \<le> (of_char c :: nat) \<and> (of_char c :: nat) \<le> 70"
    by (force simp: hex_alphabet_def)
  ultimately show ?thesis by (simp add: isHexString_def go_runes_ascii list_all_iff)
qed

lemma hex20_addr [simp]: "hex20 (hex_encode (addr_bytes a)) = Some (addr_bytes a)"
  by (simp add: hex20_def)

lemma hash32_hash [simp]: "hash32 (hex_encode (hash_bytes h)) = Some (hash_bytes h)"
  by (simp add: hash32_def)

lemma AddressFromString_hex_bytes [simp]: "AddressFromString (hex_encode (addr_bytes a)) = a"
  using AddressFromString_hex [of a] by (simp add: Address_String_def)

lemmas codec_back [simp] = hashc.dec_enc addrc.dec_enc

lemma objects_JObj [simp]: "objects (Some (map (\<lambda>x. JObj (g x)) xs)) = map g xs"
  by (induction xs) (simp_all add: objects_def map_filter_simps)

definition output_entries :: "tx_output \<Rightarrow> (string \<times> gojson) list" where
  "output_entries out = [(''address'', JStr (hex_encode (addr_bytes (out_Address out)))),
     (''amount'', JNum (f64_of_u64 (out_Amount out)))]"

definition input_entries :: "tx_input \<Rightarrow> (string \<times> gojson) list" where
  "input_entries inp = [(''previousTxHash'', JStr (hex_encode (hash_bytes (in_PreviousTxHash inp)))),
     (''index'', JNum (f64_of_nat (unat (in_Index inp))))]"

lemma wire_output: "wire (output_json out) = JObj (output_entries out)"
  by (simp add: output_json_def output_entries_def)

lemma wire_input: "wire (input_json inp) = JObj (input_entries inp)"
  by (simp add: input_json_def input_entries_def)

lemma parse_output_entries:
  "unat (out_Amount out) < 2 ^ 53 \<Longrightarrow> parse_output pl (output_entries out) = out"
  by (cases out) (simp add: parse_output_def output_entries_def output_address_def num_field_def u64_f64_roundtrip)

lemma parse_input_entries: "parse_input pl (input_entries inp) = inp\<lparr>in_Signature := []\<rparr>"
  by (cases inp) (simp add: parse_input_def input_entries_def hash_field_def u32_of_wire)

text \<open>The part of a transaction that the JSON of a template carries.\<close>

definition tx_carried :: "transaction \<Rightarrow> transaction" where
  "tx_carried tx = tx\<lparr>tx_GasUsed := 0, tx_GasPrice := 0, tx_Data := [], tx_Signature := [],
     tx_Inputs := map (\<lambda>i. i\<lparr>in_Signature := []\<rparr>) (tx_Inputs tx), tx_Timestamp := zero_time\<rparr>"

definition tx_entries :: "transaction \<Rightarrow> (string \<times> gojson) list" where
  "tx_entries tx =
     [(''hash'', JStr (hex_encode (hash_bytes (tx_Hash tx)))),
      (''from'', JStr (hex_encode (addr_bytes (tx_From tx)))),
      (''to'', JStr (hex_encode (addr_bytes (tx_To tx)))),
      (''amount'', JNum (f64_of_u64 (tx_Amount tx))), (''fee'', JNum (f64_of_u64 (tx_Fee tx))),
      (''nonce'', JNum (f64_of_u64 (tx_Nonce tx))),
      (''timestamp'', JNum (f64_of_int (tx_Timestamp tx div 1000000000))),
      (''outputs'', JArr (map (wire \<circ> output_json) (tx_Outputs tx))),
      (''inputs'', JArr (map (wire \<circ> input_json) (tx_Inputs tx)))]"

lemma wire_tx: "wire (tx_json tx) = JObj (tx_entries tx)"
  by (simp add: tx_json_def tx_entries_def)

text \<open>Amounts that a \<^verbatim>\<open>float64\<close> holds exactly.\<close>

definition tx_small :: "transaction \<Rightarrow> bool" where
  "tx_small tx = (unat (tx_Amount tx) < 2 ^ 53 \<and> unat (tx_Fee tx) < 2 ^ 53 \<and> unat (tx_Nonce tx) < 2 ^ 53 \<and>
     list_all (\<lambda>out. unat (out_Amount out) < 2 ^ 53) (tx_Outputs tx))"

text \<open>A transaction without a hash gets one from what was carried.\<close>

definition tx_received :: "transaction \<Rightarrow> transaction" where
  "tx_received tx = (if tx_Hash tx = 0 then (tx_carried tx)\<lparr>tx_Hash := CalculateTransactionHash (tx_carried tx)\<rparr>
     else tx_carried tx)"

lemma parse_tx_entries:
  assumes "tx_small tx"
  shows "parse_tx pl parse_time (tx_entries tx) = tx_received tx"
proof -
  have outs: "map (parse_output pl) (map output_entries (tx_Outputs tx)) = tx_Outputs tx"
    using assms by (simp add: tx_small_def list_all_iff parse_output_entries map_idI)
  show ?thesis
    using assms outs
    by (cases tx) (simp add: parse_tx_def tx_entries_def tx_received_def tx_carried_def wire_output wire_input
        addr_field_def hash_field_def num_field_def tx_small_def u64_f64_roundtrip parse_input_entries o_def Let_def)
qed

text \<open>
  A transaction of a block template comes back from the JSON of a submitted block with its hash,
  parties, amounts, inputs and outputs, as long as its numbers fit 53 bits; its gas, data, signatures
  and time are lost.
\<close>

theorem template_tx_roundtrip:
  assumes "tx_small tx" and "tx_Hash tx \<noteq> 0" and "as_obj (Some (wire (tx_json tx))) = Some m"
  shows "parse_tx pl parse_time m = tx\<lparr>tx_GasUsed := 0, tx_GasPrice := 0, tx_Data := [], tx_Signature := [],
     tx_Inputs := map (\<lambda>i. i\<lparr>in_Signature := []\<rparr>) (tx_Inputs tx), tx_Timestamp := zero_time\<rparr>"
  using assms(2,3) parse_tx_entries [OF assms(1)] by (simp add: wire_tx tx_received_def tx_carried_def)

theorem template_tx_roundtrip_witness:
  "parse_tx zero_platform (\<lambda>_. None)
     (tx_entries (zero_tx\<lparr>tx_Hash := 7, tx_Amount := 5, tx_Outputs := [\<lparr>out_Address = 9, out_Amount = 5\<rparr>]\<rparr>)) =
   zero_tx\<lparr>tx_Hash := 7, tx_Amount := 5, tx_Outputs := [\<lparr>out_Address = 9, out_Amount = 5\<rparr>]\<rparr>"
  using template_tx_roundtrip [of "zero_tx\<lparr>tx_Hash := 7, tx_Amount := 5,
      tx_Outputs := [\<lparr>out_Address = 9, out_Amount = 5\<rparr>]\<rparr>" _ zero_platform "\<lambda>_. None"]
  by (simp add: tx_small_def zero_tx_def wire_tx)

subsection \<open>What a submitted block cannot carry\<close>

lemma parse_tx_unsigned [simp]: "tx_Signature (parse_tx pl pt m) = []" "tx_Data (parse_tx pl pt m) = []"
  by (simp_all add: parse_tx_def Let_def)

text \<open>
  A submitted block loses its miner, Merkle root, transaction count and fees, and every
  signature: the consensus manager would reject it whatever its parent, if it has a transaction.
\<close>

theorem parsed_blocks_fail_consensus:
  assumes "parseBlockData pl parse_time data = Inr b"
  shows "bh_Miner (blk_Header b) = 0 \<and> bh_MerkleRoot (blk_Header b) = 0 \<and> bh_TxCount (blk_Header b) = 0 \<and>
    bh_NetworkFee (blk_Header b) = 0 \<and> bh_TreasuryFee (blk_Header b) = 0 \<and>
    (\<forall>tx\<in>set (blk_Txs b). tx_Signature tx = []) \<and>
    (blk_Txs b \<noteq> [] \<longrightarrow> ValidateBlock pl g now (Some b) parent \<noteq> Inr ())"
proof -
  have hdr: "bh_Miner (blk_Header b) = 0" "bh_MerkleRoot (blk_Header b) = 0" "bh_TxCount (blk_Header b) = 0"
      "bh_NetworkFee (blk_Header b) = 0" "bh_TreasuryFee (blk_Header b) = 0"
    and sig: "\<forall>tx\<in>set (blk_Txs b). tx_Signature tx = []"
    using assms by (auto simp: parseBlockData_def rbind_eq_Inr Let_def zero_header_def)
  have "ValidateBlock pl g now (Some b) parent \<noteq> Inr ()" if "blk_Txs b \<noteq> []"
  proof
    assume "ValidateBlock pl g now (Some b) parent = Inr ()"
    then have "check_body pl g b = Inr ()" by (rule ValidateBlock_body)
    then have "\<forall>tx\<in>set (blk_Txs b). is_ok (ValidateTransaction pl g (Some tx))"
      by (simp add: check_body_iff)
    with sig that show False
      by (cases "blk_Txs b") (simp_all add: ValidateTransaction_accepts_iff)
  qed
  with hdr sig show ?thesis by simp
qed

definition sample_submission :: "(string \<times> gojson) list" where
  "sample_submission = [(''number'', JNum (f64_of_nat 1)), (''difficulty'', JNum (f64_of_nat 20)),
     (''nonce'', JNum (f64_of_nat 7)), (''hash'', JStr (hex_encode (hash_bytes 9))),
     (''parentHash'', JStr (hex_encode (hash_bytes 3))), (''timestamp'', JNum (f64_of_nat 5)),
     (''transactions'', JArr [JNil, JObj [(''hash'', JStr (hex_encode (hash_bytes 4)))]])]"

theorem parsed_blocks_fail_consensus_witness:
  "\<exists>b. parseBlockData zero_platform (\<lambda>_. None) sample_submission = Inr b \<and> length (blk_Txs b) = 1 \<and>
     ValidateBlock zero_platform testnet_genesis 0 (Some b) None \<noteq> Inr ()"
proof -
  have "\<exists>b. parseBlockData zero_platform (\<lambda>_. None) sample_submission = Inr b \<and> length (blk_Txs b) = 1"
    by (simp add: parseBlockData_def sample_submission_def need_def objects_def map_filter_simps Let_def del: One_nat_def)
  then obtain b where b: "parseBlockData zero_platform (\<lambda>_. None) sample_submission = Inr b" "length (blk_Txs b) = 1"
    by blast
  then have "ValidateBlock zero_platform testnet_genesis 0 (Some b) None \<noteq> Inr ()"
    using parsed_blocks_fail_consensus [OF b(1)] by (metis length_0_conv zero_neq_one)
  with b show ?thesis by blast
qed

end
