(* ===== verification/Rpc.thy ===== *)
theory Rpc
  imports BlockData Templates
begin

text \<open>
  \<^verbatim>\<open>rpc/server_v2.go\<close>: the JSON-RPC server. The state of the server is the record \<open>server\<close>;
  each handler is a function from the request and the chain to the reply, with the chain it leaves
  where it changes it. A run-time panic of a handler is a value, which \<open>handleRequest\<close> turns into
  the reply its \<^verbatim>\<open>recover\<close> writes. The text \<^verbatim>\<open>err.Error()\<close> of an error is represented by
  the error.
\<close>

subsection \<open>Requests, replies and state\<close>

record rpc_request =
  rq_JSONRPC :: string
  rq_Method :: string
  rq_Params :: gojson
  rq_ID :: gojson

datatype rpc_data =
  NoData | Text string | DecodeData string | ChainData chain_error | CreateData create_error | PanicData go_panic

record rpc_error =
  re_Code :: int
  re_Message :: string
  re_Data :: rpc_data

record rpc_response =
  rs_JSONRPC :: string
  rs_Result :: "rpc_value option"
  rs_Error :: "rpc_error option"
  rs_ID :: gojson

record connection =
  cn_ID :: string
  cn_CreatedAt :: gotime
  cn_LastSeen :: gotime
  cn_Requests :: "64 word"

record rate_limit =
  rl_Count :: int
  rl_LastReset :: gotime
  rl_RequestsPerMin :: int

text \<open>\<^verbatim>\<open>eventBus\<close> is the chain's own bus, and \<^verbatim>\<open>ctx\<close> is the flag \<open>sv_stopped\<close>.\<close>

record 's server =
  sv_addr :: string
  sv_blockchain :: "'s chain"
  sv_connections :: "string \<rightharpoonup> connection"
  sv_allowedIPs :: "(string \<times> bool) list"
  sv_rateLimits :: "string \<rightharpoonup> rate_limit"
  sv_requireAuth :: bool
  sv_authTokens :: "(string \<times> bool) list"
  sv_stopped :: bool

text \<open>What a request finds around it: conversions, map orders and clock readings.\<close>

record rpc_env =
  ev_platform :: platform
  ev_parse_time :: "string \<Rightarrow> gotime option"
  ev_utxo_order :: "bytes list"
  ev_pool_order :: "string list"
  ev_now_tx :: gotime
  ev_now_reward :: gotime
  ev_now_header :: gotime
  ev_now_created :: gotime
  ev_now_seen :: gotime
  ev_now_limit :: gotime
  ev_now_since :: gotime
  ev_now_reset :: gotime

definition NewServerV2 :: "string \<Rightarrow> 's chain \<Rightarrow> 's server" where
  "NewServerV2 addr bc =
     \<lparr>sv_addr = addr, sv_blockchain = bc, sv_connections = Map.empty, sv_allowedIPs = [],
      sv_rateLimits = Map.empty, sv_requireAuth = False, sv_authTokens = [], sv_stopped = False\<rparr>"

definition sv_Stop :: "'s server \<Rightarrow> 's server" where
  "sv_Stop sv = sv\<lparr>sv_stopped := True\<rparr>"

definition rpc_ok :: "rpc_request \<Rightarrow> rpc_value \<Rightarrow> rpc_response" where
  "rpc_ok req v = \<lparr>rs_JSONRPC = ''2.0'', rs_Result = Some v, rs_Error = None, rs_ID = rq_ID req\<rparr>"

definition rpc_fail :: "rpc_request \<Rightarrow> int \<Rightarrow> string \<Rightarrow> rpc_data \<Rightarrow> rpc_response" where
  "rpc_fail req code message data =
     \<lparr>rs_JSONRPC = ''2.0'', rs_Result = None,
      rs_Error = Some \<lparr>re_Code = code, re_Message = message, re_Data = data\<rparr>, rs_ID = rq_ID req\<rparr>"

subsection \<open>Handlers that read the chain\<close>

definition handleGetHeight :: "rpc_request \<Rightarrow> 's chain \<Rightarrow> rpc_response" where
  "handleGetHeight req c = rpc_ok req (VU64 (GetHeight c))"

definition handleGetBestBlock :: "rpc_request \<Rightarrow> 's chain \<Rightarrow> rpc_response" where
  "handleGetBestBlock req c =
     (case GetBestBlock c of
        None \<Rightarrow> rpc_fail req (- 32603) ''Internal error'' (Text ''No blocks found'')
      | Some b \<Rightarrow>
          rpc_ok req (VObj [(''hash'', VStr (hex_encode (hash_bytes (blk_Hash b)))),
            (''number'', VU64 (bh_Number (blk_Header b)))]))"

definition recent_json :: "block \<Rightarrow> rpc_value" where
  "recent_json b =
     (let h = blk_Header b;
          blockMap = [(''hash'', VStr (hex_encode (hash_bytes (blk_Hash b)))), (''number'', VU64 (bh_Number h)),
            (''parentHash'', VStr (hex_encode (hash_bytes (bh_ParentHash h)))),
            (''timestamp'', VF64 (f64_of_int (sint (word_of_int (bh_Timestamp h div 1000000000) :: 64 word)))),
            (''difficulty'', VU64 (bh_Difficulty h)), (''nonce'', VU64 (bh_Nonce h)),
            (''merkleRoot'', VStr (hex_encode (hash_bytes (bh_MerkleRoot h)))),
            (''txCount'', VU32 (of_nat (length (blk_Txs b)))),
            (''networkFee'', VU64 (bh_NetworkFee h)), (''treasuryFee'', VU64 (bh_TreasuryFee h)),
            (''gasUsed'', VU64 0), (''gasLimit'', VU64 0)]
      in VObj (if bh_Miner h \<noteq> 0 then blockMap @ [(''miner'', VStr (Address_String (bh_Miner h)))] else blockMap))"

definition recent_limit :: "platform \<Rightarrow> gojson \<Rightarrow> int" where
  "recent_limit pl params =
     (case as_obj (Some params) of
        None \<Rightarrow> 20
      | Some m \<Rightarrow>
          (case as_num (map_of m ''limit'') of
             None \<Rightarrow> 20
           | Some x \<Rightarrow>
               (let limit = int_of_f64 pl x;
                    limit = (if 100 < limit then 100 else limit);
                    limit = (if limit < 1 then 1 else limit)
                in limit)))"

definition handleGetRecentBlocks :: "rpc_env \<Rightarrow> rpc_request \<Rightarrow> 's chain \<Rightarrow> go_panic + rpc_response" where
  "handleGetRecentBlocks env req c =
     (case GetRecentBlocks (recent_limit (ev_platform env) (rq_Params req)) c of
        Inl e \<Rightarrow> Inl e
      | Inr blocks \<Rightarrow>
          if length blocks = 0 then Inr (rpc_ok req (VArr []))
          else Inr (rpc_ok req (VArr (map recent_json blocks))))"

definition handleGetMiningInfo :: "rpc_env \<Rightarrow> rpc_request \<Rightarrow> 's chain \<Rightarrow> go_panic + rpc_response" where
  "handleGetMiningInfo env req c =
     (case GetBestBlock c of
        None \<Rightarrow> Inr (rpc_fail req (- 32603) ''Internal error'' (Text ''No blocks found''))
      | Some best \<Rightarrow>
          (case CalculateDifficulty (ev_platform env) (ch_genesis c) (bh_Number (blk_Header best) + 1) (Some best) of
             Inl e \<Rightarrow> Inl e
           | Inr difficulty \<Rightarrow>
               Inr (rpc_ok req (VObj [(''height'', VU64 (GetHeight c)), (''difficulty'', VU64 difficulty),
                 (''bestBlock'', VStr (hex_encode (hash_bytes (blk_Hash best))))]))))"

definition handleGetBalance :: "rpc_env \<Rightarrow> rpc_request \<Rightarrow> 's chain \<Rightarrow> rpc_response" where
  "handleGetBalance env req c =
     (case as_obj (Some (rq_Params req)) of
        None \<Rightarrow> rpc_fail req (- 32602) ''Invalid params'' (Text ''Expected object with 'address' field'')
      | Some params \<Rightarrow>
          (case as_str (map_of params ''address'') of
             None \<Rightarrow> rpc_fail req (- 32602) ''Invalid params'' (Text ''Missing or invalid 'address' field'')
           | Some addressStr \<Rightarrow>
               rpc_ok req (VU64 (bc_GetBalance (ev_utxo_order env) (AddressFromString addressStr) c))))"

subsection \<open>Block templates\<close>

text \<open>The address of the miner: 40 hexadecimal digits, with or without \<^verbatim>\<open>kalon1\<close> before them.\<close>

definition parse_miner :: "string \<Rightarrow> string + address" where
  "parse_miner minerStr =
     (if HasPrefix minerStr ''kalon1'' then
        (let hexStr = TrimPrefix minerStr ''kalon1'' in
         if length hexStr = 40 then
           (case hex20 hexStr of Some b \<Rightarrow> Inr (addr_of b) | None \<Rightarrow> Inl ''Invalid miner address'')
         else Inl ''Invalid miner address format'')
      else if length minerStr = 40 then
        (case hex20 minerStr of Some b \<Rightarrow> Inr (addr_of b) | None \<Rightarrow> Inl ''Invalid miner address format'')
      else Inl ''Invalid miner address format'')"

text \<open>The block is dereferenced for the log before its test for nil.\<close>

definition handleCreateBlockTemplateV2 :: "rpc_env \<Rightarrow> rpc_request \<Rightarrow> 's chain \<Rightarrow> go_panic + rpc_response" where
  "handleCreateBlockTemplateV2 env req c =
     (case as_obj (Some (rq_Params req)) of
        None \<Rightarrow> Inr (rpc_fail req (- 32602) ''Invalid params'' NoData)
      | Some params \<Rightarrow>
          (case as_str (map_of params ''miner'') of
             None \<Rightarrow> Inr (rpc_fail req (- 32602) ''Invalid params'' (Text ''miner parameter required''))
           | Some minerStr \<Rightarrow>
               (case parse_miner minerStr of
                  Inl message \<Rightarrow> Inr (rpc_fail req (- 32602) message NoData)
                | Inr miner \<Rightarrow>
                    (case GetBestBlock c of
                       None \<Rightarrow> Inr (rpc_fail req (- 32603) ''Internal error'' (Text ''No blocks found''))
                     | Some _ \<Rightarrow>
                         (case CreateNewBlockV2 (ev_platform env) (ev_pool_order env) (ev_now_reward env)
                                 (ev_now_header env) miner [] c of
                            Inl e \<Rightarrow> Inl e
                          | Inr None \<Rightarrow> Inl NilDereference
                          | Inr (Some b) \<Rightarrow> Inr (rpc_ok req (template_json b)))))))"

subsection \<open>Handlers that change the chain\<close>

definition handleSubmitBlockV2 ::
  "('s, 'e) persister \<Rightarrow> rpc_env \<Rightarrow> rpc_request \<Rightarrow> 's chain \<Rightarrow> 's chain \<times> rpc_response" where
  "handleSubmitBlockV2 ps env req c =
     (case as_obj (Some (rq_Params req)) of
        None \<Rightarrow> (c, rpc_fail req (- 32602) ''Invalid params'' NoData)
      | Some params \<Rightarrow>
          (case as_obj (map_of params ''block'') of
             None \<Rightarrow> (c, rpc_fail req (- 32602) ''Invalid params'' (Text ''block parameter required''))
           | Some blockData \<Rightarrow>
               (case parseBlockData (ev_platform env) (ev_parse_time env) blockData of
                  Inl e \<Rightarrow> (c, rpc_fail req (- 32602) ''Invalid block data'' (Text e))
                | Inr b \<Rightarrow>
                    (case AddBlockV2 ps b c of
                       (c', Inl e) \<Rightarrow> (c', rpc_fail req (- 32603) ''Block submission failed'' (ChainData e))
                     | (c', Inr _) \<Rightarrow>
                         (c', rpc_ok req (VObj [(''success'', VBool True),
                            (''hash'', VStr (hex_encode (hash_bytes (blk_Hash b)))),
                            (''number'', VU64 (bh_Number (blk_Header b)))]))))))"

text \<open>A missing or ill-typed field reads as the zero value of its type.\<close>

definition handleSendTransaction :: "rpc_env \<Rightarrow> rpc_request \<Rightarrow> 's chain \<Rightarrow> 's chain \<times> rpc_response" where
  "handleSendTransaction env req c =
     (case as_obj (Some (rq_Params req)) of
        None \<Rightarrow> (c, rpc_fail req (- 32602) ''Invalid params'' NoData)
      | Some params \<Rightarrow>
          (let fromStr = (case as_str (map_of params ''from'') of Some s \<Rightarrow> s | None \<Rightarrow> []);
               toStr = (case as_str (map_of params ''to'') of Some s \<Rightarrow> s | None \<Rightarrow> []);
               amount = (case as_num (map_of params ''amount'') of Some x \<Rightarrow> x | None \<Rightarrow> f64_of_nat 0);
               fee = (case as_num (map_of params ''fee'') of Some x \<Rightarrow> x | None \<Rightarrow> f64_of_nat 0)
           in if fromStr = [] \<or> toStr = [] \<or> f64_is_zero amount
              then (c, rpc_fail req (- 32602) ''Invalid params'' (Text ''from, to and amount are required''))
              else
                (case CreateTransaction (ev_utxo_order env) (ev_now_tx env) (AddressFromString fromStr)
                        (AddressFromString toStr) (u64_of_f64 (ev_platform env) amount)
                        (u64_of_f64 (ev_platform env) fee) c of
                   Inl e \<Rightarrow> (c, rpc_fail req (- 32603) ''Transaction creation failed'' (CreateData e))
                 | Inr tx \<Rightarrow>
                     (c\<lparr>ch_mempool := AddTransaction tx (ch_mempool c)\<rparr>,
                      rpc_ok req (VObj [(''txHash'', VStr (hex_encode (hash_bytes (tx_Hash tx)))),
                        (''status'', VStr ''pending'')])))))"

subsection \<open>Dispatch\<close>

definition handleRPCMethod ::
  "('s, 'e) persister \<Rightarrow> rpc_env \<Rightarrow> rpc_request \<Rightarrow> 's chain \<Rightarrow> 's chain \<times> (go_panic + rpc_response)" where
  "handleRPCMethod ps env req c =
     (if rq_Method req = ''getHeight'' then (c, Inr (handleGetHeight req c))
      else if rq_Method req = ''getBestBlock'' then (c, Inr (handleGetBestBlock req c))
      else if rq_Method req = ''getRecentBlocks'' then (c, handleGetRecentBlocks env req c)
      else if rq_Method req = ''createBlockTemplate'' then (c, handleCreateBlockTemplateV2 env req c)
      else if rq_Method req = ''submitBlock'' then map_prod id Inr (handleSubmitBlockV2 ps env req c)
      else if rq_Method req = ''getMiningInfo'' then (c, handleGetMiningInfo env req c)
      else if rq_Method req = ''getBalance'' then (c, Inr (handleGetBalance env req c))
      else if rq_Method req = ''sendTransaction'' then map_prod id Inr (handleSendTransaction env req c)
      else (c, Inr (rpc_fail req (- 32601) ''Method not found'' NoData)))"

subsection \<open>What every reply has\<close>

lemmas handler_defs = handleGetHeight_def handleGetBestBlock_def handleGetRecentBlocks_def
  handleCreateBlockTemplateV2_def handleGetMiningInfo_def handleGetBalance_def handleSubmitBlockV2_def
  handleSendTransaction_def

definition well_formed :: "rpc_request \<Rightarrow> rpc_response \<Rightarrow> bool" where
  "well_formed req r \<longleftrightarrow> rs_JSONRPC r = ''2.0'' \<and> rs_ID r = rq_ID req \<and>
     (case rs_Result r of Some v \<Rightarrow> marshals v \<and> rs_Error r = None | None \<Rightarrow> rs_Error r \<noteq> None)"

lemma well_formed_fail [simp]: "well_formed req (rpc_fail req code message data)"
  by (simp add: well_formed_def rpc_fail_def)

lemma well_formed_ok [simp]: "well_formed req (rpc_ok req v) = marshals v"
  by (simp add: well_formed_def rpc_ok_def)

lemma marshals_recent [simp]: "marshals (recent_json b)"
proof -
  have "f64_finite (f64_of_int (sint (w :: 64 word)))" for w
    using sint_greater_eq [of w] sint_less [of w] by (intro f64_of_int_finite) simp_all
  then show ?thesis by (simp add: recent_json_def Let_def)
qed

lemma marshals_tx [simp]: "marshals (tx_json tx)"
  by (simp add: tx_json_def input_json_def output_json_def list_all_iff)

lemma marshals_template [simp]: "marshals (template_json b)"
  by (simp add: template_json_def list_all_iff)

lemma handleSubmit_well_formed: "well_formed req (snd (handleSubmitBlockV2 ps env req c))"
  by (simp add: handleSubmitBlockV2_def split: option.splits sum.splits prod.splits)

lemma handleSend_well_formed: "well_formed req (snd (handleSendTransaction env req c))"
  by (simp add: handleSendTransaction_def Let_def split: option.splits sum.splits prod.splits)

lemma handlers_well_formed:
  "well_formed req (handleGetHeight req c)" "well_formed req (handleGetBestBlock req c)"
  "well_formed req (handleGetBalance env req c)"
  "handleGetRecentBlocks env req c = Inr r \<Longrightarrow> well_formed req r"
  "handleCreateBlockTemplateV2 env req c = Inr r \<Longrightarrow> well_formed req r"
  "handleGetMiningInfo env req c = Inr r \<Longrightarrow> well_formed req r"
  by (auto simp: handler_defs list_all_iff split: option.splits sum.splits if_splits)

lemma handleRPCMethod_well_formed:
  assumes "snd (handleRPCMethod ps env req c) = Inr r"
  shows "well_formed req r"
  using assms handlers_well_formed handleSubmit_well_formed [of req ps env c] handleSend_well_formed [of req env c]
  unfolding handleRPCMethod_def by (auto split: if_splits)


definition sample_env :: rpc_env where
  "sample_env = \<lparr>ev_platform = zero_platform, ev_parse_time = (\<lambda>_. None), ev_utxo_order = [], ev_pool_order = [],
     ev_now_tx = 0, ev_now_reward = 0, ev_now_header = 1700000001 * 1000000000, ev_now_created = 0, ev_now_seen = 0,
     ev_now_limit = 0, ev_now_since = 0, ev_now_reset = 0\<rparr>"

definition request :: "string \<Rightarrow> gojson \<Rightarrow> rpc_request" where
  "request m params = \<lparr>rq_JSONRPC = ''2.0'', rq_Method = m, rq_Params = params, rq_ID = JNum (f64_of_nat 1)\<rparr>"


subsection \<open>What a request does to the chain\<close>

lemma handleSubmit_chain:
  "fst (handleSubmitBlockV2 ps env req c) = c \<or> (\<exists>b. fst (handleSubmitBlockV2 ps env req c) = fst (addBlockV2 ps b c))"
proof (cases "as_obj (Some (rq_Params req))")
  case None
  then show ?thesis by (simp add: handleSubmitBlockV2_def)
next
  case params: (Some m)
  show ?thesis
  proof (cases "as_obj (map_of m ''block'')")
    case None
    with params show ?thesis by (simp add: handleSubmitBlockV2_def)
  next
    case data: (Some d)
    show ?thesis
    proof (cases "parseBlockData (ev_platform env) (ev_parse_time env) d")
      case (Inl e)
      with params data show ?thesis by (simp add: handleSubmitBlockV2_def)
    next
      case (Inr b)
      obtain c' r where "AddBlockV2 ps b c = (c', r)" by (cases "AddBlockV2 ps b c")
      with params data Inr have "fst (handleSubmitBlockV2 ps env req c) = fst (addBlockV2 ps b c)"
        by (simp add: handleSubmitBlockV2_def AddBlockV2_def split: sum.split)
      then show ?thesis by blast
    qed
  qed
qed

lemma handleSend_chain:
  "fst (handleSendTransaction env req c) = c \<or>
   (\<exists>tx. fst (handleSendTransaction env req c) = c\<lparr>ch_mempool := AddTransaction tx (ch_mempool c)\<rparr>)"
proof (cases "as_obj (Some (rq_Params req))")
  case None
  then show ?thesis by (simp add: handleSendTransaction_def)
next
  case (Some m)
  have "fst (if P then (c, x) else (case r of Inl e \<Rightarrow> (c, y e)
        | Inr tx \<Rightarrow> (c\<lparr>ch_mempool := AddTransaction tx (ch_mempool c)\<rparr>, z tx))) = c \<or>
      (\<exists>tx. fst (if P then (c, x) else (case r of Inl e \<Rightarrow> (c, y e)
        | Inr tx \<Rightarrow> (c\<lparr>ch_mempool := AddTransaction tx (ch_mempool c)\<rparr>, z tx))) =
        c\<lparr>ch_mempool := AddTransaction tx (ch_mempool c)\<rparr>)" for P x y z and r :: "create_error + transaction"
    by (cases P; cases r) auto
  with Some show ?thesis by (simp only: handleSendTransaction_def Let_def option.case)
qed

lemma handleRPCMethod_step:
  "fst (handleRPCMethod ps env req c) = c \<or> chain_step ps c (fst (handleRPCMethod ps env req c))"
proof -
  have "fst (handleSubmitBlockV2 ps env req c) = c \<or> chain_step ps c (fst (handleSubmitBlockV2 ps env req c))"
    using handleSubmit_chain [of ps env req c] by (elim disjE exE) (simp_all add: chain_step.offer_block)
  moreover have "fst (handleSendTransaction env req c) = c \<or> chain_step ps c (fst (handleSendTransaction env req c))"
    using handleSend_chain [of env req c] by (elim disjE exE) (simp_all add: chain_step.submit_tx)
  ultimately show ?thesis by (simp add: handleRPCMethod_def)
qed

subsection \<open>Panics\<close>

text \<open>The only division of a handler: the hours of the launch guard by the block time.\<close>

definition guard_ok :: "genesis_config \<Rightarrow> bool" where
  "guard_ok g \<longleftrightarrow> lg_Enabled (dc_LaunchGuard (g_Difficulty g)) \<longrightarrow> g_BlockTimeTarget g \<noteq> 0"

lemma CalculateDifficulty_no_panic:
  "guard_ok g \<Longrightarrow> CalculateDifficulty pl g n (Some p) \<noteq> Inl e"
  by (auto simp: CalculateDifficulty_def guard_ok_def launch_guard_blocks_def Let_def split: if_splits)

lemma CreateNewBlockV2_no_panic:
  "guard_ok (ch_genesis c) \<Longrightarrow> ch_bestBlock c = Some p \<Longrightarrow>
     \<exists>b. CreateNewBlockV2 pl ord t1 t2 miner txs c = Inr (Some b)"
  using CalculateDifficulty_no_panic [of "ch_genesis c" pl "bh_Number (blk_Header p) + 1" p]
  by (cases "CalculateDifficulty pl (ch_genesis c) (bh_Number (blk_Header p) + 1) (Some p)")
    (auto simp: CreateNewBlockV2_def Let_def)

lemma recent_limit_bounds: "1 \<le> recent_limit pl params \<and> recent_limit pl params \<le> 100"
  by (simp add: recent_limit_def Let_def split: option.splits)

lemma GetRecentBlocks_no_panic: "1 \<le> limit \<Longrightarrow> GetRecentBlocks limit c \<noteq> Inl e"
  by (simp add: GetRecentBlocks_def)

text \<open>
  C21. No request makes a handler panic, whatever its parameters and whatever the chain, unless the
  launch guard is enabled with a block time of zero. The list of recent blocks is asked for at most
  100 blocks.
\<close>

theorem rpc_no_panic:
  assumes "lg_Enabled (dc_LaunchGuard (g_Difficulty (ch_genesis c))) \<longrightarrow> g_BlockTimeTarget (ch_genesis c) \<noteq> 0"
  shows "snd (handleRPCMethod ps env req c) \<noteq> Inl p \<and>
    1 \<le> recent_limit pl params \<and> recent_limit pl params \<le> 100"
proof -
  have g: "guard_ok (ch_genesis c)" using assms by (simp add: guard_ok_def)
  have "handleGetRecentBlocks env req c \<noteq> Inl p"
    using recent_limit_bounds [of "ev_platform env" "rq_Params req"]
      GetRecentBlocks_no_panic [of "recent_limit (ev_platform env) (rq_Params req)" c]
    by (auto simp: handleGetRecentBlocks_def split: sum.splits)
  moreover have "handleGetMiningInfo env req c \<noteq> Inl p"
    using CalculateDifficulty_no_panic [OF g]
    by (auto simp: handleGetMiningInfo_def split: option.splits sum.splits)
  moreover have "handleCreateBlockTemplateV2 env req c \<noteq> Inl p"
  proof (cases "ch_bestBlock c")
    case None
    then show ?thesis
      by (auto simp: handleCreateBlockTemplateV2_def GetBestBlock_def split: option.splits sum.splits)
  next
    case (Some b)
    then have "\<exists>b. CreateNewBlockV2 pl ord t1 t2 miner [] c = Inr (Some b)" for pl ord t1 t2 miner
      by (rule CreateNewBlockV2_no_panic [OF g])
    then show ?thesis
      by (auto simp: handleCreateBlockTemplateV2_def GetBestBlock_def split: option.splits sum.splits)
        (metis Inl_Inr_False Inr_inject option.distinct(1))+
  qed
  ultimately show ?thesis
    using recent_limit_bounds [of pl params] by (simp add: handleRPCMethod_def)
qed

theorem rpc_no_panic_witness:
  "snd (handleRPCMethod no_persister sample_env (request ''getMiningInfo'' JNil) short_chain) \<noteq> Inl DivideByZero"
proof -
  have "ch_genesis short_chain = testnet_genesis"
    by (simp add: short_chain_simps)
  then show ?thesis
    using rpc_no_panic [of short_chain no_persister sample_env "request ''getMiningInfo'' JNil" DivideByZero]
    by (simp add: testnet_genesis_def)
qed

end
