(* ===== verification/RpcServer.thy ===== *)
theory RpcServer
  imports Rpc
begin

text \<open>
  \<^verbatim>\<open>rpc/server_v2.go\<close>, around the handlers: who may call, how often and how many at a time, and
  what is written back over HTTP. A request is its headers, its remote address and what
  \<^verbatim>\<open>json.Decoder\<close> makes of its body.
\<close>

record http_request =
  hr_ForwardedFor :: string
  hr_RealIp :: string
  hr_RemoteAddr :: string
  hr_Body :: "string + rpc_request"

datatype http_reply = HttpError int string | HttpJson int rpc_response

subsection \<open>Who is calling\<close>

text \<open>\<^verbatim>\<open>strings.Split(s, ":")[0]\<close>: the text before the first colon.\<close>

definition extractIP :: "http_request \<Rightarrow> string" where
  "extractIP r =
     (let ip = hr_ForwardedFor r;
          ip = (if ip = [] then hr_RealIp r else ip)
      in if ip = [] then takeWhile (\<lambda>ch. ch \<noteq> CHR '':'') (hr_RemoteAddr r) else ip)"

definition minute :: int where
  "minute = 60 * 1000000000"

definition checkRateLimit ::
  "gotime \<Rightarrow> gotime \<Rightarrow> gotime \<Rightarrow> string \<Rightarrow> (string \<rightharpoonup> rate_limit) \<Rightarrow> (string \<rightharpoonup> rate_limit) \<times> bool" where
  "checkRateLimit now_new now_since now_reset ip limits =
     (if ip = ''127.0.0.1'' \<or> ip = ''::1'' then (limits, True)
      else
        (let limit = (case limits ip of
                Some l \<Rightarrow> l
              | None \<Rightarrow> \<lparr>rl_Count = 0, rl_LastReset = now_new, rl_RequestsPerMin = 600\<rparr>);
             limit = (if minute < time_Sub now_since (rl_LastReset limit)
                      then limit\<lparr>rl_Count := 0, rl_LastReset := now_reset\<rparr> else limit)
         in if rl_RequestsPerMin limit \<le> rl_Count limit then (limits(ip \<mapsto> limit), False)
            else (limits(ip \<mapsto> limit\<lparr>rl_Count := rl_Count limit + 1\<rparr>), True)))"

definition trackConnection ::
  "gotime \<Rightarrow> gotime \<Rightarrow> string \<Rightarrow> (string \<rightharpoonup> connection) \<Rightarrow> (string \<rightharpoonup> connection)" where
  "trackConnection now_created now_seen connID conns =
     (case conns connID of
        Some conn \<Rightarrow> conns(connID \<mapsto> conn\<lparr>cn_LastSeen := now_seen, cn_Requests := cn_Requests conn + 1\<rparr>)
      | None \<Rightarrow> conns(connID \<mapsto> \<lparr>cn_ID = connID, cn_CreatedAt = now_created, cn_LastSeen = now_seen, cn_Requests = 1\<rparr>))"

text \<open>One tick of the cleanup routine, which ends when the server is stopped.\<close>

definition stale :: "gotime \<Rightarrow> connection \<Rightarrow> bool" where
  "stale now conn \<longleftrightarrow> 10 * minute < time_Sub now (cn_LastSeen conn)"

definition cleanupConnections :: "gotime \<Rightarrow> 's server \<Rightarrow> 's server" where
  "cleanupConnections now sv =
     (if sv_stopped sv then sv
      else sv\<lparr>sv_connections := (\<lambda>i. case sv_connections sv i of
             Some conn \<Rightarrow> if stale now conn then None else Some conn
           | None \<Rightarrow> None)\<rparr>)"

subsection \<open>A request\<close>

definition panic_reply :: "go_panic \<Rightarrow> rpc_response" where
  "panic_reply p = \<lparr>rs_JSONRPC = ''2.0'', rs_Result = None,
     rs_Error = Some \<lparr>re_Code = - 32603, re_Message = ''Internal error'', re_Data = PanicData p\<rparr>, rs_ID = JNil\<rparr>"

definition marshal_error_reply :: "rpc_request \<Rightarrow> rpc_response" where
  "marshal_error_reply req = rpc_fail req (- 32603) ''Internal error'' (Text ''JSON marshal error'')"

definition response_marshals :: "rpc_response \<Rightarrow> bool" where
  "response_marshals r = ((case rs_Result r of Some v \<Rightarrow> marshals v | None \<Rightarrow> True) \<and> json_finite (rs_ID r))"

definition allowed :: "'s server \<Rightarrow> string \<Rightarrow> bool" where
  "allowed sv ip = (0 < length (sv_allowedIPs sv) \<longrightarrow> map_of (sv_allowedIPs sv) ip = Some True)"

definition writeError :: "gojson \<Rightarrow> int \<Rightarrow> string \<Rightarrow> rpc_data \<Rightarrow> http_reply" where
  "writeError i code message data =
     HttpJson 200 \<lparr>rs_JSONRPC = ''2.0'', rs_Result = None,
       rs_Error = Some \<lparr>re_Code = code, re_Message = message, re_Data = data\<rparr>, rs_ID = i\<rparr>"

definition handleRequest ::
  "('s, 'e) persister \<Rightarrow> rpc_env \<Rightarrow> http_request \<Rightarrow> 's server \<Rightarrow> 's server \<times> http_reply" where
  "handleRequest ps env r sv =
     (let ip = extractIP r in
      if \<not> allowed sv ip then (sv, HttpError 403 ''Forbidden'')
      else
        (case checkRateLimit (ev_now_limit env) (ev_now_since env) (ev_now_reset env) ip (sv_rateLimits sv) of
           (limits, False) \<Rightarrow> (sv\<lparr>sv_rateLimits := limits\<rparr>, HttpError 429 ''Too many requests'')
         | (limits, True) \<Rightarrow>
             (let sv1 = sv\<lparr>sv_rateLimits := limits,
                           sv_connections := trackConnection (ev_now_created env) (ev_now_seen env) ip (sv_connections sv)\<rparr>
              in case hr_Body r of
                   Inl e \<Rightarrow> (sv1, writeError JNil (- 32700) ''Parse error'' (DecodeData e))
                 | Inr req \<Rightarrow>
                     (case handleRPCMethod ps env req (sv_blockchain sv1) of
                        (c, Inl p) \<Rightarrow> (sv1\<lparr>sv_blockchain := c\<rparr>, HttpJson 500 (panic_reply p))
                      | (c, Inr response) \<Rightarrow>
                          (sv1\<lparr>sv_blockchain := c\<rparr>,
                           if response_marshals response then HttpJson 200 response
                           else HttpJson 500 (marshal_error_reply req))))))"

definition handleHealth :: "gotime \<Rightarrow> 's server \<Rightarrow> (string \<times> rpc_value) list \<times> gotime" where
  "handleHealth now sv =
     ([(''status'', VStr ''ok''), (''version'', VStr ''2.0''), (''height'', VU64 (GetHeight (sv_blockchain sv)))], now)"

subsection \<open>Concurrent connections\<close>

text \<open>The semaphore: a request enters unless 50 are inside, and leaves when it is served.\<close>

definition limit_enter :: "nat \<Rightarrow> nat \<times> http_reply option" where
  "limit_enter inside =
     (if inside < 50 then (inside + 1, None) else (inside, Some (HttpError 503 ''Too many connections'')))"

definition limit_leave :: "nat \<Rightarrow> nat" where
  "limit_leave inside = inside - 1"

inductive serving :: "nat \<Rightarrow> bool" where
  idle: "serving 0"
| enter: "serving n \<Longrightarrow> serving (fst (limit_enter n))"
| leave: "serving n \<Longrightarrow> 0 < n \<Longrightarrow> serving (limit_leave n)"

text \<open>
  No more than 50 requests are inside the handler at a time, whatever the order in which they
  come and go; a request is refused exactly when 50 are inside.
\<close>

theorem limitConnections_bound:
  assumes "serving n"
  shows "n \<le> 50 \<and> (snd (limit_enter n) = None \<longleftrightarrow> n \<noteq> 50)"
proof -
  have "n \<le> 50"
    using assms by (induction rule: serving.induct) (simp_all add: limit_enter_def limit_leave_def)
  then show ?thesis by (simp add: limit_enter_def)
qed

theorem limitConnections_bound_witness: "snd (limit_enter 1) = None"
  using limitConnections_bound [of 1] serving.enter [OF serving.idle] by (simp add: limit_enter_def)

subsection \<open>The rate limit\<close>

interpretation limits: keyed_update "\<lambda>(m :: string \<rightharpoonup> rate_limit) k. m k"
  "\<lambda>(ip, t) m. fst (checkRateLimit t t t ip m)" fst
  by unfold_locales (auto simp: checkRateLimit_def Let_def)

interpretation conns: keyed_update "\<lambda>(m :: string \<rightharpoonup> connection) k. m k"
  "\<lambda>(ip, t) m. trackConnection t t ip m" fst
  by unfold_locales (auto simp: trackConnection_def split: option.splits)

text \<open>How many of a client's requests are let through in a run of requests of all clients.\<close>

primrec let_through :: "string \<Rightarrow> (string \<times> gotime) list \<Rightarrow> (string \<rightharpoonup> rate_limit) \<Rightarrow> nat" where
  "let_through ip [] m = 0"
| "let_through ip (e # es) m =
     (let r = checkRateLimit (snd e) (snd e) (snd e) (fst e) m
      in (if fst e = ip \<and> snd r then 1 else 0) + let_through ip es (fst r))"

lemma minute_pos: "0 < minute" "minute < 2 ^ 63 - 1"
  by (simp_all add: minute_def)

lemma minute_less_Sub: "minute < time_Sub t u \<longleftrightarrow> minute < t - u"
  using minute_pos by (auto simp: time_Sub_def)

definition limit_ok :: "rate_limit \<Rightarrow> bool" where
  "limit_ok l \<longleftrightarrow> 0 \<le> rl_Count l \<and> rl_Count l \<le> 600 \<and> rl_RequestsPerMin l = 600"

lemma checkRateLimit_other:
  "i \<noteq> ip \<Longrightarrow> fst (checkRateLimit t t t i m) ip = m ip"
  by (simp add: checkRateLimit_def Let_def)

lemma checkRateLimit_within:
  assumes "ip \<noteq> ''127.0.0.1''" and "ip \<noteq> ''::1''" and "m ip = Some l" and "t - rl_LastReset l \<le> minute"
  shows "checkRateLimit t t t ip m =
    (if rl_RequestsPerMin l \<le> rl_Count l then (m(ip \<mapsto> l), False)
     else (m(ip \<mapsto> l\<lparr>rl_Count := rl_Count l + 1\<rparr>), True))"
  using assms by (simp add: checkRateLimit_def minute_less_Sub)

lemma checkRateLimit_reset:
  assumes "ip \<noteq> ''127.0.0.1''" and "ip \<noteq> ''::1''" and "m ip = Some l" and "minute < t - rl_LastReset l"
    and "0 < rl_RequestsPerMin l"
  shows "checkRateLimit t t t ip m = (m(ip \<mapsto> l\<lparr>rl_Count := 1, rl_LastReset := t\<rparr>), True)"
  using assms by (cases l) (simp add: checkRateLimit_def minute_less_Sub)

lemma checkRateLimit_first:
  assumes "ip \<noteq> ''127.0.0.1''" and "ip \<noteq> ''::1''" and "m ip = None"
  shows "checkRateLimit t t t ip m =
    (m(ip \<mapsto> \<lparr>rl_Count = 1, rl_LastReset = t, rl_RequestsPerMin = 600\<rparr>), True)"
  using assms minute_pos by (simp add: checkRateLimit_def minute_less_Sub)

lemma let_through_within:
  assumes ip: "ip \<noteq> ''127.0.0.1''" "ip \<noteq> ''::1''"
    and "m ip = Some l" and "limit_ok l" and "\<forall>(i, t)\<in>set es. t - rl_LastReset l \<le> minute"
  shows "let_through ip es m = min (length (filter (\<lambda>e. fst e = ip) es)) (nat (600 - rl_Count l))"
  using assms(3-)
proof (induction es arbitrary: m l)
  case (Cons e es)
  obtain i t where e: "e = (i, t)" by (cases e)
  show ?case
  proof (cases "i = ip")
    case False
    then have "let_through ip es (fst (checkRateLimit t t t i m)) =
        min (length (filter (\<lambda>e. fst e = ip) es)) (nat (600 - rl_Count l))"
      using Cons.prems by (intro Cons.IH) (auto simp: checkRateLimit_other)
    with False show ?thesis by (simp add: e Let_def)
  next
    case True
    have step: "checkRateLimit t t t ip m = (if 600 \<le> rl_Count l then (m(ip \<mapsto> l), False)
        else (m(ip \<mapsto> l\<lparr>rl_Count := rl_Count l + 1\<rparr>), True))"
      using checkRateLimit_within [OF ip, of m l t] Cons.prems by (simp add: e limit_ok_def)
    show ?thesis
    proof (cases "600 \<le> rl_Count l")
      case full: True
      have "let_through ip es (m(ip \<mapsto> l)) = min (length (filter (\<lambda>e. fst e = ip) es)) (nat (600 - rl_Count l))"
        using Cons.prems by (intro Cons.IH) auto
      with full True show ?thesis by (simp add: e step Let_def)
    next
      case False
      let ?l = "l\<lparr>rl_Count := rl_Count l + 1\<rparr>"
      have "let_through ip es (m(ip \<mapsto> ?l)) = min (length (filter (\<lambda>e. fst e = ip) es)) (nat (600 - rl_Count ?l))"
        using Cons.prems False by (intro Cons.IH) (auto simp: limit_ok_def)
      moreover have "nat (600 - rl_Count l) = Suc (nat (600 - (rl_Count l + 1)))"
        using False by linarith
      ultimately show ?thesis using True False by (simp add: e step Let_def)
    qed
  qed
qed simp

lemma let_through_known:
  assumes ip: "ip \<noteq> ''127.0.0.1''" "ip \<noteq> ''::1''"
    and "m ip = Some l" and "limit_ok l" and "\<forall>(i, t)\<in>set es. T \<le> t \<and> t \<le> T + minute"
  shows "let_through ip es m \<le> 1200 - nat (rl_Count l)"
  using assms(3-)
proof (induction es arbitrary: m l)
  case (Cons e es)
  obtain i t where e: "e = (i, t)" by (cases e)
  show ?case
  proof (cases "i = ip")
    case False
    then have "let_through ip es (fst (checkRateLimit t t t i m)) \<le> 1200 - nat (rl_Count l)"
      using Cons.prems by (intro Cons.IH) (auto simp: checkRateLimit_other)
    with False show ?thesis by (simp add: e Let_def)
  next
    case True
    show ?thesis
    proof (cases "minute < t - rl_LastReset l")
      case reset: True
      let ?l = "l\<lparr>rl_Count := 1, rl_LastReset := t\<rparr>"
      have "let_through ip es (m(ip \<mapsto> ?l)) = min (length (filter (\<lambda>e. fst e = ip) es)) (nat (600 - rl_Count ?l))"
        using Cons.prems by (intro let_through_within [OF ip]) (auto simp: limit_ok_def e)
      moreover have "nat (rl_Count l) \<le> 600" using Cons.prems by (simp add: limit_ok_def nat_le_iff)
      moreover have "min (length (filter (\<lambda>e. fst e = ip) es)) 599 \<le> 599" by (rule min.cobounded2)
      ultimately show ?thesis using True reset Cons.prems
        by (simp add: e Let_def limit_ok_def checkRateLimit_reset [OF ip, of m l])
    next
      case within: False
      then have step: "checkRateLimit t t t ip m = (if 600 \<le> rl_Count l then (m(ip \<mapsto> l), False)
          else (m(ip \<mapsto> l\<lparr>rl_Count := rl_Count l + 1\<rparr>), True))"
        using checkRateLimit_within [OF ip, of m l t] Cons.prems(1,2) by (simp add: limit_ok_def)
      show ?thesis
      proof (cases "600 \<le> rl_Count l")
        case full: True
        have "let_through ip es (m(ip \<mapsto> l)) \<le> 1200 - nat (rl_Count l)"
          using Cons.prems by (intro Cons.IH) auto
        with full True show ?thesis by (simp add: e step Let_def)
      next
        case False
        let ?l = "l\<lparr>rl_Count := rl_Count l + 1\<rparr>"
        have "let_through ip es (m(ip \<mapsto> ?l)) \<le> 1200 - nat (rl_Count ?l)"
          using Cons.prems False by (intro Cons.IH) (auto simp: limit_ok_def)
        moreover have "nat (rl_Count ?l) = Suc (nat (rl_Count l))" "nat (rl_Count l) < 600"
          using Cons.prems False by (simp_all add: limit_ok_def nat_add_distrib)
        ultimately show ?thesis using True False by (simp add: e step Let_def)
      qed
    qed
  qed
qed simp

lemma let_through_new:
  assumes ip: "ip \<noteq> ''127.0.0.1''" "ip \<noteq> ''::1''"
    and "m ip = None" and "\<forall>(i, t)\<in>set es. T \<le> t \<and> t \<le> T + minute"
  shows "let_through ip es m = min 600 (length (filter (\<lambda>e. fst e = ip) es))"
  using assms(3-)
proof (induction es arbitrary: m)
  case (Cons e es)
  obtain i t where e: "e = (i, t)" by (cases e)
  show ?case
  proof (cases "i = ip")
    case False
    then have "let_through ip es (fst (checkRateLimit t t t i m)) = min 600 (length (filter (\<lambda>e. fst e = ip) es))"
      using Cons.prems by (intro Cons.IH) (auto simp: checkRateLimit_other)
    with False show ?thesis by (simp add: e Let_def)
  next
    case True
    let ?l = "\<lparr>rl_Count = 1, rl_LastReset = t, rl_RequestsPerMin = 600\<rparr>"
    have "let_through ip es (m(ip \<mapsto> ?l)) = min (length (filter (\<lambda>e. fst e = ip) es)) (nat (600 - rl_Count ?l))"
      using Cons.prems by (intro let_through_within [OF ip]) (auto simp: limit_ok_def e)
    with True show ?thesis
      by (simp add: e Let_def Cons.prems(1) checkRateLimit_first [OF ip, of m] min_def)
  qed
qed simp



text \<open>
  C36. No client is shut out for longer than a minute: once a minute has passed since its window
  began, its next request is let through, whatever other clients did in between.
\<close>

theorem refused_client_served_again:
  assumes "m ip = Some l" and "0 < rl_RequestsPerMin l" and "ip \<notin> fst ` set es" and "minute < t - rl_LastReset l"
  shows "snd (checkRateLimit t t t ip (fold (\<lambda>(i, u) m. fst (checkRateLimit u u u i m)) es m))"
proof -
  let ?m = "fold (\<lambda>(i, u) m. fst (checkRateLimit u u u i m)) es m"
  have "?m ip = Some l" using limits.fold_other [of ip es m] assms(1,3) by simp
  then show ?thesis
    using checkRateLimit_reset [of ip ?m l t] assms(2,4)
    by (cases "ip = ''127.0.0.1'' \<or> ip = ''::1''") (auto simp: checkRateLimit_def)
qed

theorem refused_client_served_again_witness:
  "snd (checkRateLimit (2 * minute) (2 * minute) (2 * minute) ''10.0.0.1''
     (fst (checkRateLimit minute minute minute ''10.0.0.2''
       [''10.0.0.1'' \<mapsto> \<lparr>rl_Count = 600, rl_LastReset = 0, rl_RequestsPerMin = 600\<rparr>])))"
  using refused_client_served_again [of "[''10.0.0.1'' \<mapsto> \<lparr>rl_Count = 600, rl_LastReset = 0, rl_RequestsPerMin = 600\<rparr>]"
      "''10.0.0.1''" "\<lparr>rl_Count = 600, rl_LastReset = 0, rl_RequestsPerMin = 600\<rparr>" "[(''10.0.0.2'', minute)]" "2 * minute"]
  by (simp add: minute_def)

text \<open>
  The limit and the list of addresses trust a header the client writes: a request that claims to
  be forwarded for the local host is never refused for its rate, from wherever it comes, and passes
  every list of addresses that has the local host.
\<close>

theorem forwarded_localhost_never_limited:
  "snd (handleRequest ps env (r\<lparr>hr_ForwardedFor := ''127.0.0.1''\<rparr>) sv) \<noteq> HttpError 429 ''Too many requests'' \<and>
   (map_of (sv_allowedIPs sv) ''127.0.0.1'' = Some True \<longrightarrow>
     (\<exists>code reply. snd (handleRequest ps env (r\<lparr>hr_ForwardedFor := ''127.0.0.1''\<rparr>) sv) = HttpJson code reply))"
  by (auto simp: handleRequest_def extractIP_def checkRateLimit_def allowed_def writeError_def Let_def
      split: sum.splits prod.splits)

definition guarded_server :: "unit server" where
  "guarded_server = (NewServerV2 '':16316'' short_chain)\<lparr>sv_allowedIPs := [(''127.0.0.1'', True)]\<rparr>"

definition outsider :: http_request where
  "outsider = \<lparr>hr_ForwardedFor = [], hr_RealIp = [], hr_RemoteAddr = ''203.0.113.9:5000'', hr_Body = Inl ''EOF''\<rparr>"

theorem forwarded_localhost_never_limited_witness:
  "snd (handleRequest no_persister sample_env outsider guarded_server) = HttpError 403 ''Forbidden'' \<and>
   (\<exists>code reply. snd (handleRequest no_persister sample_env (outsider\<lparr>hr_ForwardedFor := ''127.0.0.1''\<rparr>) guarded_server) =
     HttpJson code reply)"
proof -
  have "snd (handleRequest no_persister sample_env outsider guarded_server) = HttpError 403 ''Forbidden''"
    by (simp add: handleRequest_def extractIP_def outsider_def guarded_server_def allowed_def)
  moreover have "map_of (sv_allowedIPs guarded_server) ''127.0.0.1'' = Some True"
    by (simp add: guarded_server_def)
  ultimately show ?thesis
    using forwarded_localhost_never_limited [of no_persister sample_env outsider guarded_server] by blast
qed

subsection \<open>A serving node\<close>

text \<open>
  The server from its start: requests in any order with any clock readings, ticks of the cleanup, the
  stop, and in between the steps other parts of the node make on the chain it serves.
\<close>

inductive server_state :: "('s, 'e) persister \<Rightarrow> genesis_config \<Rightarrow> 's option \<Rightarrow> 's server \<Rightarrow> bool" for ps g st where
  started: "server_state ps g st (NewServerV2 addr (NewBlockchainV2 ps g st))"
| request: "server_state ps g st sv \<Longrightarrow> server_state ps g st (fst (handleRequest ps env r sv))"
| cleanup: "server_state ps g st sv \<Longrightarrow> server_state ps g st (cleanupConnections now sv)"
| stop: "server_state ps g st sv \<Longrightarrow> server_state ps g st (sv_Stop sv)"
| elsewhere: "server_state ps g st sv \<Longrightarrow> chain_step ps (sv_blockchain sv) c \<Longrightarrow>
    server_state ps g st (sv\<lparr>sv_blockchain := c\<rparr>)"

definition server_inv :: "('s, 'e) persister \<Rightarrow> genesis_config \<Rightarrow> 's option \<Rightarrow> 's server \<Rightarrow> bool" where
  "server_inv ps g st sv \<longleftrightarrow> reachable ps g st (sv_blockchain sv) \<and>
     (\<forall>ip l. sv_rateLimits sv ip = Some l \<longrightarrow> limit_ok l) \<and>
     (\<forall>i conn. sv_connections sv i = Some conn \<longrightarrow> cn_ID conn = i)"

lemma checkRateLimit_ok:
  "(\<forall>i l. m i = Some l \<longrightarrow> limit_ok l) \<Longrightarrow> \<forall>i l. fst (checkRateLimit t1 t2 t3 ip m) i = Some l \<longrightarrow> limit_ok l"
  by (auto simp: checkRateLimit_def limit_ok_def Let_def split: option.splits if_splits)

lemma trackConnection_ID:
  "(\<forall>i conn. m i = Some conn \<longrightarrow> cn_ID conn = i) \<Longrightarrow>
     \<forall>i conn. trackConnection t1 t2 ip m i = Some conn \<longrightarrow> cn_ID conn = i"
  by (auto simp: trackConnection_def split: option.splits if_splits)

lemma handleRequest_parts:
  obtains (refused) "fst (handleRequest ps env r sv) = sv"
  | (limited) "fst (handleRequest ps env r sv) = sv\<lparr>sv_rateLimits := fst (checkRateLimit (ev_now_limit env)
      (ev_now_since env) (ev_now_reset env) (extractIP r) (sv_rateLimits sv))\<rparr>"
  | (served) c where "c = sv_blockchain sv \<or> chain_step ps (sv_blockchain sv) c"
      "fst (handleRequest ps env r sv) = sv\<lparr>sv_rateLimits := fst (checkRateLimit (ev_now_limit env)
        (ev_now_since env) (ev_now_reset env) (extractIP r) (sv_rateLimits sv)),
      sv_connections := trackConnection (ev_now_created env) (ev_now_seen env) (extractIP r) (sv_connections sv),
      sv_blockchain := c\<rparr>"
proof (cases "allowed sv (extractIP r)")
  case False
  then show thesis using refused by (simp add: handleRequest_def)
next
  case ok: True
  obtain m b where lim: "checkRateLimit (ev_now_limit env) (ev_now_since env) (ev_now_reset env) (extractIP r)
      (sv_rateLimits sv) = (m, b)" by fastforce
  show thesis
  proof (cases b)
    case False
    then show thesis using limited ok lim by (simp add: handleRequest_def)
  next
    case True
    show thesis
    proof (cases "hr_Body r")
      case (Inl e)
      then show thesis using served [of "sv_blockchain sv"] True ok lim by (simp add: handleRequest_def Let_def)
    next
      case (Inr req)
      obtain c x where m: "handleRPCMethod ps env req (sv_blockchain sv) = (c, x)" by fastforce
      have "c = sv_blockchain sv \<or> chain_step ps (sv_blockchain sv) c"
        using handleRPCMethod_step [of ps env req "sv_blockchain sv"] by (simp add: m)
      then show thesis
        using served [of c] True ok lim Inr m by (cases x) (simp_all add: handleRequest_def Let_def)
    qed
  qed
qed

lemma server_inv_request:
  assumes "server_inv ps g st sv"
  shows "server_inv ps g st (fst (handleRequest ps env r sv))"
proof (cases rule: handleRequest_parts [of ps env r sv])
  case refused
  with assms show ?thesis by simp
next
  case limited
  have "\<forall>i l. fst (checkRateLimit (ev_now_limit env) (ev_now_since env) (ev_now_reset env) (extractIP r)
      (sv_rateLimits sv)) i = Some l \<longrightarrow> limit_ok l"
    using assms by (intro checkRateLimit_ok) (simp add: server_inv_def)
  with assms show ?thesis by (simp add: server_inv_def limited)
next
  case (served c)
  have "\<forall>i l. fst (checkRateLimit (ev_now_limit env) (ev_now_since env) (ev_now_reset env) (extractIP r)
      (sv_rateLimits sv)) i = Some l \<longrightarrow> limit_ok l"
    using assms by (intro checkRateLimit_ok) (simp add: server_inv_def)
  moreover have "\<forall>i conn. trackConnection (ev_now_created env) (ev_now_seen env) (extractIP r) (sv_connections sv) i
      = Some conn \<longrightarrow> cn_ID conn = i"
    using assms by (intro trackConnection_ID) (simp add: server_inv_def)
  moreover have "reachable ps g st c"
    using assms served(1) by (auto simp: server_inv_def intro: reachable.stepped)
  ultimately show ?thesis by (simp add: server_inv_def served(2))
qed

lemma server_state_inv: "server_state ps g st sv \<Longrightarrow> server_inv ps g st sv"
proof (induction rule: server_state.induct)
  case (request sv env r)
  then show ?case by (simp add: server_inv_request)
qed (auto simp: server_inv_def NewServerV2_def cleanupConnections_def sv_Stop_def
    intro: reachable.started reachable.stepped split: option.splits if_splits)

text \<open>
  C7. Whatever requests a server has handled, the chain it serves is one a node reaches by its own
  steps, so that the ledger and the linking of blocks hold under any client; no counter has passed
  its limit, and a connection is recorded under its own address.
\<close>

theorem server_refines_chain:
  assumes "server_state ps g st sv"
  shows "reachable ps g st (sv_blockchain sv) \<and>
    (\<forall>ip l. sv_rateLimits sv ip = Some l \<longrightarrow> 0 \<le> rl_Count l \<and> rl_Count l \<le> rl_RequestsPerMin l) \<and>
    (\<forall>i conn. sv_connections sv i = Some conn \<longrightarrow> cn_ID conn = i)"
  using server_state_inv [OF assms] by (auto simp: server_inv_def limit_ok_def)

definition sample_request :: http_request where
  "sample_request = \<lparr>hr_ForwardedFor = [], hr_RealIp = [], hr_RemoteAddr = ''10.0.0.1:5000'',
     hr_Body = Inr (request ''getHeight'' JNil)\<rparr>"

theorem server_refines_chain_witness:
  "reachable no_persister testnet_genesis None (sv_blockchain (fst (handleRequest no_persister sample_env sample_request
     (NewServerV2 '':16316'' (NewBlockchainV2 no_persister testnet_genesis None)))))"
  using server_refines_chain [OF server_state.request [OF server_state.started]] by blast

text \<open>
  An answered request gets the reply of its handler: the JSON of a reply can always be written, so
  that the only internal errors a client sees are panics.
\<close>

theorem handleRequest_never_marshal_error:
  assumes "hr_Body r = Inr req" and "json_finite (rq_ID req)"
    and "snd (handleRequest ps env r sv) = HttpJson code reply"
  shows "code = 200 \<and> snd (handleRPCMethod ps env req (sv_blockchain sv)) = Inr reply \<or>
    code = 500 \<and> (\<exists>p. snd (handleRPCMethod ps env req (sv_blockchain sv)) = Inl p \<and> reply = panic_reply p)"
proof -
  obtain c x where m: "handleRPCMethod ps env req (sv_blockchain sv) = (c, x)" by fastforce
  have "response_marshals r'" if "x = Inr r'" for r'
    using handleRPCMethod_well_formed [of ps env req "sv_blockchain sv" r'] that assms(2)
    by (auto simp: m well_formed_def response_marshals_def split: option.splits)
  then show ?thesis
    using assms(1,3) m by (auto simp: handleRequest_def Let_def split: if_splits prod.splits bool.splits sum.splits)
qed

theorem handleRequest_never_marshal_error_witness:
  "snd (handleRPCMethod no_persister sample_env (request ''getHeight'' JNil) short_chain) =
     Inr (rpc_ok (request ''getHeight'' JNil) (VU64 (GetHeight short_chain)))"
proof -
  have "f64_finite (f64_of_nat 1)" by (simp add: f64_one del: One_nat_def)
  then show ?thesis
  using handleRequest_never_marshal_error [of sample_request "request ''getHeight'' JNil" no_persister sample_env
      "NewServerV2 '':16316'' short_chain" 200 "rpc_ok (request ''getHeight'' JNil) (VU64 (GetHeight short_chain))"]
  by (simp add: sample_request_def request_def NewServerV2_def handleRequest_def extractIP_def allowed_def
      checkRateLimit_def Let_def handleRPCMethod_def handleGetHeight_def response_marshals_def rpc_ok_def sample_env_def
      minute_def time_Sub_def del: One_nat_def)
qed

end
