(* ===== verification/RpcStart.thy ===== *)
theory RpcStart
  imports RpcServer
begin

text \<open>
  \<^verbatim>\<open>ServerV2.Start\<close> of \<^verbatim>\<open>rpc/server_v2.go\<close>: the routes, the settings of the HTTP server and its
  shutdown, and a request on its way through the limit on connections and the routes. \<open>port\<close> is
  the error of \<^verbatim>\<open>ListenAndServe\<close>, if any.
\<close>

record http_settings =
  hs_Addr :: string
  hs_ReadTimeout :: int
  hs_WriteTimeout :: int
  hs_IdleTimeout :: int
  hs_MaxHeaderBytes :: int

record 's listener =
  li_server :: "'s server"
  li_settings :: "http_settings option"
  li_bound :: bool
  li_inside :: nat

text \<open>The goroutine that serves logs an error of the port; the start returns no error in any case.\<close>

definition sv_Start :: "string option \<Rightarrow> 's server \<Rightarrow> 's listener \<times> (string + unit)" where
  "sv_Start port sv =
     (\<lparr>li_server = sv,
       li_settings = Some \<lparr>hs_Addr = sv_addr sv, hs_ReadTimeout = 30 * 1000000000, hs_WriteTimeout = 30 * 1000000000,
         hs_IdleTimeout = 60 * 1000000000, hs_MaxHeaderBytes = 2 ^ 20\<rparr>,
       li_bound = (port = None), li_inside = 0\<rparr>, Inr ())"

text \<open>The cancelled context shuts the server down: the port is closed.\<close>

definition sv_shutdown :: "'s listener \<Rightarrow> 's listener" where
  "sv_shutdown l = (if sv_stopped (li_server l) then l\<lparr>li_bound := False\<rparr> else l)"

datatype http_route = ToHealth | ToRequest

text \<open>The root pattern matches what no other does.\<close>

definition sv_route :: "string \<Rightarrow> http_route" where
  "sv_route path = (if path = ''/health'' then ToHealth else ToRequest)"

datatype http_answer = Refused | Health "(string \<times> rpc_value) list" gotime | Replied http_reply

text \<open>A request that finds no room is turned away; one that does is handled inside.\<close>

definition http_request_turn ::
  "('s, 'e) persister \<Rightarrow> rpc_env \<Rightarrow> gotime \<Rightarrow> string \<Rightarrow> http_request \<Rightarrow> 's listener \<Rightarrow> 's listener \<times> http_answer" where
  "http_request_turn ps env now path r l =
     (if \<not> li_bound l then (l, Refused)
      else
        (case limit_enter (li_inside l) of
           (n, Some busy) \<Rightarrow> (l\<lparr>li_inside := n\<rparr>, Replied busy)
         | (n, None) \<Rightarrow>
             (case sv_route path of
                ToHealth \<Rightarrow>
                  (l\<lparr>li_inside := limit_leave n\<rparr>, case handleHealth now (li_server l) of (entries, t) \<Rightarrow> Health entries t)
              | ToRequest \<Rightarrow>
                  (let (sv, reply) = handleRequest ps env r (li_server l)
                   in (l\<lparr>li_inside := limit_leave n, li_server := sv\<rparr>, Replied reply)))))"

text \<open>
  A server whose port cannot be opened starts without an error and answers nobody; and the health of a
  server is told to everyone, whatever list of addresses and rate limit hold for requests.
\<close>

lemma unbound_answers_nobody:
  "snd (sv_Start (Some e) sv) = Inr ()" "http_request_turn ps env now path r (fst (sv_Start (Some e) sv)) = (fst (sv_Start (Some e) sv), Refused)"
  by (simp_all add: sv_Start_def http_request_turn_def)

lemma health_unlimited:
  assumes "li_bound l" and "li_inside l < 50"
  shows "http_request_turn ps env now ''/health'' r l =
    (l, Health [(''status'', VStr ''ok''), (''version'', VStr ''2.0''), (''height'', VU64 (GetHeight (sv_blockchain (li_server l))))] now)"
  using assms by (simp add: http_request_turn_def limit_enter_def limit_leave_def sv_route_def handleHealth_def)

lemma turn_keeps_inside: "li_inside (fst (http_request_turn ps env now path r l)) = li_inside l"
  by (simp add: http_request_turn_def limit_enter_def limit_leave_def split: http_route.split prod.split)

end
