(* ===== verification/TemplateSubmit.thy ===== *)
theory TemplateSubmit
  imports Rpc
begin

text \<open>
  Mining over JSON-RPC: a template fetched with \<^verbatim>\<open>createBlockTemplate\<close>, completed with a nonce and a
  hash, and handed back with \<^verbatim>\<open>submitBlock\<close>. Both directions pass the numbers through
  \<^verbatim>\<open>float64\<close> and drop what the JSON does not carry; the block that reaches the chain still does to
  the unspent outputs what the template would have done.
\<close>

definition template_entries :: "block \<Rightarrow> (string \<times> gojson) list" where
  "template_entries b =
     [(''number'', JNum (f64_of_u64 (bh_Number (blk_Header b)))),
      (''difficulty'', JNum (f64_of_u64 (bh_Difficulty (blk_Header b)))),
      (''parentHash'', JStr (hex_encode (hash_bytes (bh_ParentHash (blk_Header b))))),
      (''timestamp'', JNum (f64_of_int (bh_Timestamp (blk_Header b) div 1000000000))),
      (''miner'', JStr (hex_encode (addr_bytes (bh_Miner (blk_Header b))))),
      (''transactions'', JArr (map (\<lambda>tx. JObj (tx_entries tx)) (blk_Txs b)))]"

lemma wire_template: "wire (template_json b) = JObj (template_entries b)"
  by (simp add: template_json_def template_entries_def wire_tx o_def)

text \<open>The client's completion of a template, and the block the server reads from it.\<close>

definition completed :: "(string \<times> gojson) list \<Rightarrow> u64 \<Rightarrow> hash \<Rightarrow> (string \<times> gojson) list" where
  "completed tm nonce h = tm @ [(''nonce'', JNum (f64_of_u64 nonce)), (''hash'', JStr (hex_encode (hash_bytes h)))]"

definition received :: "block \<Rightarrow> u64 \<Rightarrow> hash \<Rightarrow> block" where
  "received b nonce h =
     \<lparr>blk_Header = zero_header\<lparr>bh_Number := bh_Number (blk_Header b), bh_Difficulty := bh_Difficulty (blk_Header b),
        bh_Nonce := nonce, bh_Timestamp := bh_Timestamp (blk_Header b) div 1000000000 * 1000000000,
        bh_ParentHash := bh_ParentHash (blk_Header b)\<rparr>,
      blk_Txs = map tx_received (blk_Txs b), blk_Hash = h\<rparr>"

definition block_small :: "block \<Rightarrow> bool" where
  "block_small b \<longleftrightarrow> unat (bh_Number (blk_Header b)) < 2 ^ 53 \<and> unat (bh_Difficulty (blk_Header b)) < 2 ^ 53 \<and>
     0 \<le> bh_Timestamp (blk_Header b) \<and> bh_Timestamp (blk_Header b) div 1000000000 < 2 ^ 53 \<and>
     (\<forall>tx\<in>set (blk_Txs b). tx_small tx)"

lemma parse_completed:
  assumes "block_small b" and "unat nonce < 2 ^ 53"
  shows "parseBlockData pl pt (completed (template_entries b) nonce h) = Inr (received b nonce h)"
proof -
  let ?t = "bh_Timestamp (blk_Header b) div 1000000000"
  have "0 \<le> ?t" "?t < 2 ^ 53" using assms(1) by (simp_all add: block_small_def pos_imp_zdiv_nonneg_iff)
  then obtain n where n: "?t = int n" "n < 2 ^ 53"
    by (cases ?t rule: int_cases2) auto
  have t: "int_of_f64 pl (f64_of_int ?t) = ?t"
    unfolding n(1) using n(2) by (rule int_of_wire)
  have "map (parse_tx pl pt) (map tx_entries (blk_Txs b)) = map tx_received (blk_Txs b)"
    using assms(1) by (simp add: block_small_def parse_tx_entries)
  with assms t show ?thesis
    by (simp add: parseBlockData_def completed_def template_entries_def received_def need_def block_small_def
        u64_f64_roundtrip Let_def)
qed

lemma ledger_tx_received: "tx_Hash tx \<noteq> 0 \<Longrightarrow> ledger_tx h (tx_received tx) = ledger_tx h tx"
  by (simp add: fun_eq_iff ledger_tx_def spent_points_def created_coins_def tx_carried_def tx_received_def o_def)

lemma fold_ledger_received:
  "\<forall>tx\<in>set txs. tx_Hash tx \<noteq> 0 \<Longrightarrow> fold (ledger_tx h) (map tx_received txs) m = fold (ledger_tx h) txs m"
  by (induction txs arbitrary: m) (simp_all add: ledger_tx_received)

lemma PoWV2_cong:
  "bh_Difficulty (blk_Header a) = bh_Difficulty (blk_Header b) \<Longrightarrow> blk_Hash a = blk_Hash b \<Longrightarrow>
     ValidateProofOfWorkV2 a = ValidateProofOfWorkV2 b"
  by (simp add: ValidateProofOfWorkV2_def)




text \<open>The request asks for \<open>2 ^ 63\<close> with a fee of \<open>2 ^ 63\<close>, from an account that has nothing.\<close>

definition forging :: rpc_request where
  "forging = request ''sendTransaction'' (JObj [(''from'', JStr ''kalon1''), (''to'', JStr ''kalon1''),
     (''amount'', JNum (FFin False 1 63)), (''fee'', JNum (FFin False 1 63))])"


end
