(* ===== verification/Bech32.thy ===== *)
theory Bech32
  imports GoStrings CoreTypes
begin

text \<open>
  \<^verbatim>\<open>crypto/bech32.go\<close>: Bech32 text of byte strings. Go's \<^verbatim>\<open>uint\<close> has 64 bits. The loop that
  takes groups of bits out of the accumulator runs forever for groups of zero bits: it is a
  \<^theory_text>\<open>partial_function\<close>, and a conversion that does not end is \<open>None\<close>. What the code calls is shown
  to end.
\<close>

datatype bech_error =
  InvalidDataByte u8 | InvalidBech32String | InvalidCharacter nat | InvalidChecksum | InvalidPadding
  | InvalidAddressLength nat | InvalidHexString

definition charset :: string where
  "charset = ''qpzry9x8gf2tvdw0s3jn54khce6mua7l''"

subsection \<open>Regrouping bits\<close>

partial_function (option) take_groups :: "nat \<Rightarrow> u64 \<Rightarrow> nat \<Rightarrow> bytes \<Rightarrow> (nat \<times> bytes) option" where
  "take_groups toBits acc bits result =
     (if toBits \<le> bits then
        take_groups toBits acc (bits - toBits)
          (result @ [ucast (drop_bit (bits - toBits) acc AND (push_bit toBits 1 - 1))])
      else Some (bits, result))"

primrec convert_loop ::
  "nat \<Rightarrow> nat \<Rightarrow> bytes \<Rightarrow> u64 \<Rightarrow> nat \<Rightarrow> bytes \<Rightarrow> (u64 \<times> nat \<times> bytes) option" where
  "convert_loop fromBits toBits [] acc bits result = Some (acc, bits, result)"
| "convert_loop fromBits toBits (b # data) acc bits result =
     (let acc = (push_bit fromBits acc OR ucast b) AND (push_bit (fromBits + toBits - 1) 1 - 1)
      in case take_groups toBits acc (bits + fromBits) result of
           None \<Rightarrow> None
         | Some (bits, result) \<Rightarrow> convert_loop fromBits toBits data acc bits result)"

definition convertBits :: "nat \<Rightarrow> nat \<Rightarrow> bool \<Rightarrow> bytes \<Rightarrow> (bech_error + bytes) option" where
  "convertBits fromBits toBits pad data =
     (case convert_loop fromBits toBits data 0 0 [] of
        None \<Rightarrow> None
      | Some (acc, bits, result) \<Rightarrow>
          (let rest = push_bit (toBits - bits) acc AND (push_bit toBits 1 - 1) in
           if pad then Some (Inr (if 0 < bits then result @ [ucast rest] else result))
           else if fromBits \<le> bits \<or> rest \<noteq> 0 then Some (Inl InvalidPadding)
           else Some (Inr result)))"

subsection \<open>The checksum\<close>

definition bech_gen :: "u64 list" where
  "bech_gen = [0x3b6a57b2, 0x26508e6d, 0x1ea119fa, 0x3d4233dd, 0x2a1462b3]"

definition polymod_step :: "u8 \<Rightarrow> u64 \<Rightarrow> u64" where
  "polymod_step v chk =
     (let b = drop_bit 25 chk in
      fold (\<lambda>i chk. if drop_bit i b AND 1 = 1 then chk XOR bech_gen ! i else chk) [0..<5]
        (push_bit 5 (chk AND 0x1ffffff) XOR ucast v))"

definition polymod :: "bytes \<Rightarrow> u64" where
  "polymod values = fold polymod_step values 1"

text \<open>Ranging over a string yields runes; \<^verbatim>\<open>byte(c >> 5)\<close> cuts them to eight bits.\<close>

definition hrp_values :: "string \<Rightarrow> bytes" where
  "hrp_values hrp =
     map (\<lambda>c. of_nat (c div 32)) (go_runes hrp) @ [0] @ map (\<lambda>c. of_nat (c mod 32)) (go_runes hrp)"

definition createChecksum :: "string \<Rightarrow> bytes \<Rightarrow> bytes" where
  "createChecksum hrp data =
     (let values = hrp_values hrp @ data @ [0, 0, 0, 0, 0, 0];
          pm = polymod values XOR 1
      in map (\<lambda>i. ucast (drop_bit (5 * (5 - i)) pm AND 0x1f)) [0..<6])"

definition verifyChecksum :: "string \<Rightarrow> bytes \<Rightarrow> bool" where
  "verifyChecksum hrp data \<longleftrightarrow> polymod (hrp_values hrp @ data) = 1"

subsection \<open>Encoding and decoding\<close>

primrec encode_chars :: "bytes \<Rightarrow> string \<Rightarrow> bech_error + string" where
  "encode_chars [] result = Inr result"
| "encode_chars (b # bs) result =
     (if length charset \<le> unat b then Inl (InvalidDataByte b)
      else encode_chars bs (result @ [charset ! unat b]))"

definition bech_Encode :: "string \<Rightarrow> bytes \<Rightarrow> (bech_error + string) option" where
  "bech_Encode hrp data =
     (case convertBits 8 5 True data of
        None \<Rightarrow> None
      | Some (Inl e) \<Rightarrow> Some (Inl e)
      | Some (Inr converted) \<Rightarrow>
          Some (encode_chars (converted @ createChecksum hrp converted) (hrp @ ''1'')))"

text \<open>\<^verbatim>\<open>strings.IndexRune(charset, c)\<close> for a rune of the character set.\<close>

definition char_index :: "nat \<Rightarrow> nat option" where
  "char_index c = map_of (zip (map of_char charset) [0..<32]) c"

primrec first_invalid :: "nat list \<Rightarrow> nat option" where
  "first_invalid [] = None"
| "first_invalid (c # cs) = (if char_index c = None then Some c else first_invalid cs)"

text \<open>Once every rune is a character of the set, it is one byte and its place is its index.\<close>

definition bech_Decode :: "string \<Rightarrow> (bech_error + string \<times> bytes) option" where
  "bech_Decode s =
     (let sep = LastIndex s (CHR ''1'') in
      if sep < 1 \<or> int (length s) < sep + 7 \<or> int (length s) < sep + 1 + 6 then Some (Inl InvalidBech32String)
      else
        (let hrp = take (nat sep) s; data = drop (nat sep + 1) s in
         case first_invalid (go_runes data) of
           Some c \<Rightarrow> Some (Inl (InvalidCharacter c))
         | None \<Rightarrow>
             (let decoded = map (\<lambda>c. of_nat (the (char_index c))) (go_runes data) in
              if \<not> verifyChecksum hrp decoded then Some (Inl InvalidChecksum)
              else
                (case convertBits 5 8 False (take (length decoded - 6) decoded) of
                   None \<Rightarrow> None
                 | Some (Inl e) \<Rightarrow> Some (Inl e)
                 | Some (Inr converted) \<Rightarrow> Some (Inr (hrp, converted))))))"

definition AddressToBech32 :: "address \<Rightarrow> string \<Rightarrow> (bech_error + string) option" where
  "AddressToBech32 a hrp = bech_Encode hrp (addr_bytes a)"

definition Bech32ToAddress :: "string \<Rightarrow> (bech_error + address) option" where
  "Bech32ToAddress s =
     (case bech_Decode s of
        None \<Rightarrow> None
      | Some (Inl e) \<Rightarrow> Some (Inl e)
      | Some (Inr (_, data)) \<Rightarrow>
          if length data \<noteq> 20 then Some (Inl (InvalidAddressLength (length data)))
          else Some (Inr (addr_of data)))"

definition ValidateBech32 :: "string \<Rightarrow> bool option" where
  "ValidateBech32 s = map_option is_ok (bech_Decode s)"

definition GetHRPFromBech32 :: "string \<Rightarrow> bech_error + string" where
  "GetHRPFromBech32 s =
     (let sep = LastIndex s (CHR ''1'') in
      if sep < 1 then Inl InvalidBech32String else Inr (take (nat sep) s))"

definition IsValidKalonAddress :: "string \<Rightarrow> bool option" where
  "IsValidKalonAddress s =
     (case ValidateBech32 s of
        None \<Rightarrow> None
      | Some ok \<Rightarrow>
          Some (if \<not> ok then False
                else (case GetHRPFromBech32 s of Inl _ \<Rightarrow> False | Inr hrp \<Rightarrow> hrp = ''kalon'')))"

definition AddressFromHex :: "string \<Rightarrow> bech_error + address" where
  "AddressFromHex hexStr =
     (let hexStr = (if HasPrefix hexStr ''0x'' then drop 2 hexStr else hexStr) in
      case hex_decode hexStr of
        None \<Rightarrow> Inl InvalidHexString
      | Some data \<Rightarrow>
          if length data \<noteq> 20 then Inl (InvalidAddressLength (length data)) else Inr (addr_of data))"

definition AddressToHex :: "address \<Rightarrow> string" where
  "AddressToHex a = ''0x'' @ hex_encode (addr_bytes a)"

definition DecodeBech32 :: "string \<Rightarrow> (bech_error + bytes) option" where
  "DecodeBech32 s = map_option (map_sum id snd) (bech_Decode s)"

subsection \<open>Groups of bits as digits of a number\<close>

primrec gval :: "nat \<Rightarrow> bytes \<Rightarrow> nat" where
  "gval k [] = 0"
| "gval k (d # ds) = unat d * 2 ^ (k * length ds) + gval k ds"

definition digits :: "nat \<Rightarrow> bytes \<Rightarrow> bool" where
  "digits k ds \<longleftrightarrow> (\<forall>d\<in>set ds. unat d < 2 ^ k)"

lemma digits_simps [simp]:
  "digits k []" "digits k (d # ds) \<longleftrightarrow> unat d < 2 ^ k \<and> digits k ds" "digits k (xs @ ys) \<longleftrightarrow> digits k xs \<and> digits k ys"
  by (auto simp: digits_def)

lemma digits_8 [simp]: "digits 8 ds"
  by (simp add: digits_def)

lemma gval_append: "gval k (xs @ ys) = gval k xs * 2 ^ (k * length ys) + gval k ys"
  by (induction xs) (simp_all add: algebra_simps power_add)

lemma gval_less: "digits k ds \<Longrightarrow> gval k ds < 2 ^ (k * length ds)"
proof (induction ds)
  case (Cons d ds)
  then have "gval k ds < 2 ^ (k * length ds)" "unat d + 1 \<le> 2 ^ k" by simp_all
  then have "gval k (d # ds) < (unat d + 1) * 2 ^ (k * length ds)" by simp
  also have "\<dots> \<le> 2 ^ k * 2 ^ (k * length ds)"
    using \<open>unat d + 1 \<le> 2 ^ k\<close> by (rule mult_right_mono) simp
  finally show ?case by (simp add: power_add)
qed simp

lemma gval_inj:
  "length xs = length ys \<Longrightarrow> digits k xs \<Longrightarrow> digits k ys \<Longrightarrow> gval k xs = gval k ys \<Longrightarrow> xs = ys"
proof (induction xs ys rule: list_induct2)
  case (Cons x xs y ys)
  let ?m = "2 ^ (k * length ys) :: nat"
  have l: "gval k xs < ?m" "gval k ys < ?m"
    using gval_less [of k xs] gval_less [of k ys] Cons by simp_all
  have e: "gval k xs + unat x * ?m = gval k ys + unat y * ?m" using Cons by simp
  then have "(gval k xs + unat x * ?m) div ?m = (gval k ys + unat y * ?m) div ?m" by simp
  then have "unat x = unat y" using l by simp
  with e Cons show ?case by (simp add: word_unat_eq_iff)
qed simp

lemma push_bit_1_minus_1: "push_bit n 1 - 1 = (mask n :: u64)"
  by (simp add: push_bit_eq_mult mask_eq_decr_exp)

lemma unat_ucast_u8: "unat w < 256 \<Longrightarrow> unat (ucast (w :: u64) :: u8) = unat w"
  by (simp add: unsigned_ucast_eq take_bit_eq_mod)

lemma take_groups_spec:
  assumes "0 < t" and "t \<le> 8"
  shows "\<exists>r. take_groups t acc bits result = Some (bits mod t, result @ r) \<and> length r = bits div t \<and> digits t r \<and>
    gval t r * 2 ^ (bits mod t) + unat acc mod 2 ^ (bits mod t) = unat acc mod 2 ^ bits"
proof (induction bits arbitrary: result rule: less_induct)
  case (less bits)
  show ?case
  proof (cases "t \<le> bits")
    case False
    then show ?thesis by (subst take_groups.simps) simp
  next
    case True
    define d :: u8 where "d = ucast (drop_bit (bits - t) acc AND (push_bit t 1 - 1))"
    define k where "k = bits - t"
    have "unat (take_bit t (drop_bit k acc)) = take_bit t (drop_bit k (unat acc))"
      by (rule bit_eqI) (auto simp: bit_simps unsigned_take_bit_eq unsigned_drop_bit_eq dest: bit_imp_le_length)
    then have "unat (take_bit t (drop_bit k acc)) = unat acc div 2 ^ k mod 2 ^ t"
      by (simp only: take_bit_eq_mod drop_bit_eq_div)
    moreover have "unat acc div 2 ^ k mod 2 ^ t < 256"
      using power_increasing [of t 8 "2 :: nat"] assms by (intro less_le_trans [of _ "2 ^ t" 256]) simp_all
    moreover have "d = ucast (take_bit t (drop_bit k acc))"
      unfolding d_def push_bit_1_minus_1 k_def take_bit_eq_mask ..
    ultimately have d: "unat d = unat acc div 2 ^ k mod 2 ^ t" by (metis unat_ucast_u8)
    have "bits - t < bits" using assms(1) True by simp
    from less [OF this, of "result @ [d]"] obtain r where
      r: "take_groups t acc k (result @ [d]) = Some (k mod t, (result @ [d]) @ r)" "length r = k div t" "digits t r"
        "gval t r * 2 ^ (k mod t) + unat acc mod 2 ^ (k mod t) = unat acc mod 2 ^ k"
      unfolding k_def by blast
    have km: "k mod t = bits mod t" and kd: "bits div t = Suc (k div t)"
      using True assms(1) by (simp_all add: k_def le_mod_geq le_div_geq)
    have "take_groups t acc bits result = Some (bits mod t, result @ (d # r))"
      using True r(1) km by (subst take_groups.simps) (simp add: d_def k_def)
    moreover have "length (d # r) = bits div t" "digits t (d # r)"
      using r(2,3) d kd by simp_all
    moreover have "gval t (d # r) * 2 ^ (bits mod t) + unat acc mod 2 ^ (bits mod t) = unat acc mod 2 ^ bits"
    proof -
      have "t * (k div t) + k mod t = k" by simp
      then have "(2::nat) ^ (t * (k div t)) * 2 ^ (k mod t) = 2 ^ k" by (metis power_add)
      then have "gval t (d # r) * 2 ^ (k mod t) + unat acc mod 2 ^ (k mod t) = unat d * 2 ^ k + unat acc mod 2 ^ k"
        using r(2,4) by (simp add: algebra_simps)
      also have "\<dots> = unat acc mod (2 ^ k * 2 ^ t)"
        by (simp add: d mod_mult2_eq)
      also have "(2::nat) ^ k * 2 ^ t = 2 ^ bits"
        using True by (simp add: k_def flip: power_add)
      finally show ?thesis by (simp only: km)
    qed
    ultimately show ?thesis by blast
  qed
qed

lemma acc_step:
  fixes acc :: u64 and b :: u8
  assumes "unat b < 2 ^ f" and "bits < t" and "f + t \<le> 64"
  shows "unat ((push_bit f acc OR ucast b) AND (push_bit (f + t - 1) 1 - 1)) mod 2 ^ (bits + f) =
    (unat acc mod 2 ^ bits) * 2 ^ f + unat b"
proof -
  have b: "\<not> bit (unat b) n" if "f \<le> n" for n
    using assms(1) that by (metis take_bit_nat_eq_self bit_take_bit_iff not_less)
  have "take_bit (bits + f) (unat ((push_bit f acc OR ucast b) AND mask (f + t - 1))) =
      push_bit f (take_bit bits (unat acc)) OR unat b"
  proof (rule bit_eqI)
    fix n
    show "bit (take_bit (bits + f) (unat ((push_bit f acc OR ucast b) AND mask (f + t - 1)))) n =
        bit (push_bit f (take_bit bits (unat acc)) OR unat b) n"
      using b [of n] assms(2,3)
      by (cases "f \<le> n") (auto simp: bit_simps unsigned_and_eq unsigned_or_eq unsigned_push_bit_eq unsigned_ucast_eq)
  qed
  also have "\<dots> = push_bit f (take_bit bits (unat acc)) + unat b"
    using b by (intro disjunctive_add [symmetric]) (auto simp: bit_simps)
  also have "push_bit f (take_bit bits (unat acc)) = take_bit bits (unat acc) * 2 ^ f"
    by (rule push_bit_eq_mult)
  finally show ?thesis
    unfolding push_bit_1_minus_1 by (simp only: take_bit_eq_mod)
qed

lemma convert_loop_spec:
  assumes t: "0 < t" "t \<le> 8" and f: "f + t \<le> 64"
  shows "digits f data \<Longrightarrow> bits < t \<Longrightarrow> \<exists>acc' r bits'.
    convert_loop f t data acc bits result = Some (acc', bits', result @ r) \<and> bits' < t \<and>
    t * length r + bits' = bits + f * length data \<and> digits t r \<and>
    gval t r * 2 ^ bits' + unat acc' mod 2 ^ bits' = (unat acc mod 2 ^ bits) * 2 ^ (f * length data) + gval f data"
proof (induction data arbitrary: acc bits result)
  case Nil
  then show ?case by (intro exI [of _ acc] exI [of _ "[]"] exI [of _ bits]) simp
next
  case (Cons b data)
  define acc1 :: u64 where "acc1 = (push_bit f acc OR ucast b) AND (push_bit (f + t - 1) 1 - 1)"
  define bits1 where "bits1 = (bits + f) mod t"
  have a: "unat acc1 mod 2 ^ (bits + f) = (unat acc mod 2 ^ bits) * 2 ^ f + unat b"
    unfolding acc1_def using Cons.prems f by (intro acc_step) simp_all
  obtain r1 where r1: "take_groups t acc1 (bits + f) result = Some (bits1, result @ r1)"
      "length r1 = (bits + f) div t" "digits t r1"
      "gval t r1 * 2 ^ bits1 + unat acc1 mod 2 ^ bits1 = unat acc1 mod 2 ^ (bits + f)"
    using take_groups_spec [OF t, of acc1 "bits + f" result] unfolding bits1_def by blast
  have bits1: "bits1 < t" "t * length r1 + bits1 = bits + f"
    using t(1) by (simp_all add: bits1_def r1(2))
  obtain acc' r2 bits' where r2: "convert_loop f t data acc1 bits1 (result @ r1) = Some (acc', bits', (result @ r1) @ r2)"
      "bits' < t" "t * length r2 + bits' = bits1 + f * length data" "digits t r2"
      "gval t r2 * 2 ^ bits' + unat acc' mod 2 ^ bits' =
        (unat acc1 mod 2 ^ bits1) * 2 ^ (f * length data) + gval f data"
    using Cons.IH [OF _ bits1(1), of acc1 "result @ r1"] Cons.prems(1) by auto
  have "convert_loop f t (b # data) acc bits result = Some (acc', bits', result @ (r1 @ r2))"
    using r1(1) r2(1) by (simp add: Let_def acc1_def)
  moreover have "t * length (r1 @ r2) + bits' = bits + f * length (b # data)"
    using r2(3) bits1(2) by (simp add: algebra_simps)
  moreover have "gval t (r1 @ r2) * 2 ^ bits' + unat acc' mod 2 ^ bits' =
      (unat acc mod 2 ^ bits) * 2 ^ (f * length (b # data)) + gval f (b # data)"
  proof -
    have "gval t (r1 @ r2) * 2 ^ bits' + unat acc' mod 2 ^ bits' =
        gval t r1 * 2 ^ (t * length r2 + bits') + (gval t r2 * 2 ^ bits' + unat acc' mod 2 ^ bits')"
      by (simp add: gval_append algebra_simps power_add)
    also have "\<dots> = (gval t r1 * 2 ^ bits1 + unat acc1 mod 2 ^ bits1) * 2 ^ (f * length data) + gval f data"
      unfolding r2(3,5) by (simp add: algebra_simps power_add)
    also have "\<dots> = ((unat acc mod 2 ^ bits) * 2 ^ f + unat b) * 2 ^ (f * length data) + gval f data"
      by (simp only: r1(4) a)
    finally show ?thesis by (simp add: algebra_simps power_add)
  qed
  ultimately show ?case using r1(3) r2(2,4) by (metis digits_simps(3))
qed

text \<open>The conversions end: a group of at least one bit is taken each time.\<close>

lemma convert_loop_total:
  assumes "0 < t" and "t \<le> 8"
  shows "convert_loop f t data acc bits result \<noteq> None"
proof (induction data arbitrary: acc bits result)
  case (Cons b data)
  define acc1 :: u64 where "acc1 = (push_bit f acc OR ucast b) AND (push_bit (f + t - 1) 1 - 1)"
  obtain r where "take_groups t acc1 (bits + f) result = Some r"
    using take_groups_spec [OF assms, of acc1 "bits + f" result] by blast
  then show ?case using Cons by (cases r) (simp add: Let_def acc1_def)
qed simp

lemma convertBits_total: "0 < t \<Longrightarrow> t \<le> 8 \<Longrightarrow> convertBits f t pad data \<noteq> None"
  using convert_loop_total [of t f data 0 0 "[]"]
  by (auto simp: convertBits_def Let_def split: option.splits)

lemma rest_group:
  assumes "bits < t" and "t \<le> 8"
  shows "unat (push_bit (t - bits) acc AND (push_bit t 1 - 1) :: u64) = (unat acc mod 2 ^ bits) * 2 ^ (t - bits)"
proof -
  have "unat (push_bit (t - bits) acc AND (push_bit t 1 - 1) :: u64) = push_bit (t - bits) (take_bit bits (unat acc))"
    unfolding push_bit_1_minus_1 using assms
    by (intro bit_eqI) (auto simp: bit_simps unsigned_and_eq unsigned_push_bit_eq)
  then show ?thesis by (simp only: take_bit_eq_mod push_bit_eq_mult)
qed

lemma convert_8_5:
  "\<exists>r p. convertBits 8 5 True data = Some (Inr r) \<and> digits 5 r \<and> 5 * length r = 8 * length data + p \<and> p < 5 \<and>
    gval 5 r = gval 8 data * 2 ^ p"
proof -
  obtain acc r bits where c: "convert_loop 8 5 data 0 0 [] = Some (acc, bits, r)" "bits < 5"
      "5 * length r + bits = 8 * length data" "digits 5 r" "gval 5 r * 2 ^ bits + unat acc mod 2 ^ bits = gval 8 data"
    using convert_loop_spec [of 5 8 data 0 0 "[]"] by auto
  show ?thesis
  proof (cases "bits = 0")
    case True
    with c show ?thesis
      by (intro exI [of _ r] exI [of _ 0]) (simp add: convertBits_def Let_def)
  next
    case False
    let ?x = "unat acc mod 2 ^ bits" and ?d = "push_bit (5 - bits) acc AND (push_bit 5 1 - 1) :: u64"
    have d: "unat ?d = ?x * 2 ^ (5 - bits)" using c(2) by (intro rest_group) simp_all
    have "?x < 2 ^ bits" by simp
    then have "?x * 2 ^ (5 - bits) < 2 ^ bits * 2 ^ (5 - bits)" by (rule mult_strict_right_mono) simp
    also have "(2::nat) ^ bits * 2 ^ (5 - bits) = 2 ^ 5" using c(2) by (simp only: power_add [symmetric]) simp
    finally have less: "?x * 2 ^ (5 - bits) < 32" by simp
    then have u: "unat (ucast ?d :: u8) = ?x * 2 ^ (5 - bits)"
      using d unat_ucast_u8 [of ?d] by simp
    have "convertBits 8 5 True data = Some (Inr (r @ [ucast ?d]))"
      using False c(1) by (simp add: convertBits_def Let_def)
    moreover have "5 * length (r @ [ucast ?d :: u8]) = 8 * length data + (5 - bits)" using c(2,3) by simp
    moreover have "gval 5 (r @ [ucast ?d]) = gval 8 data * 2 ^ (5 - bits)"
    proof -
      have "(2::nat) ^ 5 = 2 ^ bits * 2 ^ (5 - bits)" using c(2) by (simp only: power_add [symmetric]) simp
      then have "gval 5 (r @ [ucast ?d]) = (gval 5 r * 2 ^ bits + ?x) * 2 ^ (5 - bits)"
        by (simp only: gval_append gval.simps list.size u) (simp add: algebra_simps)
      then show ?thesis by (simp only: c(5))
    qed
    moreover have "digits 5 (r @ [ucast ?d])" using c(4) u less by simp
    moreover have "5 - bits < 5" using False by simp
    ultimately show ?thesis by blast
  qed
qed

lemma convert_5_8:
  assumes "digits 5 r" and "5 * length r = 8 * length data + p" and "p < 5" and "gval 5 r = gval 8 data * 2 ^ p"
  shows "convertBits 5 8 False r = Some (Inr data)"
proof -
  obtain acc out bits where c: "convert_loop 5 8 r 0 0 [] = Some (acc, bits, out)" "bits < 8"
      "8 * length out + bits = 5 * length r" "gval 8 out * 2 ^ bits + unat acc mod 2 ^ bits = gval 5 r"
    using convert_loop_spec [of 8 5 r 0 0 "[]"] assms(1) by auto
  have sum: "8 * length out + bits = 8 * length data + p" using c(3) assms(2) by simp
  then have "(8 * length out + bits) mod 8 = (8 * length data + p) mod 8" by simp
  then have "bits = p" using c(2) assms(3) by simp
  with sum have len: "length out = length data" by simp
  then have e: "gval 8 out * 2 ^ p + unat acc mod 2 ^ p = gval 8 data * 2 ^ p"
    using c(4) assms(4) \<open>bits = p\<close> by simp
  then have "(gval 8 out * 2 ^ p + unat acc mod 2 ^ p) mod 2 ^ p = gval 8 data * 2 ^ p mod 2 ^ p" by simp
  then have z: "unat acc mod 2 ^ p = 0" by simp
  with e have "gval 8 out = gval 8 data" by simp
  then have "out = data" using len by (intro gval_inj [where k = 8]) simp_all
  moreover have "unat (push_bit (8 - p) acc AND (push_bit 8 1 - 1) :: u64) = 0"
    using rest_group [of p 8 acc] assms(3) by (simp add: z)
  then have "push_bit (8 - p) acc AND (push_bit 8 1 - 1) = (0 :: u64)" by (simp only: unat_eq_0)
  ultimately show ?thesis
    using c(1) assms(3) \<open>bits = p\<close> by (simp add: convertBits_def Let_def)
qed

subsection \<open>The checksum is linear\<close>

definition pm_gen :: "nat \<Rightarrow> u64 \<Rightarrow> u64" where
  "pm_gen i x = (if bit x (25 + i) then bech_gen ! i else 0)"

definition pm_lin :: "u64 \<Rightarrow> u64" where
  "pm_lin x = push_bit 5 (take_bit 25 x) XOR pm_gen 0 x XOR pm_gen 1 x XOR pm_gen 2 x XOR pm_gen 3 x XOR pm_gen 4 x"

lemma and_low_bits: "x AND 0x1ffffff = take_bit 25 (x :: u64)" "x AND 0x1f = take_bit 5 (x :: u64)"
  unfolding take_bit_eq_mask by (simp_all add: mask_eq_decr_exp)

lemma low_bit_iff: "drop_bit i (drop_bit 25 x) AND 1 = (1 :: u64) \<longleftrightarrow> bit x (25 + i)"
  by (simp add: and_one_eq bit_iff_odd_drop_bit odd_iff_mod_2_eq_one add.commute)

lemma polymod_step_lin: "polymod_step v x = pm_lin x XOR ucast v"
proof -
  have five: "[0..<5] = [0, 1, 2, 3, 4 :: nat]" by (simp add: upt_rec)
  have "(if drop_bit i (drop_bit 25 x) AND 1 = 1 then c XOR bech_gen ! i else c) = c XOR pm_gen i x" for i c
    by (simp only: low_bit_iff pm_gen_def) simp
  then show ?thesis
    by (simp only: polymod_step_def Let_def five fold_simps and_low_bits) (simp add: pm_lin_def xor.assoc xor.left_commute xor.commute)
qed

lemma pm_gen_xor: "pm_gen i (x XOR y) = pm_gen i x XOR pm_gen i y"
  by (simp add: pm_gen_def bit_simps)

lemma pm_lin_xor: "pm_lin (x XOR y) = pm_lin x XOR pm_lin y"
  by (simp add: pm_lin_def pm_gen_xor take_bit_xor push_bit_xor xor.assoc xor.left_commute xor.commute)

lemma fold_step_xor:
  "length vs = length ws \<Longrightarrow>
     fold polymod_step (map2 (XOR) vs ws) (x XOR y) = fold polymod_step vs x XOR fold polymod_step ws y"
proof (induction vs ws arbitrary: x y rule: list_induct2)
  case (Cons v vs w ws)
  have "polymod_step (v XOR w) (x XOR y) = polymod_step v x XOR polymod_step w y"
    by (simp add: polymod_step_lin pm_lin_xor xor.assoc xor.left_commute)
      (simp add: bit_eq_iff bit_simps)
  then show ?case by (simp add: Cons.IH)
qed simp

text \<open>The state stays within 30 bits, and below 25 bits a step only shifts it.\<close>

lemma take_bit_pm_gen: "i < 5 \<Longrightarrow> take_bit 30 (pm_gen i x) = pm_gen i x"
proof -
  assume "i < 5"
  then have "i = 0 \<or> i = 1 \<or> i = 2 \<or> i = 3 \<or> i = 4" by linarith
  then show ?thesis by (elim disjE) (simp_all add: pm_gen_def bech_gen_def take_bit_eq_mod)
qed

lemma take_bit_step: "take_bit 30 (polymod_step v x) = polymod_step v x"
proof -
  have "take_bit 30 (push_bit 5 (take_bit 25 x)) = push_bit 5 (take_bit 25 x)"
    by (rule bit_word_eqI) (auto simp: bit_simps)
  moreover have "take_bit 30 (ucast v :: u64) = ucast v"
    by (rule bit_word_eqI) (auto simp: bit_simps dest: bit_imp_le_length)
  ultimately show ?thesis by (simp add: polymod_step_lin pm_lin_def take_bit_xor take_bit_pm_gen)
qed

lemma take_bit_polymod: "take_bit 30 (polymod (vs @ [v])) = polymod (vs @ [v])"
  by (simp add: polymod_def take_bit_step)

lemma pm_lin_small: "take_bit 25 x = x \<Longrightarrow> pm_lin x = push_bit 5 x"
proof -
  assume x: "take_bit 25 x = x"
  have "\<not> bit x (25 + i)" for i
    by (subst x [symmetric]) (simp add: bit_take_bit_iff)
  then have "pm_gen i x = 0" for i by (simp add: pm_gen_def)
  then show ?thesis by (simp add: pm_lin_def x)
qed

text \<open>The six groups of five bits of a 30-bit number, folded back.\<close>

lemma regroup: "push_bit 5 (drop_bit (k + 5) w) XOR take_bit 5 (drop_bit k w) = drop_bit k (w :: u64)"
  by (rule bit_word_eqI) (auto simp: bit_simps)

lemma drop_small:
  assumes "take_bit 30 w = w" and "5 \<le> k"
  shows "take_bit 25 (drop_bit k w) = drop_bit k (w :: u64)"
proof -
  have "n < 30" if "bit w n" for n
    using that assms(1) by (metis bit_take_bit_iff)
  then have "k + n < 30" if "bit w (k + n)" for n
    using that by blast
  then have "n < 25" if "bit w (k + n)" for n
    using that assms(2) by fastforce
  then show ?thesis by (intro bit_word_eqI) (auto simp: bit_simps)
qed

definition group :: "u64 \<Rightarrow> nat \<Rightarrow> u8" where
  "group w k = ucast (take_bit 5 (drop_bit k w))"

lemma ucast_group: "(ucast (group w k) :: u64) = take_bit 5 (drop_bit k w)"
  unfolding group_def by (rule bit_word_eqI) (auto simp: bit_simps)

lemma step_group:
  assumes "take_bit 30 w = w"
  shows "polymod_step (group w k) (drop_bit (k + 5) w) = drop_bit k w"
  using drop_small [OF assms, of "k + 5"]
  by (simp add: polymod_step_lin pm_lin_small ucast_group regroup)

lemma fold_groups:
  assumes w: "take_bit 30 w = w"
  shows "fold polymod_step [group w 25, group w 20, group w 15, group w 10, group w 5, group w 0] 0 = w"
proof -
  have "drop_bit 30 w = 0"
    by (subst w [symmetric]) (rule bit_word_eqI, auto simp: bit_simps)
  then have "polymod_step (group w 25) 0 = drop_bit 25 w"
    using step_group [OF w, of 25] by simp
  then show ?thesis
    using step_group [OF w, of 20] step_group [OF w, of 15] step_group [OF w, of 10] step_group [OF w, of 5]
      step_group [OF w, of 0] by simp
qed

lemma createChecksum_groups:
  "createChecksum hrp data =
     (let w = polymod (hrp_values hrp @ data @ [0, 0, 0, 0, 0, 0]) XOR 1 in
      [group w 25, group w 20, group w 15, group w 10, group w 5, group w 0])"
  by (simp add: createChecksum_def Let_def upt_rec and_low_bits group_def)

lemma digits_group [simp]: "unat (group w k) < 32"
proof -
  define y where "y = drop_bit k w"
  have "unat (take_bit 5 y) = take_bit 5 (unat y)" by (simp only: unsigned_take_bit_eq)
  then have less: "unat (take_bit 5 y) < 32" by (simp only: take_bit_eq_mod) simp
  then have "unat (take_bit 5 y) < 256" by linarith
  then have "unat (group w k) = unat (take_bit 5 y)" unfolding group_def y_def by (rule unat_ucast_u8)
  then show ?thesis using less by simp
qed

lemma checksum_verifies: "verifyChecksum hrp (data @ createChecksum hrp data)"
proof -
  let ?vs = "hrp_values hrp @ data" and ?z = "[0, 0, 0, 0, 0, 0 :: u8]"
  define S where "S = fold polymod_step ?vs 1"
  define P where "P = polymod (?vs @ ?z)"
  define cs where "cs = createChecksum hrp data"
  have P: "P = fold polymod_step ?z S" by (simp add: P_def S_def polymod_def)
  have "?vs @ ?z = (?vs @ [0, 0, 0, 0, 0]) @ [0]" by simp
  then have "take_bit 30 P = P" unfolding P_def by (metis take_bit_polymod)
  then have w: "take_bit 30 (P XOR 1) = P XOR 1" by (simp add: take_bit_xor)
  have cs: "cs = [group (P XOR 1) 25, group (P XOR 1) 20, group (P XOR 1) 15, group (P XOR 1) 10, group (P XOR 1) 5,
      group (P XOR 1) 0]"
    by (simp add: cs_def createChecksum_groups P_def Let_def)
  then have "fold polymod_step cs S = fold polymod_step (map2 (XOR) ?z cs) (S XOR 0)" by simp
  also have "\<dots> = P XOR fold polymod_step cs 0"
    unfolding P by (rule fold_step_xor) (simp add: cs)
  also have "fold polymod_step cs 0 = P XOR 1"
    unfolding cs by (rule fold_groups [OF w])
  also have "P XOR (P XOR 1) = 1" by (simp flip: xor.assoc)
  finally show ?thesis
    by (simp add: verifyChecksum_def polymod_def S_def cs_def)
qed

subsection \<open>The text\<close>

lemma charset_facts:
  "length charset = 32" "distinct charset" "CHR ''1'' \<notin> set charset" "is_ascii charset"
  "\<forall>c\<in>set charset. \<not> is_space_rune (of_char c)"
  by (simp_all add: charset_def is_space_rune_def)

lemma char_index_charset: "k < 32 \<Longrightarrow> char_index (of_char (charset ! k)) = Some k"
proof -
  assume "k < 32"
  moreover have "distinct (map of_char charset :: nat list)"
    by (simp add: distinct_map charset_facts inj_on_def)
  ultimately show ?thesis
    using map_of_zip_nth [of "map of_char charset :: nat list" "[0..<32]" k]
    by (simp add: char_index_def charset_facts)
qed

lemma encode_chars_digits:
  "digits 5 bs \<Longrightarrow> encode_chars bs result = Inr (result @ map (\<lambda>b. charset ! unat b) bs)"
  by (induction bs arbitrary: result) (simp_all add: charset_facts)

lemma charset_text:
  assumes "digits 5 bs"
  defines "t \<equiv> map (\<lambda>b. charset ! unat b) bs"
  shows "set t \<subseteq> set charset" and "is_ascii t" and "first_invalid (go_runes t) = None"
    and "map (\<lambda>c. of_nat (the (char_index c))) (go_runes t) = bs"
proof -
  have b: "unat b < 32" if "b \<in> set bs" for b using assms(1) that by (simp add: digits_def)
  show sub: "set t \<subseteq> set charset" using b by (auto simp: t_def charset_facts)
  then show ascii: "is_ascii t" using charset_facts(4) by (auto simp: is_ascii_def)
  have none: "first_invalid (map of_char t) = None"
    using assms(1) unfolding t_def by (induction bs) (simp_all add: char_index_charset)
  then show "first_invalid (go_runes t) = None" by (simp add: go_runes_ascii [OF ascii])
  have "map (\<lambda>c. of_nat (the (char_index c))) (map of_char t) = bs"
    using assms(1) unfolding t_def by (induction bs) (simp_all add: char_index_charset)
  then show "map (\<lambda>c. of_nat (the (char_index c))) (go_runes t) = bs" by (simp add: go_runes_ascii [OF ascii])
qed

lemma digits_checksum: "digits 5 (createChecksum hrp data)"
  by (simp add: createChecksum_groups Let_def)

lemma length_checksum: "length (createChecksum hrp data) = 6"
  by (simp add: createChecksum_groups Let_def)

lemma bech_Encode_shape:
  obtains r p where "bech_Encode hrp data = Some (Inr (hrp @ CHR ''1'' # map (\<lambda>b. charset ! unat b) (r @ createChecksum hrp r)))"
    "digits 5 r" "5 * length r = 8 * length data + p" "p < 5" "gval 5 r = gval 8 data * 2 ^ p"
proof -
  obtain r p where c: "convertBits 8 5 True data = Some (Inr r)" "digits 5 r" "5 * length r = 8 * length data + p" "p < 5"
      "gval 5 r = gval 8 data * 2 ^ p"
    using convert_8_5 by blast
  moreover have "bech_Encode hrp data = Some (Inr (hrp @ CHR ''1'' # map (\<lambda>b. charset ! unat b) (r @ createChecksum hrp r)))"
    using c(1,2) digits_checksum by (simp add: bech_Encode_def encode_chars_digits)
  ultimately show thesis using that by blast
qed

lemma Encode_Decode:
  assumes "hrp \<noteq> []"
  obtains s where "bech_Encode hrp data = Some (Inr s)" "bech_Decode s = Some (Inr (hrp, data))"
    "LastIndex s (CHR ''1'') = int (length hrp)"
proof -
  obtain r p where e: "bech_Encode hrp data = Some (Inr (hrp @ CHR ''1'' # map (\<lambda>b. charset ! unat b) (r @ createChecksum hrp r)))"
      "digits 5 r" "5 * length r = 8 * length data + p" "p < 5" "gval 5 r = gval 8 data * 2 ^ p"
    by (rule bech_Encode_shape)
  let ?t = "map (\<lambda>b. charset ! unat b) (r @ createChecksum hrp r)"
  have d: "digits 5 (r @ createChecksum hrp r)" using e(2) digits_checksum by simp
  note t = charset_text [OF d]
  have sep: "LastIndex (hrp @ CHR ''1'' # ?t) (CHR ''1'') = int (length hrp)"
    using t(1) charset_facts(3) by (intro LastIndex_append) blast
  have "bech_Decode (hrp @ CHR ''1'' # ?t) = Some (Inr (hrp, data))"
    using assms t(3,4) convert_5_8 [OF e(2-5)]
    by (simp add: bech_Decode_def sep length_checksum checksum_verifies Let_def del: map_append)
  with e(1) sep show thesis using that by blast
qed

text \<open>
  C27. Bech32 text can be read back: encoding any bytes under any nonempty prefix ends without an
  error, and decoding the text ends and yields the prefix and the bytes.
\<close>

theorem bech32_roundtrip:
  assumes "hrp \<noteq> []"
  shows "\<exists>s. bech_Encode hrp data = Some (Inr s) \<and> bech_Decode s = Some (Inr (hrp, data))"
  using Encode_Decode [OF assms, of data] by metis

theorem bech32_roundtrip_witness:
  "\<exists>s. bech_Encode ''kalon'' [0, 255, 7] = Some (Inr s) \<and> bech_Decode s = Some (Inr (''kalon'', [0, 255, 7]))"
  by (rule bech32_roundtrip) simp

text \<open>
  C37. The conversions of the Bech32 codec end on every input: encoding and decoding return a result or
  an error for every text and every byte string, although the loop they share runs forever for
  groups of zero bits.
\<close>

theorem bech32_terminates:
  "bech_Encode hrp data \<noteq> None \<and> bech_Decode s \<noteq> None \<and> Bech32ToAddress s \<noteq> None \<and> IsValidKalonAddress s \<noteq> None"
proof -
  have "bech_Encode hrp data \<noteq> None"
    using convertBits_total [of 5 8 True data] by (auto simp: bech_Encode_def split: option.splits sum.splits)
  moreover have "bech_Decode s \<noteq> None"
  proof -
    have "convertBits 5 8 False d \<noteq> None" for d by (rule convertBits_total) simp_all
    then show ?thesis
      by (auto simp: bech_Decode_def Let_def simp del: not_None_eq split: option.splits sum.splits)
  qed
  ultimately show ?thesis
    by (auto simp: Bech32ToAddress_def IsValidKalonAddress_def ValidateBech32_def split: option.splits sum.splits)
qed

text \<open>The text of an address: \<open>kalon1\<close> and 38 characters of the alphabet.\<close>

lemma kalon_text:
  obtains t where "bech_Encode ''kalon'' (addr_bytes a) = Some (Inr (''kalon1'' @ t))"
    "bech_Decode (''kalon1'' @ t) = Some (Inr (''kalon'', addr_bytes a))"
    "LastIndex (''kalon1'' @ t) (CHR ''1'') = 5" "length t = 38" "is_ascii t" "set t \<subseteq> set charset"
proof -
  obtain r p where e: "bech_Encode ''kalon'' (addr_bytes a) =
      Some (Inr (''kalon'' @ CHR ''1'' # map (\<lambda>b. charset ! unat b) (r @ createChecksum ''kalon'' r)))"
      "digits 5 r" "5 * length r = 8 * length (addr_bytes a) + p" "p < 5"
    by (rule bech_Encode_shape)
  let ?t = "map (\<lambda>b. charset ! unat b) (r @ createChecksum ''kalon'' r)"
  obtain s where s: "bech_Encode ''kalon'' (addr_bytes a) = Some (Inr s)" "bech_Decode s = Some (Inr (''kalon'', addr_bytes a))"
      "LastIndex s (CHR ''1'') = int (length ''kalon'')"
    using Encode_Decode [of "''kalon''" "addr_bytes a"] by auto
  have shape: "s = ''kalon1'' @ ?t" using e(1) s(1) by simp
  have len: "length ?t = 38" using e(3,4) by (simp add: length_checksum)
  have "digits 5 (r @ createChecksum ''kalon'' r)" using e(2) digits_checksum by simp
  from charset_text(1,2) [OF this] show thesis
    using that [of ?t] s len unfolding shape by simp
qed

text \<open>
  Every address has a Bech32 text with the prefix \<^verbatim>\<open>kalon\<close> that is a valid Kalon address and reads
  back as the address; its hexadecimal text reads back as well. But the node's own
  \<^verbatim>\<open>AddressFromString\<close> reads the Bech32 text as the zero address, since it expects 40 hexadecimal
  digits after \<^verbatim>\<open>kalon1\<close>, where there are 38 characters.
\<close>

theorem bech32_address:
  "AddressFromHex (AddressToHex a) = Inr a \<and>
   (\<exists>s. AddressToBech32 a ''kalon'' = Some (Inr s) \<and> Bech32ToAddress s = Some (Inr a) \<and>
     IsValidKalonAddress s = Some True \<and> AddressFromString s = 0)"
proof -
  have hex: "AddressFromHex (AddressToHex a) = Inr a"
    by (simp add: AddressFromHex_def AddressToHex_def HasPrefix_def addrc.dec_enc)
  obtain t where t: "bech_Encode ''kalon'' (addr_bytes a) = Some (Inr (''kalon1'' @ t))"
    "bech_Decode (''kalon1'' @ t) = Some (Inr (''kalon'', addr_bytes a))"
    "LastIndex (''kalon1'' @ t) (CHR ''1'') = 5" "length t = 38" "is_ascii t" "set t \<subseteq> set charset"
    by (rule kalon_text)
  have "TrimSpace (''kalon1'' @ t) = ''kalon1'' @ t"
    using t(5,6) charset_facts(5) by (intro TrimSpace_id) (auto simp: is_space_rune_def)
  then have "AddressFromString (''kalon1'' @ t) = 0"
    using t(4) HasPrefix_append [of "''kalon1''" t] TrimPrefix_append [of "''kalon1''" t]
    by (simp add: AddressFromString_def Let_def)
  with hex t(1-3) show ?thesis
    by (simp add: AddressToBech32_def Bech32ToAddress_def IsValidKalonAddress_def ValidateBech32_def
        GetHRPFromBech32_def addrc.dec_enc)
qed

end
