(* ===== verification/Crypto.thy ===== *)
theory Crypto
  imports Utxo
begin

text \<open>
  \<^verbatim>\<open>crypto/keys.go\<close>, \<^verbatim>\<open>crypto/signature.go\<close>, \<^verbatim>\<open>crypto/bip39.go\<close>: key pairs, what a
  signature covers, and wallets. The signature scheme (\<^verbatim>\<open>crypto/ed25519\<close>), the source of
  randomness and the word lists (\<^verbatim>\<open>go-bip39\<close>) are parameters: the records \<open>ed25519\<close> and
  \<open>bip39\<close>, and the result of a random read. What the code relies on is \<open>ed_correct\<close>.
\<close>

record ed25519 =
  ed_NewKeyFromSeed :: "bytes \<Rightarrow> bytes"
  ed_Sign :: "bytes \<Rightarrow> bytes \<Rightarrow> bytes"
  ed_Verify :: "bytes \<Rightarrow> bytes \<Rightarrow> bytes \<Rightarrow> bool"

text \<open>A private key of \<^verbatim>\<open>crypto/ed25519\<close> is the seed followed by the public key.\<close>

definition ed_Public :: "bytes \<Rightarrow> bytes" where
  "ed_Public priv = drop 32 priv"

definition ed_Seed :: "bytes \<Rightarrow> bytes" where
  "ed_Seed priv = take 32 priv"

definition ed_correct :: "ed25519 \<Rightarrow> bool" where
  "ed_correct ed \<longleftrightarrow> (\<forall>seed message. length seed = 32 \<longrightarrow>
     ed_Seed (ed_NewKeyFromSeed ed seed) = seed \<and>
     ed_Verify ed (ed_Public (ed_NewKeyFromSeed ed seed)) message (ed_Sign ed (ed_NewKeyFromSeed ed seed) message))"

subsection \<open>Key pairs\<close>

record keypair =
  kp_Private :: bytes
  kp_Public :: bytes

datatype key_error = GenerateFailed string | InvalidSeedSize nat | NoSignature | InvalidSignature | NoKeyRecovery

text \<open>\<^verbatim>\<open>ed25519.GenerateKey\<close> reads a seed from the random source.\<close>

definition Generate :: "ed25519 \<Rightarrow> string + bytes \<Rightarrow> key_error + keypair" where
  "Generate ed rand =
     (case rand of
        Inl e \<Rightarrow> Inl (GenerateFailed e)
      | Inr seed \<Rightarrow>
          (let priv = ed_NewKeyFromSeed ed seed in Inr \<lparr>kp_Private = priv, kp_Public = ed_Public priv\<rparr>))"

definition FromSeed :: "ed25519 \<Rightarrow> bytes \<Rightarrow> key_error + keypair" where
  "FromSeed ed seed =
     (if length seed \<noteq> 32 then Inl (InvalidSeedSize (length seed))
      else
        (let priv = ed_NewKeyFromSeed ed seed in Inr \<lparr>kp_Private = priv, kp_Public = ed_Public priv\<rparr>))"

definition GetSeed :: "keypair \<Rightarrow> bytes" where
  "GetSeed kp = ed_Seed (kp_Private kp)"

definition GetSeedHex :: "keypair \<Rightarrow> string" where
  "GetSeedHex kp = hex_encode (GetSeed kp)"

definition GetPublicHex :: "keypair \<Rightarrow> string" where
  "GetPublicHex kp = hex_encode (kp_Public kp)"

definition kp_Sign :: "ed25519 \<Rightarrow> keypair \<Rightarrow> bytes \<Rightarrow> bytes" where
  "kp_Sign ed kp message = ed_Sign ed (kp_Private kp) message"

definition kp_Verify :: "ed25519 \<Rightarrow> keypair \<Rightarrow> bytes \<Rightarrow> bytes \<Rightarrow> bool" where
  "kp_Verify ed kp message signature = ed_Verify ed (kp_Public kp) message signature"

definition PubKeyHash :: "bytes \<Rightarrow> address" where
  "PubKeyHash pub = addr_of (take 20 (sha256 pub))"

definition AddressFromPubKey :: "bytes \<Rightarrow> address" where
  "AddressFromPubKey pub = PubKeyHash pub"

definition Keypair_String :: "keypair \<Rightarrow> string" where
  "Keypair_String kp = ''Keypair{Public: '' @ GetPublicHex kp @ '', Private: '' @ GetSeedHex kp @ ''}''"

subsection \<open>Signatures of transactions and blocks\<close>

definition createTransactionMessage :: "transaction \<Rightarrow> bytes" where
  "createTransactionMessage tx =
     addr_bytes (tx_From tx) @ addr_bytes (tx_To tx) @ be_put 8 (tx_Amount tx) @ be_put 8 (tx_Nonce tx) @
     be_put 8 (tx_Fee tx) @ be_put 8 (tx_GasUsed tx) @ be_put 8 (tx_GasPrice tx) @ tx_Data tx"

definition SignData :: "ed25519 \<Rightarrow> keypair \<Rightarrow> bytes \<Rightarrow> bytes" where
  "SignData ed kp data = kp_Sign ed kp data"

definition VerifySignature :: "ed25519 \<Rightarrow> bytes \<Rightarrow> bytes \<Rightarrow> bytes \<Rightarrow> bool" where
  "VerifySignature ed pub data signature = ed_Verify ed pub data signature"

definition SignTransaction :: "ed25519 \<Rightarrow> keypair \<Rightarrow> transaction \<Rightarrow> transaction" where
  "SignTransaction ed kp tx = tx\<lparr>tx_Signature := kp_Sign ed kp (createTransactionMessage tx)\<rparr>"

definition VerifyTransaction :: "ed25519 \<Rightarrow> transaction \<Rightarrow> bytes \<Rightarrow> bool" where
  "VerifyTransaction ed tx pub = ed_Verify ed pub (createTransactionMessage tx) (tx_Signature tx)"

definition createBlockMessage :: "block \<Rightarrow> bytes" where
  "createBlockMessage b =
     (let h = blk_Header b in
      hash_bytes (bh_ParentHash h) @ be_put 8 (bh_Number h) @ be_put 8 (unix_u64 (bh_Timestamp h)) @
      be_put 8 (bh_Difficulty h) @ addr_bytes (bh_Miner h) @ be_put 8 (bh_Nonce h) @
      hash_bytes (bh_MerkleRoot h) @ be_put 4 (bh_TxCount h) @ be_put 8 (bh_NetworkFee h) @
      be_put 8 (bh_TreasuryFee h))"

text \<open>The signature of a block is computed and dropped: a block has no field for it.\<close>

definition SignBlock :: "ed25519 \<Rightarrow> keypair \<Rightarrow> block \<Rightarrow> block" where
  "SignBlock ed kp b = (let signature = kp_Sign ed kp (createBlockMessage b) in b)"

definition crypto_CreateTransaction :: "address \<Rightarrow> address \<Rightarrow> u64 \<Rightarrow> u64 \<Rightarrow> u64 \<Rightarrow> bytes \<Rightarrow> transaction" where
  "crypto_CreateTransaction from to amount nonce fee data =
     zero_tx\<lparr>tx_From := from, tx_To := to, tx_Amount := amount, tx_Nonce := nonce, tx_Fee := fee,
       tx_GasUsed := 1, tx_GasPrice := fee, tx_Data := data\<rparr>"

definition crypto_CalculateTransactionHash :: "transaction \<Rightarrow> hash" where
  "crypto_CalculateTransactionHash tx = Sum256 (createTransactionMessage tx)"

definition ValidateTransactionSignature :: "ed25519 \<Rightarrow> transaction \<Rightarrow> bytes \<Rightarrow> key_error + unit" where
  "ValidateTransactionSignature ed tx pub =
     (if length (tx_Signature tx) = 0 then Inl NoSignature
      else if \<not> VerifyTransaction ed tx pub then Inl InvalidSignature
      else Inr ())"

definition RecoverPublicKey :: "bytes \<Rightarrow> bytes \<Rightarrow> key_error + bytes" where
  "RecoverPublicKey message signature = Inl NoKeyRecovery"

definition SignMessage :: "ed25519 \<Rightarrow> keypair \<Rightarrow> string \<Rightarrow> bytes" where
  "SignMessage ed kp message = kp_Sign ed kp (str_bytes message)"

definition VerifyMessage :: "ed25519 \<Rightarrow> bytes \<Rightarrow> string \<Rightarrow> bytes \<Rightarrow> bool" where
  "VerifyMessage ed pub message signature = ed_Verify ed pub (str_bytes message) signature"

text \<open>\<^verbatim>\<open>uint32(index)\<close> keeps the low 32 bits of the index.\<close>

definition indexed_message :: "bytes \<Rightarrow> int \<Rightarrow> bytes" where
  "indexed_message message index = message @ be_put 4 (word_of_int index :: u32)"

definition CreateMultiSigSignature :: "ed25519 \<Rightarrow> keypair \<Rightarrow> bytes \<Rightarrow> int \<Rightarrow> bytes" where
  "CreateMultiSigSignature ed kp message index = kp_Sign ed kp (indexed_message message index)"

definition VerifyMultiSigSignature :: "ed25519 \<Rightarrow> bytes \<Rightarrow> bytes \<Rightarrow> bytes \<Rightarrow> int \<Rightarrow> bool" where
  "VerifyMultiSigSignature ed pub message signature index = ed_Verify ed pub (indexed_message message index) signature"

subsection \<open>Mnemonics and wallets\<close>

record bip39 =
  bip_NewMnemonic :: "bytes \<Rightarrow> string + string"
  bip_IsMnemonicValid :: "string \<Rightarrow> bool"
  bip_NewSeed :: "string \<Rightarrow> string \<Rightarrow> bytes"
  bip_EntropyFromMnemonic :: "string \<Rightarrow> string + bytes"

record bip39_manager =
  bm_entropyLength :: int

datatype wallet_error =
  EntropyFailed string | MnemonicFailed string | InvalidMnemonic | SeedTooShort | KeyFailed key_error

record wallet =
  w_Mnemonic :: string
  w_Passphrase :: string
  w_Keypair :: keypair
  w_Address :: address

definition NewBIP39Manager :: bip39_manager where
  "NewBIP39Manager = \<lparr>bm_entropyLength = 256\<rparr>"

text \<open>\<open>rand n\<close> is what \<^verbatim>\<open>rand.Read\<close> makes of \<open>n\<close> bytes.\<close>

definition generateEntropy :: "bip39_manager \<Rightarrow> (nat \<Rightarrow> string + bytes) \<Rightarrow> string + bytes" where
  "generateEntropy bm rand = rand (nat (bm_entropyLength bm div 8))"

definition GenerateMnemonic :: "bip39 \<Rightarrow> bip39_manager \<Rightarrow> (nat \<Rightarrow> string + bytes) \<Rightarrow> wallet_error + string" where
  "GenerateMnemonic bip bm rand =
     (case generateEntropy bm rand of
        Inl e \<Rightarrow> Inl (EntropyFailed e)
      | Inr entropy \<Rightarrow>
          (case bip_NewMnemonic bip entropy of Inl e \<Rightarrow> Inl (MnemonicFailed e) | Inr m \<Rightarrow> Inr m))"

definition MnemonicToSeed :: "bip39 \<Rightarrow> string \<Rightarrow> string \<Rightarrow> wallet_error + bytes" where
  "MnemonicToSeed bip mnemonic passphrase =
     (if \<not> bip_IsMnemonicValid bip mnemonic then Inl InvalidMnemonic else Inr (bip_NewSeed bip mnemonic passphrase))"

definition SeedToKeypair :: "ed25519 \<Rightarrow> bytes \<Rightarrow> wallet_error + keypair" where
  "SeedToKeypair ed seed =
     (if length seed < 32 then Inl SeedTooShort
      else (case FromSeed ed (take 32 seed) of Inl e \<Rightarrow> Inl (KeyFailed e) | Inr kp \<Rightarrow> Inr kp))"

definition MnemonicToKeypair :: "bip39 \<Rightarrow> ed25519 \<Rightarrow> string \<Rightarrow> string \<Rightarrow> wallet_error + keypair" where
  "MnemonicToKeypair bip ed mnemonic passphrase =
     rbind (MnemonicToSeed bip mnemonic passphrase) (SeedToKeypair ed)"

definition ValidateMnemonic :: "bip39 \<Rightarrow> string \<Rightarrow> bool" where
  "ValidateMnemonic bip mnemonic = bip_IsMnemonicValid bip mnemonic"

definition GetEntropyLength :: "bip39_manager \<Rightarrow> int" where
  "GetEntropyLength bm = bm_entropyLength bm"

definition GetWordCount :: "bip39_manager \<Rightarrow> int" where
  "GetWordCount bm = bm_entropyLength bm div 11"

definition MnemonicToEntropy :: "bip39 \<Rightarrow> string \<Rightarrow> wallet_error + bytes" where
  "MnemonicToEntropy bip mnemonic =
     (if \<not> bip_IsMnemonicValid bip mnemonic then Inl InvalidMnemonic
      else (case bip_EntropyFromMnemonic bip mnemonic of Inl e \<Rightarrow> Inl (EntropyFailed e) | Inr entropy \<Rightarrow> Inr entropy))"

definition CreateWalletFromMnemonic :: "bip39 \<Rightarrow> ed25519 \<Rightarrow> string \<Rightarrow> string \<Rightarrow> wallet_error + wallet" where
  "CreateWalletFromMnemonic bip ed mnemonic passphrase =
     rbind (MnemonicToKeypair bip ed mnemonic passphrase) (\<lambda>kp.
       Inr \<lparr>w_Mnemonic = mnemonic, w_Passphrase = passphrase, w_Keypair = kp, w_Address = AddressFromPubKey (kp_Public kp)\<rparr>)"

definition NewWallet :: "bip39 \<Rightarrow> ed25519 \<Rightarrow> (nat \<Rightarrow> string + bytes) \<Rightarrow> string \<Rightarrow> wallet_error + wallet" where
  "NewWallet bip ed rand passphrase =
     rbind (GenerateMnemonic bip NewBIP39Manager rand) (\<lambda>mnemonic. CreateWalletFromMnemonic bip ed mnemonic passphrase)"

definition w_GetAddress :: "wallet \<Rightarrow> address" where
  "w_GetAddress w = w_Address w"

definition GetAddressString :: "wallet \<Rightarrow> string" where
  "GetAddressString w = ''kalon1'' @ hex_encode (addr_bytes (w_Address w))"

text \<open>The wallet assembles the message of a transaction on its own.\<close>

definition w_createTransactionMessage :: "transaction \<Rightarrow> bytes" where
  "w_createTransactionMessage tx =
     addr_bytes (tx_From tx) @ addr_bytes (tx_To tx) @ be_put 8 (tx_Amount tx) @ be_put 8 (tx_Nonce tx) @
     be_put 8 (tx_Fee tx) @ be_put 8 (tx_GasUsed tx) @ be_put 8 (tx_GasPrice tx) @ tx_Data tx"

definition w_SignTransaction :: "ed25519 \<Rightarrow> wallet \<Rightarrow> transaction \<Rightarrow> transaction" where
  "w_SignTransaction ed w tx = tx\<lparr>tx_Signature := kp_Sign ed (w_Keypair w) (w_createTransactionMessage tx)\<rparr>"

definition w_VerifyTransaction :: "ed25519 \<Rightarrow> wallet \<Rightarrow> transaction \<Rightarrow> bool" where
  "w_VerifyTransaction ed w tx = kp_Verify ed (w_Keypair w) (w_createTransactionMessage tx) (tx_Signature tx)"

text \<open>The text of a wallet shows 20 bytes of the mnemonic and panics where there are fewer.\<close>

definition Wallet_String :: "wallet \<Rightarrow> go_panic + string" where
  "Wallet_String w =
     (if length (w_Mnemonic w) < 20 then Inl IndexOutOfRange
      else Inr (''Wallet{Address: '' @ GetAddressString w @ '', Mnemonic: '' @ take 20 (w_Mnemonic w) @ ''...}''))"

subsection \<open>What a signature says\<close>

lemma message_preimage: "createTransactionMessage tx = tx_preimage tx"
  by (simp add: createTransactionMessage_def tx_preimage_def)

lemma wallet_message [simp]: "w_createTransactionMessage tx = createTransactionMessage tx"
  by (simp add: w_createTransactionMessage_def createTransactionMessage_def)

lemma block_message_preimage: "createBlockMessage b = header_preimage (blk_Header b)"
  by (simp add: createBlockMessage_def header_preimage_def Let_def)

lemma message_Signature [simp]: "createTransactionMessage (tx\<lparr>tx_Signature := s\<rparr>) = createTransactionMessage tx"
  by (simp add: createTransactionMessage_def)

lemma CreateWallet_keys:
  assumes "CreateWalletFromMnemonic bip ed mnemonic passphrase = Inr w"
  obtains seed where "length seed = 32" "kp_Private (w_Keypair w) = ed_NewKeyFromSeed ed seed"
    "kp_Public (w_Keypair w) = ed_Public (ed_NewKeyFromSeed ed seed)"
    "seed = take 32 (bip_NewSeed bip mnemonic passphrase)" "w_Address w = AddressFromPubKey (kp_Public (w_Keypair w))"
  using assms
  by (auto simp: CreateWalletFromMnemonic_def MnemonicToKeypair_def MnemonicToSeed_def SeedToKeypair_def FromSeed_def
      rbind_eq_Inr Let_def split: if_splits sum.splits)

text \<open>
  C32. What a wallet signs, its own check and the check against its public key accept, and the seed kept
  in the private key is the one the mnemonic gives; the address text of the wallet is read by the
  node as the wallet's address.
\<close>

theorem wallet_signs:
  assumes "ed_correct ed" and "CreateWalletFromMnemonic bip ed mnemonic passphrase = Inr w"
  shows "w_VerifyTransaction ed w (w_SignTransaction ed w tx) \<and>
    VerifyTransaction ed (w_SignTransaction ed w tx) (kp_Public (w_Keypair w)) \<and>
    SignTransaction ed (w_Keypair w) tx = w_SignTransaction ed w tx \<and>
    GetSeed (w_Keypair w) = take 32 (bip_NewSeed bip mnemonic passphrase) \<and>
    AddressFromString (GetAddressString w) = w_Address w"
proof -
  obtain seed where k: "length seed = 32" "kp_Private (w_Keypair w) = ed_NewKeyFromSeed ed seed"
      "kp_Public (w_Keypair w) = ed_Public (ed_NewKeyFromSeed ed seed)" "seed = take 32 (bip_NewSeed bip mnemonic passphrase)"
    by (rule CreateWallet_keys [OF assms(2)])
  have "AddressFromString (GetAddressString w) = w_Address w"
    using AddressFromString_kalon1 [of "w_Address w"] by (simp add: GetAddressString_def Address_String_def)
  then show ?thesis
    using assms(1) k
    by (simp add: ed_correct_def w_VerifyTransaction_def w_SignTransaction_def VerifyTransaction_def SignTransaction_def
        kp_Verify_def kp_Sign_def GetSeed_def)
qed

text \<open>A toy scheme that is correct: the signature is the message under the seed.\<close>

definition toy_ed :: ed25519 where
  "toy_ed = \<lparr>ed_NewKeyFromSeed = (\<lambda>seed. seed @ seed), ed_Sign = (\<lambda>priv message. take 32 priv @ message),
     ed_Verify = (\<lambda>pub message signature. signature = pub @ message)\<rparr>"

definition toy_bip :: bip39 where
  "toy_bip = \<lparr>bip_NewMnemonic = (\<lambda>e. Inr (bytes_str e)), bip_IsMnemonicValid = (\<lambda>m. m \<noteq> []),
     bip_NewSeed = (\<lambda>m p. replicate 64 7), bip_EntropyFromMnemonic = (\<lambda>m. Inr (str_bytes m))\<rparr>"

lemma toy_ed_correct: "ed_correct toy_ed"
  by (simp add: ed_correct_def toy_ed_def ed_Seed_def ed_Public_def)

theorem wallet_signs_witness:
  "\<exists>w. CreateWalletFromMnemonic toy_bip toy_ed ''word'' [] = Inr w \<and>
     w_VerifyTransaction toy_ed w (w_SignTransaction toy_ed w zero_tx)"
proof -
  have "\<exists>w. CreateWalletFromMnemonic toy_bip toy_ed ''word'' [] = Inr w"
    by (simp add: CreateWalletFromMnemonic_def MnemonicToKeypair_def MnemonicToSeed_def SeedToKeypair_def FromSeed_def
        toy_bip_def Let_def)
  then obtain w where "CreateWalletFromMnemonic toy_bip toy_ed ''word'' [] = Inr w" by blast
  with wallet_signs [OF toy_ed_correct this] show ?thesis by blast
qed

text \<open>
  A signature says nothing about the inputs, the outputs or the time of a transaction: whatever they
  are replaced by, the check gives the same answer, and the hash over the signed bytes stays the same.
  It covers every account field: equal signed messages come from transactions that agree in them.
\<close>

theorem signature_ignores_outputs:
  "VerifyTransaction ed (tx\<lparr>tx_Inputs := ins, tx_Outputs := outs, tx_Timestamp := t\<rparr>) pub = VerifyTransaction ed tx pub \<and>
   crypto_CalculateTransactionHash (tx\<lparr>tx_Inputs := ins, tx_Outputs := outs, tx_Timestamp := t\<rparr>) =
     crypto_CalculateTransactionHash tx \<and>
   (createTransactionMessage tx = createTransactionMessage tx' \<longleftrightarrow>
     tx_From tx = tx_From tx' \<and> tx_To tx = tx_To tx' \<and> tx_Amount tx = tx_Amount tx' \<and> tx_Nonce tx = tx_Nonce tx' \<and>
     tx_Fee tx = tx_Fee tx' \<and> tx_GasUsed tx = tx_GasUsed tx' \<and> tx_GasPrice tx = tx_GasPrice tx' \<and>
     tx_Data tx = tx_Data tx')"
  by (simp add: VerifyTransaction_def crypto_CalculateTransactionHash_def createTransactionMessage_def codec_inj)

text \<open>
  Two indexed messages of a multi-signature agree exactly when the messages do and the indices do
  modulo \<open>2 ^ 32\<close>.
\<close>

theorem multisig_message_binds:
  "indexed_message m i = indexed_message m' i' \<longleftrightarrow> m = m' \<and> (word_of_int i :: u32) = word_of_int i'"
  by (auto simp: indexed_message_def append_eq_append_conv codec_inj)

text \<open>The manager says a mnemonic has 23 words; 256 bits of entropy make 24.\<close>

theorem word_count: "GetWordCount NewBIP39Manager = 23"
  by (simp add: GetWordCount_def NewBIP39Manager_def)

end
