(* ===== verification/Locks.thy ===== *)
theory Locks
  imports Prelude
begin

text \<open>
  Goroutines that share locks (\<^verbatim>\<open>sync.Mutex\<close>, \<^verbatim>\<open>sync.RWMutex\<close>): an operation is the sequence of
  its calls of \<^verbatim>\<open>Lock\<close>, \<^verbatim>\<open>RLock\<close> and their inverses, a deferred call at its end, and the goroutines
  take their steps in any order. The interface \<open>lock_discipline\<close> is a set of operations that take
  their locks in the order of a rank; its client lemma is that goroutines which call them never all wait.
\<close>

subsection \<open>Steps\<close>

text \<open>A lock is taken for writing (\<open>True\<close>) or for reading.\<close>

datatype 'l lock_op = Acquire bool 'l | Release bool 'l

text \<open>What a goroutine holds, and what it still has to do.\<close>

type_synonym 'l goroutine = "(bool \<times> 'l) list \<times> 'l lock_op list"

definition held_write :: "'l \<Rightarrow> 'l goroutine list \<Rightarrow> bool" where
  "held_write l gs = list_ex (\<lambda>g. (True, l) \<in> set (fst g)) gs"

definition held :: "'l \<Rightarrow> 'l goroutine list \<Rightarrow> bool" where
  "held l gs = list_ex (\<lambda>g. l \<in> snd ` set (fst g)) gs"

definition writer_waits :: "'l \<Rightarrow> 'l goroutine list \<Rightarrow> bool" where
  "writer_waits l gs = list_ex (\<lambda>g. snd g \<noteq> [] \<and> hd (snd g) = Acquire True l) gs"

text \<open>
  Who has to wait, and who may: a reader of a \<^verbatim>\<open>sync.RWMutex\<close> also waits behind a writer that waits
  for other readers, and the writer may have come to that call already or not.
\<close>

fun must_wait :: "'l goroutine list \<Rightarrow> 'l goroutine \<Rightarrow> bool" where
  "must_wait gs (hs, Acquire w l # ops) = (held_write l gs \<or> w \<and> held l gs)"
| "must_wait gs g = False"

fun may_wait :: "'l goroutine list \<Rightarrow> 'l goroutine \<Rightarrow> bool" where
  "may_wait gs (hs, Acquire w l # ops) = (held_write l gs \<or> held l gs \<and> (w \<or> writer_waits l gs))"
| "may_wait gs g = False"

fun advance :: "'l goroutine \<Rightarrow> 'l goroutine" where
  "advance (hs, Acquire w l # ops) = ((w, l) # hs, ops)"
| "advance (hs, Release w l # ops) = (remove1 (w, l) hs, ops)"
| "advance (hs, []) = (hs, [])"

inductive lock_step :: "'l goroutine list \<Rightarrow> 'l goroutine list \<Rightarrow> bool" where
  step: "i < length gs \<Longrightarrow> snd (gs ! i) \<noteq> [] \<Longrightarrow> \<not> must_wait gs (gs ! i) \<Longrightarrow> lock_step gs (gs[i := advance (gs ! i)])"

inductive_cases lock_stepE: "lock_step gs gs'"

definition unfinished :: "'l goroutine list \<Rightarrow> 'l goroutine list" where
  "unfinished gs = filter (\<lambda>g. snd g \<noteq> []) gs"

definition deadlocked :: "'l goroutine list \<Rightarrow> bool" where
  "deadlocked gs \<longleftrightarrow> unfinished gs \<noteq> [] \<and> list_all (must_wait gs) (unfinished gs)"

definition may_deadlock :: "'l goroutine list \<Rightarrow> bool" where
  "may_deadlock gs \<longleftrightarrow> unfinished gs \<noteq> [] \<and> list_all (may_wait gs) (unfinished gs)"

lemma must_may: "must_wait gs g \<Longrightarrow> may_wait gs g"
  by (cases "(gs, g)" rule: must_wait.cases) auto

lemma deadlocked_may: "deadlocked gs \<Longrightarrow> may_deadlock gs"
  by (auto simp: deadlocked_def may_deadlock_def list_all_iff dest: must_may)

text \<open>Goroutines that begin with the operations of their calls.\<close>

definition goroutines :: "('c \<Rightarrow> 'l lock_op list) \<Rightarrow> 'c list list \<Rightarrow> 'l goroutine list" where
  "goroutines locks_of css = map (\<lambda>cs. ([], concat (map locks_of cs))) css"

subsection \<open>The order of a rank\<close>

fun ordered :: "('l \<Rightarrow> nat) \<Rightarrow> (bool \<times> 'l) list \<Rightarrow> 'l lock_op list \<Rightarrow> bool" where
  "ordered rank hs [] = (hs = [])"
| "ordered rank hs (Acquire w l # ops) = (list_all (\<lambda>h. rank (snd h) < rank l) hs \<and> ordered rank ((w, l) # hs) ops)"
| "ordered rank hs (Release w l # ops) = ((w, l) \<in> set hs \<and> ordered rank (remove1 (w, l) hs) ops)"

abbreviation all_ordered :: "('l \<Rightarrow> nat) \<Rightarrow> 'l goroutine list \<Rightarrow> bool" where
  "all_ordered rank gs \<equiv> \<forall>g\<in>set gs. ordered rank (fst g) (snd g)"

lemma ordered_append: "ordered rank hs ops \<Longrightarrow> ordered rank [] ops' \<Longrightarrow> ordered rank hs (ops @ ops')"
  by (induction rank hs ops rule: ordered.induct) auto

lemma ordered_concat: "\<forall>ops\<in>set opss. ordered rank [] ops \<Longrightarrow> ordered rank [] (concat opss)"
  by (induction opss) (auto intro: ordered_append)

lemma ordered_advance: "ordered rank (fst g) (snd g) \<Longrightarrow> ordered rank (fst (advance g)) (snd (advance g))"
  by (cases g rule: advance.cases) auto

lemma ordered_step: "lock_step gs gs' \<Longrightarrow> all_ordered rank gs \<Longrightarrow> all_ordered rank gs'"
  by (elim lock_stepE) (auto dest!: set_update_subset_insert [THEN subsetD] intro!: ordered_advance)

lemma ordered_steps: "lock_step\<^sup>*\<^sup>* gs gs' \<Longrightarrow> all_ordered rank gs \<Longrightarrow> all_ordered rank gs'"
  by (induction rule: rtranclp_induct) (auto dest: ordered_step)

lemma held_higher:
  assumes "all_ordered rank gs" and "g \<in> set gs" and "may_wait gs g" and "snd g = Acquire w l # ops"
  shows "\<exists>g'\<in>set gs. snd g' \<noteq> [] \<and> (\<forall>w' l' ops'. snd g' = Acquire w' l' # ops' \<longrightarrow> rank l < rank l')"
proof -
  have "held l gs" using assms(3,4) by (cases g) (force simp: held_def held_write_def list_ex_iff)
  then obtain g' w' where g': "g' \<in> set gs" "(w', l) \<in> set (fst g')" by (auto simp: held_def list_ex_iff)
  from assms(1) g'(1) have "ordered rank (fst g') (snd g')" by blast
  with g' show ?thesis by (intro bexI [of _ g']) (cases "snd g'"; force simp: list_all_iff)+
qed

text \<open>Of the goroutines that wait, the one whose lock has the greatest rank waits for one that does not.\<close>

lemma ordered_not_stuck:
  fixes gs :: "'l goroutine list"
  assumes ord: "all_ordered rank gs"
  shows "\<not> may_deadlock gs"
proof
  define wanted where "wanted = (\<lambda>g :: 'l goroutine. case snd g of Acquire w l # _ \<Rightarrow> rank l | _ \<Rightarrow> 0)"
  assume "may_deadlock gs"
  then have some: "unfinished gs \<noteq> []" and waits: "\<forall>g\<in>set (unfinished gs). may_wait gs g"
    by (auto simp: may_deadlock_def list_all_iff)
  let ?U = "set (unfinished gs)"
  have "Max (wanted ` ?U) \<in> wanted ` ?U" using some by (intro Max_in) auto
  then obtain g where g: "g \<in> ?U" "wanted g = Max (wanted ` ?U)" by auto
  have top: "wanted g' \<le> wanted g" if "g' \<in> ?U" for g' using that by (simp add: g(2))
  obtain w l ops where ops: "snd g = Acquire w l # ops"
    using waits g(1) by (cases "(gs, g)" rule: may_wait.cases) auto
  have "g \<in> set gs" using g(1) by (simp add: unfinished_def)
  from held_higher [OF ord this _ ops] waits g(1)
  obtain g' where g': "g' \<in> set gs" "snd g' \<noteq> []"
      "\<forall>w' l' ops'. snd g' = Acquire w' l' # ops' \<longrightarrow> rank l < rank l'" by blast
  then have un: "g' \<in> set (unfinished gs)" by (simp add: unfinished_def)
  then obtain w' l' ops' where ops': "snd g' = Acquire w' l' # ops'"
    using waits by (cases "(gs, g')" rule: may_wait.cases) auto
  then have "wanted g < wanted g'" using g'(3) by (simp add: wanted_def ops)
  with top [OF un] show False by simp
qed

subsection \<open>The interface\<close>

text \<open>\<open>safe\<close> picks the calls that keep the order.\<close>

locale lock_discipline =
  fixes rank :: "'l \<Rightarrow> nat" and locks_of :: "'c \<Rightarrow> 'l lock_op list" and safe :: "'c \<Rightarrow> bool"
  assumes in_order: "safe c \<Longrightarrow> ordered rank [] (locks_of c)"
begin

lemma begins_ordered: "\<forall>cs\<in>set css. \<forall>c\<in>set cs. safe c \<Longrightarrow> all_ordered rank (goroutines locks_of css)"
  by (auto simp: goroutines_def intro!: ordered_concat in_order)

lemma never_stuck:
  "\<forall>cs\<in>set css. \<forall>c\<in>set cs. safe c \<Longrightarrow> lock_step\<^sup>*\<^sup>* (goroutines locks_of css) gs \<Longrightarrow> \<not> may_deadlock gs"
  using ordered_steps [OF _ begins_ordered] by (intro ordered_not_stuck) blast

end

text \<open>Operations that hold nothing while they wait.\<close>

definition writing :: "'l \<Rightarrow> 'l lock_op list \<Rightarrow> 'l lock_op list" where
  "writing l ops = Acquire True l # ops @ [Release True l]"

definition reading :: "'l \<Rightarrow> 'l lock_op list \<Rightarrow> 'l lock_op list" where
  "reading l ops = Acquire False l # ops @ [Release False l]"

text \<open>An operation that takes only locks above what is held, and gives them all back.\<close>

fun above :: "('l \<Rightarrow> nat) \<Rightarrow> nat \<Rightarrow> 'l lock_op list \<Rightarrow> bool" where
  "above rank n [] = True"
| "above rank n (Acquire w l # ops) = (n \<le> rank l \<and> above rank n ops)"
| "above rank n (Release w l # ops) = above rank n ops"

lemma above_append [simp]: "above rank n (ops @ ops') \<longleftrightarrow> above rank n ops \<and> above rank n ops'"
  by (induction rank n ops rule: above.induct) auto

lemma above_concat: "above rank n (concat opss) \<longleftrightarrow> (\<forall>ops\<in>set opss. above rank n ops)"
  by (induction opss) auto

lemma above_around [simp]:
  "above rank n (writing l ops) \<longleftrightarrow> n \<le> rank l \<and> above rank n ops"
  "above rank n (reading l ops) \<longleftrightarrow> n \<le> rank l \<and> above rank n ops"
  by (simp_all add: writing_def reading_def)

lemma remove1_append_notin: "remove1 h (hs @ hs') = (if h \<in> set hs then remove1 h hs @ hs' else hs @ remove1 h hs')"
  by (simp add: remove1_append)

lemma ordered_inside:
  assumes "ordered rank hs ops" and "above rank (Suc (rank l)) ops"
    and "\<forall>h\<in>set hs. rank l < rank (snd h)"
  shows "ordered rank (hs @ [(w, l)]) (ops @ [Release w l])"
  using assms
  by (induction rank hs ops rule: ordered.induct)
    (auto simp: remove1_append list_all_iff dest: notin_set_remove1)

lemma ordered_around:
  assumes "ordered rank [] ops" and "above rank (Suc (rank l)) ops"
  shows "ordered rank [] (writing l ops)" "ordered rank [] (reading l ops)"
  using ordered_inside [OF assms, of True] ordered_inside [OF assms, of False]
  by (simp_all add: writing_def reading_def)

lemma ordered_single: "ordered rank [] (writing l [])" "ordered rank [] (reading l [])"
  by (simp_all add: writing_def reading_def)

lemma ordered_nil: "ordered rank [] []"
  by simp

end
