(* ===== verification/ChainLocks.thy ===== *)
theory ChainLocks
  imports RpcServer Locks
begin

text \<open>
  The locks a node takes when it serves requests: those of the server (\<^verbatim>\<open>rpc/server_v2.go\<close>) and of the
  chain and its parts (\<^verbatim>\<open>core/blockchain.go\<close>, \<^verbatim>\<open>core/utxo.go\<close>, \<^verbatim>\<open>core/logger.go\<close>). An accepted block
  holds the lock of the chain while the locks of its parts are taken and given back one after the other.
\<close>

datatype node_lock = ServerMu | ChainMu | ConsensusMu | AdjustmentMu | UtxoMu | MempoolMu | StateMu | EventMu | LoggerMu

fun node_rank :: "node_lock \<Rightarrow> nat" where
  "node_rank ServerMu = 0"
| "node_rank ChainMu = 1"
| "node_rank LoggerMu = 3"
| "node_rank l = 2"

text \<open>The proof of work of a block is checked under the lock of the consensus, after the other checks.\<close>

definition validateBlockV2_locks :: "block \<Rightarrow> block option \<Rightarrow> node_lock lock_op list" where
  "validateBlockV2_locks b best =
     (if bh_Number (blk_Header b) = 0 then []
      else
        (case best of
           None \<Rightarrow> []
         | Some parent \<Rightarrow>
             if bh_ParentHash (blk_Header b) \<noteq> blk_Hash parent
               \<or> bh_Number (blk_Header b) \<noteq> bh_Number (blk_Header parent) + 1
               \<or> bh_Timestamp (blk_Header b) < bh_Timestamp (blk_Header parent) then []
             else reading ConsensusMu []))"

definition LogDebug_locks :: "node_lock lock_op list" where
  "LogDebug_locks = reading LoggerMu []"

definition processTransactionUTXOs_locks :: "transaction \<Rightarrow> node_lock lock_op list" where
  "processTransactionUTXOs_locks tx =
     concat (map (\<lambda>i. writing UtxoMu []) (tx_Inputs tx)) @
     concat (map (\<lambda>out. writing UtxoMu [] @ LogDebug_locks) (tx_Outputs tx))"

definition addBlockV2_locks :: "block \<Rightarrow> 's chain \<Rightarrow> node_lock lock_op list" where
  "addBlockV2_locks b c =
     writing ChainMu
       (validateBlockV2_locks b (ch_bestBlock c) @
        (case validateBlockV2 b c of
           Inl _ \<Rightarrow> []
         | Inr _ \<Rightarrow>
             concat (map (\<lambda>tx. processTransactionUTXOs_locks tx @ writing MempoolMu []) (blk_Txs b)) @
             writing StateMu [] @ writing StateMu [] @ reading EventMu []))"

definition CreateNewBlockV2_locks :: "'s chain \<Rightarrow> node_lock lock_op list" where
  "CreateNewBlockV2_locks c =
     reading ChainMu [] @ (case ch_bestBlock c of None \<Rightarrow> [] | Some parent \<Rightarrow> reading MempoolMu [])"

definition checkRateLimit_locks :: "string \<Rightarrow> node_lock lock_op list" where
  "checkRateLimit_locks ip = (if ip = ''127.0.0.1'' \<or> ip = ''::1'' then [] else writing ServerMu [])"

text \<open>\<open>ReadCall\<close> and \<open>WriteCall\<close> are the operations that take one lock and hold no other.\<close>

datatype 's node_call = AddBlockCall block "'s chain" | TemplateCall "'s chain" | RateLimitCall string
  | ReadCall node_lock | WriteCall node_lock

fun node_locks :: "'s node_call \<Rightarrow> node_lock lock_op list" where
  "node_locks (AddBlockCall b c) = addBlockV2_locks b c"
| "node_locks (TemplateCall c) = CreateNewBlockV2_locks c"
| "node_locks (RateLimitCall ip) = checkRateLimit_locks ip"
| "node_locks (ReadCall l) = reading l []"
| "node_locks (WriteCall l) = writing l []"

lemma ordered_validate: "ordered node_rank [] (validateBlockV2_locks b best)"
  by (auto simp: validateBlockV2_locks_def ordered_single split: option.split)

lemma ordered_process: "ordered node_rank [] (processTransactionUTXOs_locks tx)"
  by (auto simp: processTransactionUTXOs_locks_def LogDebug_locks_def ordered_single intro!: ordered_append ordered_concat)

lemma ordered_addBlockV2: "ordered node_rank [] (addBlockV2_locks b c)"
  unfolding addBlockV2_locks_def
proof (rule ordered_around(1), goal_cases)
  case 1
  show ?case
    by (auto simp: ordered_single ordered_nil split: sum.split
      intro!: ordered_append ordered_concat ordered_validate ordered_process simp del: ordered.simps)
next
  case 2
  show ?case
    by (auto simp: validateBlockV2_locks_def processTransactionUTXOs_locks_def LogDebug_locks_def above_concat
      split: sum.split option.split)
qed

interpretation node_calls: lock_discipline node_rank node_locks "\<lambda>_ :: 's node_call. True"
proof (unfold_locales)
  fix c :: "'s node_call"
  show "ordered node_rank [] (node_locks c)"
    by (cases c) (auto simp: ordered_addBlockV2 CreateNewBlockV2_locks_def checkRateLimit_locks_def ordered_single ordered_nil
      split: option.split intro!: ordered_append simp del: ordered.simps)
qed



end
