(* ===== verification/P2P.thy ===== *)
theory P2P
  imports Wire "HOL-Library.AList"
begin

text \<open>
  \<^verbatim>\<open>network/p2p.go\<close>: the peer-to-peer network. A peer is an object that the table of peers and
  the goroutine that reads its connection share, so peers live in a store and are named by their
  place in it; a reference that has left the table is still used by its goroutine. What a connection
  has been sent is part of its peer. \<open>fails\<close> says which connections fail on a write;
  \<^verbatim>\<open>json.Unmarshal\<close> of a block or a transaction is an argument. The table is a list of entries in
  the order in which a \<^verbatim>\<open>range\<close> visits them.
\<close>

subsection \<open>State\<close>

record p2p_config =
  pc_ListenAddr :: string
  pc_SeedNodes :: "string list"
  pc_MaxPeers :: int
  pc_DialTimeout :: int
  pc_ReadTimeout :: int
  pc_WriteTimeout :: int
  pc_KeepAlive :: int
  pc_DiscoveryPort :: int

record p2p_transaction =
  pt_From :: address
  pt_To :: address
  pt_Amount :: u64
  pt_Nonce :: u64
  pt_Fee :: u64
  pt_GasUsed :: u64
  pt_GasPrice :: u64
  pt_Data :: bytes
  pt_Signature :: bytes
  pt_Hash :: hash

text \<open>The header type repeats the one of \<^verbatim>\<open>core\<close>.\<close>

record p2p_block =
  pb_Header :: block_header
  pb_Txs :: "p2p_transaction list"
  pb_Hash :: hash

datatype message_data = JsonData gojson | VersionData string | DataOfBlock p2p_block | DataOfTx p2p_transaction

record p2p_message =
  ms_Type :: string
  ms_Data :: message_data
  ms_ID :: string
  ms_Version :: string
  ms_Time :: gotime

record peer =
  pr_ID :: string
  pr_Address :: string
  pr_LastSeen :: gotime
  pr_Connected :: bool
  pr_Version :: string
  pr_Height :: u64
  pr_Services :: u64
  pr_UserAgent :: string
  pr_sent :: "p2p_message list"
  pr_closed :: bool

record p2p =
  pn_config :: p2p_config
  pn_listening :: bool
  pn_peers :: "(string \<times> nat) list"
  pn_running :: bool
  pn_stopped :: bool
  pn_blockChan :: "p2p_block list"
  pn_txChan :: "p2p_transaction list"
  pn_store :: "peer list"

datatype p2p_error = AlreadyRunning | ListenFailed string | MarshalMessage | SendFailed | SendSomeFailed "p2p_error list"

definition NewP2P :: "p2p_config \<Rightarrow> p2p" where
  "NewP2P config =
     \<lparr>pn_config = config, pn_listening = False, pn_peers = [], pn_running = False, pn_stopped = False,
      pn_blockChan = [], pn_txChan = [], pn_store = []\<rparr>"

definition upd_peer :: "nat \<Rightarrow> (peer \<Rightarrow> peer) \<Rightarrow> p2p \<Rightarrow> p2p" where
  "upd_peer r f p = p\<lparr>pn_store := (pn_store p)[r := f (pn_store p ! r)]\<rparr>"

subsection \<open>Starting and stopping\<close>

text \<open>\<open>listen\<close> is the error of \<^verbatim>\<open>net.Listen\<close>, if any.\<close>

definition p2p_Start :: "string option \<Rightarrow> p2p \<Rightarrow> p2p \<times> (p2p_error + unit)" where
  "p2p_Start listen p =
     (if pn_running p then (p, Inl AlreadyRunning)
      else
        (case listen of
           Some e \<Rightarrow> (p, Inl (ListenFailed e))
         | None \<Rightarrow> (p\<lparr>pn_listening := True, pn_running := True\<rparr>, Inr ())))"

text \<open>
  Closing the channel of the goroutines a second time panics, after the flag is cleared and before
  the listener and the connections are closed. \<^verbatim>\<open>Start\<close> makes no new channel.
\<close>

definition p2p_Stop :: "p2p \<Rightarrow> p2p \<times> (go_panic + unit)" where
  "p2p_Stop p =
     (if \<not> pn_running p then (p, Inr ())
      else if pn_stopped p then (p\<lparr>pn_running := False\<rparr>, Inl CloseClosedChannel)
      else
        (let p1 = p\<lparr>pn_running := False, pn_stopped := True, pn_listening := False\<rparr>;
             p2 = fold (\<lambda>e. upd_peer (snd e) (\<lambda>pr. pr\<lparr>pr_closed := True\<rparr>)) (pn_peers p1) p1
         in (p2\<lparr>pn_peers := []\<rparr>, Inr ())))"

definition p2p_IsRunning :: "p2p \<Rightarrow> bool" where
  "p2p_IsRunning p = pn_running p"

definition GetPeers :: "p2p \<Rightarrow> peer list" where
  "GetPeers p = map (\<lambda>e. pn_store p ! snd e) (pn_peers p)"

definition GetPeerCount :: "p2p \<Rightarrow> int" where
  "GetPeerCount p = int (length (pn_peers p))"

definition GetBlockChannel :: "p2p \<Rightarrow> p2p_block list" where
  "GetBlockChannel p = pn_blockChan p"

definition GetTransactionChannel :: "p2p \<Rightarrow> p2p_transaction list" where
  "GetTransactionChannel p = pn_txChan p"

subsection \<open>Sending\<close>

definition sendMessage :: "(nat \<Rightarrow> bool) \<Rightarrow> nat \<Rightarrow> p2p_message \<Rightarrow> p2p \<Rightarrow> p2p \<times> (p2p_error + unit)" where
  "sendMessage fails r m p =
     (if fails r then (p, Inl SendFailed)
      else (upd_peer r (\<lambda>pr. pr\<lparr>pr_sent := pr_sent pr @ [m]\<rparr>) p, Inr ()))"

primrec send_all :: "(nat \<Rightarrow> bool) \<Rightarrow> p2p_message \<Rightarrow> nat list \<Rightarrow> p2p \<Rightarrow> p2p \<times> p2p_error list" where
  "send_all fails m [] p = (p, [])"
| "send_all fails m (r # rs) p =
     (case sendMessage fails r m p of
        (p1, Inl e) \<Rightarrow> (let (p2, es) = send_all fails m rs p1 in (p2, e # es))
      | (p1, Inr _) \<Rightarrow> send_all fails m rs p1)"

definition broadcastMessage :: "(nat \<Rightarrow> bool) \<Rightarrow> p2p_message \<Rightarrow> p2p \<Rightarrow> p2p \<times> (p2p_error + unit)" where
  "broadcastMessage fails m p =
     (let (p', errors) = send_all fails m (map snd (pn_peers p)) p
      in (p', if 0 < length errors then Inl (SendSomeFailed errors) else Inr ()))"

definition BroadcastBlock :: "(nat \<Rightarrow> bool) \<Rightarrow> gotime \<Rightarrow> p2p_block \<Rightarrow> p2p \<Rightarrow> p2p \<times> (p2p_error + unit)" where
  "BroadcastBlock fails now b p =
     broadcastMessage fails \<lparr>ms_Type = ''block'', ms_Data = DataOfBlock b, ms_ID = hex_encode (hash_bytes (pb_Hash b)),
       ms_Version = ''1.0'', ms_Time = now\<rparr> p"

definition BroadcastTransaction :: "(nat \<Rightarrow> bool) \<Rightarrow> gotime \<Rightarrow> p2p_transaction \<Rightarrow> p2p \<Rightarrow> p2p \<times> (p2p_error + unit)" where
  "BroadcastTransaction fails now tx p =
     broadcastMessage fails \<lparr>ms_Type = ''transaction'', ms_Data = DataOfTx tx, ms_ID = hex_encode (hash_bytes (pt_Hash tx)),
       ms_Version = ''1.0'', ms_Time = now\<rparr> p"

subsection \<open>The table of peers\<close>

definition addPeer :: "nat \<Rightarrow> p2p \<Rightarrow> p2p" where
  "addPeer r p = p\<lparr>pn_peers := AList.update (pr_ID (pn_store p ! r)) r (pn_peers p)\<rparr>"

definition removePeer :: "string \<Rightarrow> p2p \<Rightarrow> p2p" where
  "removePeer i p =
     (case map_of (pn_peers p) i of
        Some r \<Rightarrow> (upd_peer r (\<lambda>pr. pr\<lparr>pr_Connected := False\<rparr>) p)\<lparr>pn_peers := AList.delete i (pn_peers p)\<rparr>
      | None \<Rightarrow> p)"

text \<open>
  \<^verbatim>\<open>handleConnection\<close> and \<^verbatim>\<open>connectToPeer\<close> make a peer, enter it, and read until the connection
  ends; then the entry of its identifier is removed, whoever it belongs to by then. Only an accepted
  connection is closed at the end.
\<close>

definition new_peer :: "string \<Rightarrow> gotime \<Rightarrow> peer" where
  "new_peer addr now =
     \<lparr>pr_ID = addr, pr_Address = addr, pr_LastSeen = now, pr_Connected = True, pr_Version = [], pr_Height = 0,
      pr_Services = 0, pr_UserAgent = [], pr_sent = [], pr_closed = False\<rparr>"

definition connect_peer :: "string \<Rightarrow> gotime \<Rightarrow> p2p \<Rightarrow> p2p" where
  "connect_peer addr now p = addPeer (length (pn_store p)) (p\<lparr>pn_store := pn_store p @ [new_peer addr now]\<rparr>)"

text \<open>\<open>dial\<close> is the error of \<^verbatim>\<open>net.DialTimeout\<close>, if any.\<close>

definition connectToPeer :: "string option \<Rightarrow> string \<Rightarrow> gotime \<Rightarrow> p2p \<Rightarrow> p2p" where
  "connectToPeer dial addr now p = (case dial of Some _ \<Rightarrow> p | None \<Rightarrow> connect_peer addr now p)"

text \<open>One round of the loop that accepts connections, and whether it goes on.\<close>

datatype accepted = AcceptFailed | Accepted string

definition acceptConnections :: "gotime \<Rightarrow> accepted \<Rightarrow> p2p \<Rightarrow> p2p \<times> bool" where
  "acceptConnections now a p =
     (if pn_stopped p then (p, False)
      else (case a of AcceptFailed \<Rightarrow> (p, True) | Accepted addr \<Rightarrow> (connect_peer addr now p, True)))"

definition end_connection :: "bool \<Rightarrow> nat \<Rightarrow> p2p \<Rightarrow> p2p" where
  "end_connection accepted r p =
     (let p1 = removePeer (pr_ID (pn_store p ! r)) p
      in if accepted then upd_peer r (\<lambda>pr. pr\<lparr>pr_closed := True\<rparr>) p1 else p1)"

subsection \<open>Receiving\<close>

text \<open>A send to a full channel is dropped.\<close>

definition try_put :: "nat \<Rightarrow> 'a \<Rightarrow> 'a list \<Rightarrow> 'a list" where
  "try_put capacity x ch = (if length ch < capacity then ch @ [x] else ch)"

definition handleVersionMessage :: "(nat \<Rightarrow> bool) \<Rightarrow> gotime \<Rightarrow> nat \<Rightarrow> p2p_message \<Rightarrow> p2p \<Rightarrow> p2p" where
  "handleVersionMessage fails now r m p =
     fst (sendMessage fails r \<lparr>ms_Type = ''version'', ms_Data = VersionData ''1.0'', ms_ID = [], ms_Version = ''1.0'', ms_Time = now\<rparr>
       (upd_peer r (\<lambda>pr. pr\<lparr>pr_Version := ms_Version m\<rparr>) p))"

definition handleBlockMessage :: "(message_data \<Rightarrow> string + p2p_block) \<Rightarrow> p2p_message \<Rightarrow> p2p \<Rightarrow> p2p" where
  "handleBlockMessage decode m p =
     (case decode (ms_Data m) of Inl _ \<Rightarrow> p | Inr b \<Rightarrow> p\<lparr>pn_blockChan := try_put 100 b (pn_blockChan p)\<rparr>)"

definition handleTransactionMessage :: "(message_data \<Rightarrow> string + p2p_transaction) \<Rightarrow> p2p_message \<Rightarrow> p2p \<Rightarrow> p2p" where
  "handleTransactionMessage decode m p =
     (case decode (ms_Data m) of Inl _ \<Rightarrow> p | Inr tx \<Rightarrow> p\<lparr>pn_txChan := try_put 1000 tx (pn_txChan p)\<rparr>)"

definition handlePingMessage :: "(nat \<Rightarrow> bool) \<Rightarrow> gotime \<Rightarrow> nat \<Rightarrow> p2p_message \<Rightarrow> p2p \<Rightarrow> p2p" where
  "handlePingMessage fails now r m p =
     fst (sendMessage fails r \<lparr>ms_Type = ''pong'', ms_Data = ms_Data m, ms_ID = [], ms_Version = ''1.0'', ms_Time = now\<rparr> p)"

definition handlePongMessage :: "gotime \<Rightarrow> nat \<Rightarrow> p2p \<Rightarrow> p2p" where
  "handlePongMessage now r p = upd_peer r (\<lambda>pr. pr\<lparr>pr_LastSeen := now\<rparr>) p"

text \<open>The requests for blocks and their answers are only logged.\<close>

definition handleGetBlocksMessage :: "nat \<Rightarrow> p2p_message \<Rightarrow> p2p \<Rightarrow> p2p" where
  "handleGetBlocksMessage r m p = p"

definition handleBlocksMessage :: "nat \<Rightarrow> p2p_message \<Rightarrow> p2p \<Rightarrow> p2p" where
  "handleBlocksMessage r m p = p"

definition handleMessage ::
  "(nat \<Rightarrow> bool) \<Rightarrow> (message_data \<Rightarrow> string + p2p_block) \<Rightarrow> (message_data \<Rightarrow> string + p2p_transaction) \<Rightarrow>
   gotime \<Rightarrow> nat \<Rightarrow> p2p_message \<Rightarrow> p2p \<Rightarrow> p2p" where
  "handleMessage fails dec_block dec_tx now r m p =
     (if ms_Type m = ''version'' then handleVersionMessage fails now r m p
      else if ms_Type m = ''block'' then handleBlockMessage dec_block m p
      else if ms_Type m = ''transaction'' then handleTransactionMessage dec_tx m p
      else if ms_Type m = ''get_blocks'' then handleGetBlocksMessage r m p
      else if ms_Type m = ''blocks'' then handleBlocksMessage r m p
      else if ms_Type m = ''ping'' then handlePingMessage fails now r m p
      else if ms_Type m = ''pong'' then handlePongMessage now r p
      else p)"

datatype line = ReadFailed | Malformed | Parsed p2p_message

text \<open>One round of the reading loop: the state, and whether the loop goes on.\<close>

definition read_line ::
  "(nat \<Rightarrow> bool) \<Rightarrow> (message_data \<Rightarrow> string + p2p_block) \<Rightarrow> (message_data \<Rightarrow> string + p2p_transaction) \<Rightarrow>
   gotime \<Rightarrow> gotime \<Rightarrow> nat \<Rightarrow> line \<Rightarrow> p2p \<Rightarrow> p2p \<times> bool" where
  "read_line fails dec_block dec_tx now seen r l p =
     (if pn_stopped p then (p, False)
      else
        (case l of
           ReadFailed \<Rightarrow> (p, False)
         | Malformed \<Rightarrow> (p, True)
         | Parsed m \<Rightarrow>
             (upd_peer r (\<lambda>pr. pr\<lparr>pr_LastSeen := seen\<rparr>) (handleMessage fails dec_block dec_tx now r m p), True)))"

subsection \<open>Maintenance\<close>

text \<open>The seed nodes a tick of the discovery dials: the count of peers is read once, before the loop.\<close>

primrec seeds_to_dial :: "int \<Rightarrow> int \<Rightarrow> p2p \<Rightarrow> string list \<Rightarrow> string list" where
  "seeds_to_dial count maxPeers p [] = []"
| "seeds_to_dial count maxPeers p (s # ss) =
     (if maxPeers \<le> count then []
      else if list_ex (\<lambda>pr. pr_Address pr = s) (GetPeers p) then seeds_to_dial count maxPeers p ss
      else s # seeds_to_dial count maxPeers p ss)"

definition connectToSeedNodes :: "p2p \<Rightarrow> string list" where
  "connectToSeedNodes p =
     (let currentPeerCount = GetPeerCount p; maxPeers = pc_MaxPeers (pn_config p)
      in if maxPeers \<le> currentPeerCount then []
         else seeds_to_dial currentPeerCount maxPeers p (pc_SeedNodes (pn_config p)))"

definition inactive :: "gotime \<Rightarrow> int \<Rightarrow> peer \<Rightarrow> bool" where
  "inactive now keepAlive pr \<longleftrightarrow> keepAlive * 2 < max (- (2 ^ 63)) (min (2 ^ 63 - 1) (now - pr_LastSeen pr))"

definition drop_inactive :: "gotime \<Rightarrow> string \<times> nat \<Rightarrow> p2p \<Rightarrow> p2p" where
  "drop_inactive now e p =
     (if inactive now (pc_KeepAlive (pn_config p)) (pn_store p ! snd e)
      then (upd_peer (snd e) (\<lambda>pr. pr\<lparr>pr_Connected := False, pr_closed := True\<rparr>) p)
             \<lparr>pn_peers := AList.delete (fst e) (pn_peers p)\<rparr>
      else p)"

definition cleanupInactivePeers :: "gotime \<Rightarrow> p2p \<Rightarrow> p2p" where
  "cleanupInactivePeers now p = fold (drop_inactive now) (pn_peers p) p"

text \<open>
  A round of the two loops with a ticker: what the loop sees first when both the tick and the closed
  channel are there is the scheduler's choice. The discovery gives the addresses it dials.
\<close>

datatype woken = Tick | StopSeen

definition discoverPeers :: "woken \<Rightarrow> p2p \<Rightarrow> string list \<times> bool" where
  "discoverPeers w p = (case w of StopSeen \<Rightarrow> ([], False) | Tick \<Rightarrow> (connectToSeedNodes p, True))"

definition maintainPeers :: "woken \<Rightarrow> gotime \<Rightarrow> p2p \<Rightarrow> p2p \<times> bool" where
  "maintainPeers w now p = (case w of StopSeen \<Rightarrow> (p, False) | Tick \<Rightarrow> (cleanupInactivePeers now p, True))"

definition peer_info :: "peer \<Rightarrow> (string \<times> rpc_value) list \<times> gotime" where
  "peer_info pr =
     ([(''id'', VStr (pr_ID pr)), (''address'', VStr (pr_Address pr)), (''connected'', VBool (pr_Connected pr)),
       (''version'', VStr (pr_Version pr)), (''height'', VU64 (pr_Height pr))], pr_LastSeen pr)"

definition GetNetworkInfo :: "p2p \<Rightarrow> (string \<times> rpc_value) list \<times> ((string \<times> rpc_value) list \<times> gotime) list" where
  "GetNetworkInfo p =
     ([(''running'', VBool (p2p_IsRunning p)), (''listenAddr'', VStr (pc_ListenAddr (pn_config p))),
       (''peerCount'', VI64 (int (length (pn_peers p)))), (''maxPeers'', VI64 (pc_MaxPeers (pn_config p)))],
      map peer_info (GetPeers p))"

subsection \<open>The table and the store\<close>

lemma upd_peer_simps [simp]:
  "pn_config (upd_peer r f p) = pn_config p" "pn_peers (upd_peer r f p) = pn_peers p"
  "pn_listening (upd_peer r f p) = pn_listening p" "pn_running (upd_peer r f p) = pn_running p" "pn_stopped (upd_peer r f p) = pn_stopped p"
  "pn_blockChan (upd_peer r f p) = pn_blockChan p" "pn_txChan (upd_peer r f p) = pn_txChan p"
  "length (pn_store (upd_peer r f p)) = length (pn_store p)"
  by (simp_all add: upd_peer_def)

lemma store_upd_peer:
  "q < length (pn_store p) \<Longrightarrow> pn_store (upd_peer r f p) ! q = (if q = r then f (pn_store p ! q) else pn_store p ! q)"
  by (simp add: upd_peer_def nth_list_update)

interpretation peer_tab: keyed_table "\<lambda>p i. map_of (pn_peers p) i"
  "\<lambda>e p. p\<lparr>pn_peers := AList.update (fst e) (snd e) (pn_peers p)\<rparr>" fst snd removePeer
  by unfold_locales (auto simp: removePeer_def AList.update_conv' AList.delete_conv' split: option.splits)

definition p2p_inv :: "p2p \<Rightarrow> bool" where
  "p2p_inv p \<longleftrightarrow> distinct (map fst (pn_peers p)) \<and>
     (\<forall>e\<in>set (pn_peers p). snd e < length (pn_store p) \<and> pr_ID (pn_store p ! snd e) = fst e) \<and>
     length (pn_blockChan p) \<le> 100 \<and> length (pn_txChan p) \<le> 1000"

definition keeps_ID :: "(peer \<Rightarrow> peer) \<Rightarrow> bool" where
  "keeps_ID f \<longleftrightarrow> (\<forall>pr. pr_ID (f pr) = pr_ID pr)"

lemma inv_upd_peer [wf_intros]: "p2p_inv p \<Longrightarrow> keeps_ID f \<Longrightarrow> p2p_inv (upd_peer r f p)"
  by (auto simp: p2p_inv_def store_upd_peer keeps_ID_def)

lemma keeps_ID_simps [simp]:
  "keeps_ID (\<lambda>pr. pr\<lparr>pr_sent := g pr\<rparr>)" "keeps_ID (\<lambda>pr. pr\<lparr>pr_closed := b\<rparr>)" "keeps_ID (\<lambda>pr. pr\<lparr>pr_Connected := b\<rparr>)"
  "keeps_ID (\<lambda>pr. pr\<lparr>pr_Connected := b, pr_closed := b'\<rparr>)" "keeps_ID (\<lambda>pr. pr\<lparr>pr_LastSeen := t\<rparr>)"
  "keeps_ID (\<lambda>pr. pr\<lparr>pr_Version := v\<rparr>)"
  by (simp_all add: keeps_ID_def)

lemma inv_sendMessage [wf_intros]: "p2p_inv p \<Longrightarrow> p2p_inv (fst (sendMessage fails r m p))"
  by (simp add: sendMessage_def wf_intros)

lemma inv_send_all [wf_intros]: "p2p_inv p \<Longrightarrow> p2p_inv (fst (send_all fails m rs p))"
proof (induction rs arbitrary: p)
  case (Cons r rs)
  have "p2p_inv (fst (sendMessage fails r m p))" using Cons.prems by (rule inv_sendMessage)
  from Cons.IH [OF this] show ?case
    by (cases "sendMessage fails r m p") (auto split: sum.splits prod.splits)
qed simp

lemma inv_broadcast [wf_intros]: "p2p_inv p \<Longrightarrow> p2p_inv (fst (broadcastMessage fails m p))"
  using inv_send_all [of p fails m "map snd (pn_peers p)"]
  by (cases "send_all fails m (map snd (pn_peers p)) p") (simp add: broadcastMessage_def)

lemma set_delete_subset: "set (AList.delete k al) \<subseteq> set al"
  by (auto simp: AList.delete_eq)

lemma inv_delete: "p2p_inv p \<Longrightarrow> p2p_inv (p\<lparr>pn_peers := AList.delete i (pn_peers p)\<rparr>)"
  using set_delete_subset [of i "pn_peers p"] by (auto simp: p2p_inv_def intro: AList.distinct_delete)

lemma inv_removePeer [wf_intros]: "p2p_inv p \<Longrightarrow> p2p_inv (removePeer i p)"
  using inv_delete [of "upd_peer r f p" i for r f]
  by (simp add: removePeer_def inv_upd_peer split: option.splits)

lemma inv_connect [wf_intros]: "p2p_inv p \<Longrightarrow> p2p_inv (connect_peer addr now p)"
proof -
  assume inv: "p2p_inv p"
  have "(k, v) \<in> set (AList.update addr r al) \<Longrightarrow> (k, v) = (addr, r) \<or> (k, v) \<in> set al" for k v r and al :: "(string \<times> nat) list"
    by (induction al) (auto split: if_splits)
  with inv show ?thesis
    by (fastforce simp: p2p_inv_def connect_peer_def addPeer_def new_peer_def nth_append intro: AList.distinct_update)
qed

lemma inv_handleMessage [wf_intros]: "p2p_inv p \<Longrightarrow> p2p_inv (handleMessage fails db dt now r m p)"
proof -
  assume inv: "p2p_inv p"
  then have "p2p_inv (handleBlockMessage db m p)" "p2p_inv (handleTransactionMessage dt m p)"
    by (auto simp: handleBlockMessage_def handleTransactionMessage_def p2p_inv_def try_put_def split: sum.splits)
  with inv show ?thesis
    by (simp add: handleMessage_def handleGetBlocksMessage_def handleBlocksMessage_def handleVersionMessage_def handlePingMessage_def handlePongMessage_def wf_intros)
qed

lemma inv_read_line [wf_intros]: "p2p_inv p \<Longrightarrow> p2p_inv (fst (read_line fails db dt now seen r l p))"
  by (simp add: read_line_def wf_intros split: line.splits)

lemma inv_cleanup [wf_intros]: "p2p_inv p \<Longrightarrow> p2p_inv (cleanupInactivePeers now p)"
proof -
  have step: "p2p_inv p \<Longrightarrow> p2p_inv (drop_inactive now e p)" for e p
    using inv_delete [of "upd_peer (snd e) (\<lambda>pr. pr\<lparr>pr_Connected := False, pr_closed := True\<rparr>) p" "fst e"]
    by (simp add: drop_inactive_def inv_upd_peer)
  have "p2p_inv p \<Longrightarrow> p2p_inv (fold (drop_inactive now) es p)" for es
    by (induction es arbitrary: p) (simp_all add: step)
  then show "p2p_inv p \<Longrightarrow> p2p_inv (cleanupInactivePeers now p)" by (simp add: cleanupInactivePeers_def)
qed

lemma inv_connectToPeer [wf_intros]: "p2p_inv p \<Longrightarrow> p2p_inv (connectToPeer dial addr now p)"
  by (simp add: connectToPeer_def wf_intros split: option.splits)

lemma inv_accept [wf_intros]: "p2p_inv p \<Longrightarrow> p2p_inv (fst (acceptConnections now a p))"
  by (simp add: acceptConnections_def wf_intros split: accepted.splits)

lemma inv_maintain [wf_intros]: "p2p_inv p \<Longrightarrow> p2p_inv (fst (maintainPeers w now p))"
  by (simp add: maintainPeers_def wf_intros split: woken.splits)

lemma inv_Stop [wf_intros]: "p2p_inv p \<Longrightarrow> p2p_inv (fst (p2p_Stop p))"
proof -
  have closed: "p2p_inv p \<Longrightarrow> p2p_inv (fold (\<lambda>e. upd_peer (snd e) (\<lambda>pr. pr\<lparr>pr_closed := True\<rparr>)) es p)" for es p
    by (induction es arbitrary: p) (simp_all add: wf_intros)
  assume inv: "p2p_inv p"
  define p1 where "p1 = p\<lparr>pn_running := False, pn_stopped := True, pn_listening := False\<rparr>"
  have "p2p_inv p1" using inv by (simp add: p1_def p2p_inv_def)
  then have "p2p_inv (fold (\<lambda>e. upd_peer (snd e) (\<lambda>pr. pr\<lparr>pr_closed := True\<rparr>)) (pn_peers p1) p1)" by (rule closed)
  then have "p2p_inv ((fold (\<lambda>e. upd_peer (snd e) (\<lambda>pr. pr\<lparr>pr_closed := True\<rparr>)) (pn_peers p1) p1)\<lparr>pn_peers := []\<rparr>)"
    by (simp add: p2p_inv_def)
  moreover have "p2p_inv (p\<lparr>pn_running := False\<rparr>)" using inv by (simp add: p2p_inv_def)
  ultimately show "p2p_inv (fst (p2p_Stop p))" using inv by (simp add: p2p_Stop_def Let_def p1_def)
qed

subsection \<open>A running network\<close>

text \<open>
  What the goroutines and the callers of a network do to it, without starting and stopping it: a
  connection may have been accepted, and a dial begun, before the network was stopped.
\<close>

inductive p2p_activity :: "p2p \<Rightarrow> p2p \<Rightarrow> bool" where
  connect: "p2p_activity p (connect_peer addr now p)"
| accept: "p2p_activity p (fst (acceptConnections now a p))"
| dialled: "p2p_activity p (connectToPeer dial addr now p)"
| reads: "p2p_activity p (fst (read_line fails db dt now seen r l p))"
| ends: "p2p_activity p (end_connection accepted r p)"
| broadcast: "p2p_activity p (fst (broadcastMessage fails m p))"
| maintain: "p2p_activity p (fst (maintainPeers w now p))"
| take_block: "p2p_activity p (p\<lparr>pn_blockChan := tl (pn_blockChan p)\<rparr>)"
| take_tx: "p2p_activity p (p\<lparr>pn_txChan := tl (pn_txChan p)\<rparr>)"

inductive_cases p2p_activityE: "p2p_activity p p'"

text \<open>A panic ends the program, so that only a stop without one leads on.\<close>

inductive p2p_step :: "p2p \<Rightarrow> p2p \<Rightarrow> bool" where
  start: "p2p_step p (fst (p2p_Start listen p))"
| stop: "p2p_Stop p = (p', Inr ()) \<Longrightarrow> p2p_step p p'"
| active: "p2p_activity p p' \<Longrightarrow> p2p_step p p'"

inductive_cases p2p_stepE: "p2p_step p p'"

inductive p2p_reachable :: "p2p_config \<Rightarrow> p2p \<Rightarrow> bool" for config where
  created: "p2p_reachable config (NewP2P config)"
| stepped: "p2p_reachable config p \<Longrightarrow> p2p_step p p' \<Longrightarrow> p2p_reachable config p'"

lemma inv_activity: "p2p_activity p p' \<Longrightarrow> p2p_inv p \<Longrightarrow> p2p_inv p'"
proof (elim p2p_activityE)
  fix accepted r assume "p' = end_connection accepted r p" "p2p_inv p"
  then show "p2p_inv p'" by (simp add: end_connection_def Let_def wf_intros)
next
  assume "p' = p\<lparr>pn_blockChan := tl (pn_blockChan p)\<rparr>" "p2p_inv p"
  then show "p2p_inv p'" by (auto simp: p2p_inv_def)
next
  assume "p' = p\<lparr>pn_txChan := tl (pn_txChan p)\<rparr>" "p2p_inv p"
  then show "p2p_inv p'" by (auto simp: p2p_inv_def)
qed (simp_all add: wf_intros)

lemma inv_step: "p2p_step p p' \<Longrightarrow> p2p_inv p \<Longrightarrow> p2p_inv p'"
  using inv_Stop [of p] inv_activity [of p p']
  by (elim p2p_stepE) (auto simp: p2p_Start_def p2p_inv_def split: option.splits)

lemma inv_NewP2P: "p2p_inv (NewP2P config)"
  by (simp add: p2p_inv_def NewP2P_def)

lemma reachable_p2p_inv: "p2p_reachable config p \<Longrightarrow> p2p_inv p"
  by (induction rule: p2p_reachable.induct) (auto intro: inv_NewP2P inv_step)

text \<open>
  C30. In every state the network reaches, each entry of the table stands under the identifier of the
  peer it refers to, no identifier is entered twice, and the channels hold at most 100 blocks and
  1000 transactions.
\<close>

theorem p2p_table_consistent:
  assumes "p2p_reachable config p"
  shows "distinct (map fst (pn_peers p)) \<and>
    (\<forall>i r. map_of (pn_peers p) i = Some r \<longrightarrow> r < length (pn_store p) \<and> pr_ID (pn_store p ! r) = i) \<and>
    length (pn_blockChan p) \<le> 100 \<and> length (pn_txChan p) \<le> 1000 \<and> GetPeerCount p = int (length (GetPeers p))"
  using reachable_p2p_inv [OF assms]
  by (auto simp: p2p_inv_def GetPeerCount_def GetPeers_def dest: map_of_SomeD)

definition sample_config :: p2p_config where
  "sample_config = \<lparr>pc_ListenAddr = '':17335'', pc_SeedNodes = [''seed1:17335'', ''seed2:17335''], pc_MaxPeers = 1,
     pc_DialTimeout = 0, pc_ReadTimeout = 0, pc_WriteTimeout = 0, pc_KeepAlive = 30, pc_DiscoveryPort = 0\<rparr>"

definition one_peer :: p2p where
  "one_peer = connect_peer ''peer1:5000'' 7 (NewP2P sample_config)"

lemma one_peer_reachable: "p2p_reachable sample_config one_peer"
  unfolding one_peer_def by (rule p2p_reachable.stepped [OF p2p_reachable.created p2p_step.active [OF p2p_activity.connect]])

theorem p2p_table_consistent_witness: "map_of (pn_peers one_peer) ''peer1:5000'' = Some 0 \<and> pr_ID (pn_store one_peer ! 0) = ''peer1:5000''"
proof -
  have "map_of (pn_peers one_peer) ''peer1:5000'' = Some 0"
    by (simp add: one_peer_def connect_peer_def addPeer_def new_peer_def NewP2P_def)
  with p2p_table_consistent [OF one_peer_reachable] show ?thesis by blast
qed

subsection \<open>Broadcasts\<close>

lemma inv_distinct_refs: "p2p_inv p \<Longrightarrow> distinct (map snd (pn_peers p))"
proof -
  assume inv: "p2p_inv p"
  have "map fst (pn_peers p) = map (\<lambda>r. pr_ID (pn_store p ! r)) (map snd (pn_peers p))"
    using inv by (auto simp: p2p_inv_def)
  then have "distinct (map (\<lambda>r. pr_ID (pn_store p ! r)) (map snd (pn_peers p)))"
    using inv by (metis p2p_inv_def)
  then show ?thesis using distinct_map by blast
qed

lemma sendMessage_store:
  "q < length (pn_store p) \<Longrightarrow> pn_store (fst (sendMessage fails r m p)) ! q =
     (if q = r \<and> \<not> fails r then (pn_store p ! q)\<lparr>pr_sent := pr_sent (pn_store p ! q) @ [m]\<rparr> else pn_store p ! q)"
  by (simp add: sendMessage_def store_upd_peer)

lemma send_all_store:
  assumes "distinct rs" and "q < length (pn_store p)"
  shows "pn_store (fst (send_all fails m rs p)) ! q =
      (if q \<in> set rs \<and> \<not> fails q then (pn_store p ! q)\<lparr>pr_sent := pr_sent (pn_store p ! q) @ [m]\<rparr> else pn_store p ! q) \<and>
    length (snd (send_all fails m rs p)) = length (filter fails rs)"
  using assms
proof (induction rs arbitrary: p)
  case (Cons r rs)
  have len: "length (pn_store (fst (sendMessage fails r m p))) = length (pn_store p)" by (simp add: sendMessage_def)
  note ih = Cons.IH [of "fst (sendMessage fails r m p)"]
  have "fst (send_all fails m (r # rs) p) = fst (send_all fails m rs (fst (sendMessage fails r m p))) \<and>
      length (snd (send_all fails m (r # rs) p)) =
        (if fails r then 1 else 0) + length (snd (send_all fails m rs (fst (sendMessage fails r m p))))"
    by (simp add: sendMessage_def split: prod.split)
  with ih Cons.prems len sendMessage_store [of q p fails r m] show ?case by auto
qed simp

lemma broadcast_store:
  assumes "p2p_reachable config p" and "q < length (pn_store p)"
  shows "pr_sent (pn_store (fst (broadcastMessage fails m p)) ! q) =
      (if q \<in> snd ` set (pn_peers p) \<and> \<not> fails q then pr_sent (pn_store p ! q) @ [m] else pr_sent (pn_store p ! q)) \<and>
    (snd (broadcastMessage fails m p) = Inr () \<longleftrightarrow> (\<forall>e\<in>set (pn_peers p). \<not> fails (snd e)))"
proof -
  let ?rs = "map snd (pn_peers p)"
  have d: "distinct ?rs" by (rule inv_distinct_refs [OF reachable_p2p_inv [OF assms(1)]])
  obtain p' es where s: "send_all fails m ?rs p = (p', es)" by fastforce
  from send_all_store [OF d assms(2), of fails m] s
  have st: "pr_sent (pn_store p' ! q) =
      (if q \<in> snd ` set (pn_peers p) \<and> \<not> fails q then pr_sent (pn_store p ! q) @ [m] else pr_sent (pn_store p ! q))"
    and es: "length es = length (filter fails ?rs)" by simp_all
  have "es = [] \<longleftrightarrow> (\<forall>e\<in>set (pn_peers p). \<not> fails (snd e))"
  proof -
    have "es = [] \<longleftrightarrow> filter fails ?rs = []" by (simp only: es flip: length_0_conv)
    then show ?thesis by (auto simp: filter_empty_conv)
  qed
  with st s show ?thesis by (simp add: broadcastMessage_def)
qed



subsection \<open>Two connections with one identifier\<close>

lemma connect_peer_simps:
  "map_of (pn_peers (connect_peer a t p)) i = (if i = a then Some (length (pn_store p)) else map_of (pn_peers p) i)"
  "pn_store (connect_peer a t p) = pn_store p @ [new_peer a t]"
  by (simp_all add: connect_peer_def addPeer_def new_peer_def AList.update_conv')

text \<open>
  When a second connection with a peer's identifier is made and the first one ends, the table loses
  the second: it is marked as disconnected although its connection is open and its goroutine goes on
  reading, and no broadcast reaches it, while the first still counts as connected.
\<close>

theorem duplicate_connection_lost:
  fixes a :: string and t t' :: gotime
  assumes "p2p_reachable config p"
  defines "first \<equiv> length (pn_store p)"
  defines "p3 \<equiv> end_connection True first (connect_peer a t' (connect_peer a t p))"
  shows "map_of (pn_peers p3) a = None \<and> pr_Connected (pn_store p3 ! first) \<and> pr_closed (pn_store p3 ! first) \<and>
    \<not> pr_Connected (pn_store p3 ! Suc first) \<and> \<not> pr_closed (pn_store p3 ! Suc first) \<and>
    pr_sent (pn_store (fst (broadcastMessage fails m p3)) ! Suc first) = []"
proof -
  let ?p2 = "connect_peer a t' (connect_peer a t p)"
  have tab: "map_of (pn_peers ?p2) a = Some (Suc first)"
    and store: "pn_store ?p2 = pn_store p @ [new_peer a t, new_peer a t']"
    by (simp_all add: connect_peer_simps first_def)
  have id: "pr_ID (pn_store ?p2 ! first) = a" by (simp add: store first_def nth_append new_peer_def)
  have p3: "p3 = upd_peer first (\<lambda>pr. pr\<lparr>pr_closed := True\<rparr>) (removePeer a ?p2)" by (simp add: p3_def end_connection_def Let_def id)
  have rm: "removePeer a ?p2 = (upd_peer (Suc first) (\<lambda>pr. pr\<lparr>pr_Connected := False\<rparr>) ?p2)
      \<lparr>pn_peers := AList.delete a (pn_peers ?p2)\<rparr>" by (simp add: removePeer_def tab)
  have st: "pn_store p3 = pn_store p @ [(new_peer a t)\<lparr>pr_closed := True\<rparr>, (new_peer a t')\<lparr>pr_Connected := False\<rparr>]"
    by (simp add: p3 rm upd_peer_def store first_def list_update_append nth_append)
  have reach: "p2p_reachable config p3"
    unfolding p3_def by (intro p2p_reachable.stepped [OF _ p2p_step.active [OF p2p_activity.ends]]
      p2p_reachable.stepped [OF _ p2p_step.active [OF p2p_activity.connect]] assms(1))
  have "Suc first \<notin> snd ` set (pn_peers p3)"
  proof
    assume "Suc first \<in> snd ` set (pn_peers p3)"
    then obtain i where i: "(i, Suc first) \<in> set (pn_peers p3)" by auto
    then have "i = a"
      using reachable_p2p_inv [OF reach] by (auto simp: p2p_inv_def st first_def nth_append new_peer_def)
    moreover have "a \<notin> fst ` set (pn_peers p3)" by (simp add: p3 rm AList.delete_eq) force
    ultimately show False using i by force
  qed
  moreover have "Suc first < length (pn_store p3)" by (simp add: st first_def)
  ultimately have "pr_sent (pn_store (fst (broadcastMessage fails m p3)) ! Suc first) = pr_sent (pn_store p3 ! Suc first)"
    using broadcast_store [OF reach, of "Suc first" fails m] by simp
  moreover have "map_of (pn_peers p3) a = None" by (simp add: p3 rm AList.delete_conv')
  ultimately show ?thesis by (simp add: st first_def nth_append new_peer_def)
qed

theorem duplicate_connection_lost_witness:
  "pn_peers (end_connection True 0 (connect_peer ''seed1:17335'' 9 (connect_peer ''seed1:17335'' 5 (NewP2P sample_config)))) = [] \<and>
   pr_Connected (pn_store (end_connection True 0 (connect_peer ''seed1:17335'' 9
     (connect_peer ''seed1:17335'' 5 (NewP2P sample_config)))) ! 0)"
proof -
  have "pn_peers (end_connection True 0 (connect_peer ''seed1:17335'' 9 (connect_peer ''seed1:17335'' 5 (NewP2P sample_config)))) = []"
    by (simp add: end_connection_def connect_peer_def addPeer_def new_peer_def NewP2P_def removePeer_def upd_peer_def)
  then show ?thesis
    using duplicate_connection_lost [OF p2p_reachable.created [of sample_config], of "''seed1:17335''" 9 5]
    by (simp add: NewP2P_def)
qed

subsection \<open>Seed nodes\<close>

text \<open>
  A tick of the discovery dials every seed node that is not connected yet, as soon as one more peer is
  allowed: the count is not raised in the loop, so that the limit on peers is passed.
\<close>

theorem connectToSeedNodes_all:
  "connectToSeedNodes p =
     (if pc_MaxPeers (pn_config p) \<le> GetPeerCount p then []
      else filter (\<lambda>s. s \<notin> pr_Address ` set (GetPeers p)) (pc_SeedNodes (pn_config p)))"
proof -
  have "seeds_to_dial n k p ss = filter (\<lambda>s. s \<notin> pr_Address ` set (GetPeers p)) ss" if "n < k" for n k ss
    using that by (induction ss) (auto simp: list_ex_iff)
  then show ?thesis by (simp add: connectToSeedNodes_def Let_def)
qed

lemma seeds_pass_limit: "length (connectToSeedNodes (NewP2P sample_config)) = 2 \<and> pc_MaxPeers sample_config = 1"
  by (simp add: connectToSeedNodes_all sample_config_def NewP2P_def GetPeerCount_def GetPeers_def)

subsection \<open>A network started again\<close>

lemma flags_send_all [simp]:
  "pn_running (fst (send_all fails m rs p)) = pn_running p" "pn_stopped (fst (send_all fails m rs p)) = pn_stopped p"
  "pn_listening (fst (send_all fails m rs p)) = pn_listening p"
  by (induction rs arbitrary: p) (simp_all add: sendMessage_def split_beta)

lemma flags_cleanup [simp]:
  "pn_running (cleanupInactivePeers now p) = pn_running p" "pn_stopped (cleanupInactivePeers now p) = pn_stopped p"
  "pn_listening (cleanupInactivePeers now p) = pn_listening p"
proof -
  have "pn_running (fold (drop_inactive now) es p) = pn_running p \<and> pn_stopped (fold (drop_inactive now) es p) = pn_stopped p \<and>
      pn_listening (fold (drop_inactive now) es p) = pn_listening p" for es
    by (induction es arbitrary: p) (simp_all add: drop_inactive_def)
  then show "pn_running (cleanupInactivePeers now p) = pn_running p" "pn_stopped (cleanupInactivePeers now p) = pn_stopped p"
    "pn_listening (cleanupInactivePeers now p) = pn_listening p" by (simp_all add: cleanupInactivePeers_def)
qed

lemma activity_flags:
  "p2p_activity p p' \<Longrightarrow> pn_running p' = pn_running p \<and> pn_stopped p' = pn_stopped p \<and> pn_listening p' = pn_listening p"
  by (elim p2p_activityE)
    (simp_all add: connect_peer_def addPeer_def acceptConnections_def connectToPeer_def read_line_def handleMessage_def
      handleVersionMessage_def handleBlockMessage_def handleTransactionMessage_def handleGetBlocksMessage_def
      handleBlocksMessage_def handlePingMessage_def handlePongMessage_def sendMessage_def end_connection_def removePeer_def
      broadcastMessage_def maintainPeers_def split_beta Let_def
      split: accepted.split option.split line.split sum.split woken.split)

lemma activities_flags:
  "p2p_activity\<^sup>*\<^sup>* p p' \<Longrightarrow> pn_running p' = pn_running p \<and> pn_stopped p' = pn_stopped p \<and> pn_listening p' = pn_listening p"
  by (induction rule: rtranclp_induct) (auto dest: activity_flags)

text \<open>
  C35. A network that is stopped and started again reports that it runs and listens, but its channel
  is still closed: the loop that accepts connections ends at its first round, a connection that is
  dialled is dropped at its first read, and stopping the network again panics with the listener open.
\<close>

theorem p2p_restart_deaf:
  assumes "pn_running p" and "p2p_Stop p = (p1, Inr ())" and "p2p_Start None p1 = (p2, Inr ())"
    and "p2p_activity\<^sup>*\<^sup>* p2 p3"
  shows "p2p_IsRunning p3 \<and> pn_listening p3 \<and> acceptConnections now a p3 = (p3, False) \<and>
    read_line fails db dt now seen r l p3 = (p3, False) \<and>
    p2p_Stop p3 = (p3\<lparr>pn_running := False\<rparr>, Inl CloseClosedChannel)"
proof -
  have closed: "pn_stopped (fold (\<lambda>e. upd_peer (snd e) f) es q) = pn_stopped q"
    "pn_running (fold (\<lambda>e. upd_peer (snd e) f) es q) = pn_running q" for es f q
    by (induction es arbitrary: q) simp_all
  have "pn_stopped p1" "\<not> pn_running p1"
    using assms(1,2) by (auto simp: p2p_Stop_def Let_def closed split: if_splits)
  then have "pn_running p2 \<and> pn_stopped p2 \<and> pn_listening p2" using assms(3) by (auto simp: p2p_Start_def)
  with activities_flags [OF assms(4)] show ?thesis
    by (simp add: p2p_IsRunning_def acceptConnections_def read_line_def p2p_Stop_def)
qed

theorem p2p_restart_deaf_witness:
  "p2p_Stop (fst (p2p_Start None (fst (p2p_Stop (fst (p2p_Start None (NewP2P sample_config))))))) =
     ((NewP2P sample_config)\<lparr>pn_stopped := True, pn_listening := True\<rparr>, Inl CloseClosedChannel)"
proof -
  let ?q = "(NewP2P sample_config)\<lparr>pn_stopped := True, pn_listening := True, pn_running := True\<rparr>"
  have "p2p_Stop ?q = (?q\<lparr>pn_running := False\<rparr>, Inl CloseClosedChannel)"
    using p2p_restart_deaf [of "fst (p2p_Start None (NewP2P sample_config))" "(NewP2P sample_config)\<lparr>pn_stopped := True\<rparr>" ?q ?q]
    by (simp add: p2p_Start_def p2p_Stop_def NewP2P_def)
  then show ?thesis by (simp add: p2p_Start_def p2p_Stop_def NewP2P_def)
qed

end
