(* ===== verification/P2PLocks.thy ===== *)
theory P2PLocks
  imports P2P Locks
begin

text \<open>
  The locks of \<^verbatim>\<open>network/p2p.go\<close>: the one of the network (\<^verbatim>\<open>mu\<close>), the one of its table
  (\<^verbatim>\<open>peerMutex\<close>) and the one of each peer. Each call is the sequence of its lock operations.
\<close>

datatype p2p_lock = NetworkMu | PeerMutex | PeerMu nat

fun p2p_rank :: "p2p_lock \<Rightarrow> nat" where
  "p2p_rank NetworkMu = 0"
| "p2p_rank PeerMutex = 1"
| "p2p_rank (PeerMu r) = 2"

text \<open>
  \<open>StopCall True\<close> stops a running network that was not stopped before. \<open>SeedsCall n\<close> is a tick of the
  discovery that looks at \<open>n\<close> seed nodes, \<open>PeerCall r\<close> an access to the fields of a peer (the version
  message, a pong, and a line read from it), and \<open>InfoCall rs\<close> a call of \<^verbatim>\<open>GetNetworkInfo\<close> over the
  peers \<open>rs\<close>.
\<close>

datatype p2p_call = StartCall | StopCall bool | IsRunningCall | GetPeersCall | GetPeerCountCall | BroadcastCall
  | AddPeerCall | RemovePeerCall | SeedsCall nat | CleanupCall | PeerCall nat | InfoCall "nat list"

definition IsRunning_locks :: "p2p_lock lock_op list" where
  "IsRunning_locks = reading NetworkMu []"

definition Stop_locks :: "bool \<Rightarrow> p2p_lock lock_op list" where
  "Stop_locks closes = writing NetworkMu (if closes then writing PeerMutex [] else [])"

definition GetNetworkInfo_locks :: "nat list \<Rightarrow> p2p_lock lock_op list" where
  "GetNetworkInfo_locks rs =
     reading PeerMutex (concat (map (\<lambda>r. reading (PeerMu r) []) rs) @ IsRunning_locks)"

definition connectToSeedNodes_locks :: "nat \<Rightarrow> p2p_lock lock_op list" where
  "connectToSeedNodes_locks n = reading PeerMutex [] @ concat (replicate n (reading PeerMutex []))"

fun p2p_locks :: "p2p_call \<Rightarrow> p2p_lock lock_op list" where
  "p2p_locks StartCall = writing NetworkMu []"
| "p2p_locks (StopCall closes) = Stop_locks closes"
| "p2p_locks IsRunningCall = IsRunning_locks"
| "p2p_locks GetPeersCall = reading PeerMutex []"
| "p2p_locks GetPeerCountCall = reading PeerMutex []"
| "p2p_locks BroadcastCall = reading PeerMutex []"
| "p2p_locks AddPeerCall = writing PeerMutex []"
| "p2p_locks RemovePeerCall = writing PeerMutex []"
| "p2p_locks (SeedsCall n) = connectToSeedNodes_locks n"
| "p2p_locks CleanupCall = writing PeerMutex []"
| "p2p_locks (PeerCall r) = writing (PeerMu r) []"
| "p2p_locks (InfoCall rs) = GetNetworkInfo_locks rs"

fun reads_info :: "p2p_call \<Rightarrow> bool" where
  "reads_info (InfoCall rs) = True"
| "reads_info c = False"

interpretation p2p_calls: lock_discipline p2p_rank p2p_locks "\<lambda>c. \<not> reads_info c"
proof (unfold_locales)
  fix c assume "\<not> reads_info c"
  then show "ordered p2p_rank [] (p2p_locks c)"
    by (cases c) (auto simp: ordered_single Stop_locks_def IsRunning_locks_def connectToSeedNodes_locks_def
      intro!: ordered_append ordered_concat ordered_around)
qed



end
