(* ===== verification/MinerClient.thy ===== *)
theory MinerClient
  imports TemplateSubmit Bech32
begin

text \<open>
  \<^verbatim>\<open>cmd/kalon-miner-v2/main.go\<close>: the miner. It fetches a template over JSON-RPC, tries nonces, and
  submits the block it finds. The outcome of an HTTP attempt and the clock are arguments; the loop
  over nonces may run forever and is a \<^theory_text>\<open>partial_function\<close>.
\<close>

subsection \<open>Calls\<close>

record client_request =
  cq_Method :: string
  cq_Params :: rpc_value
  cq_ID :: int

record client_response =
  cr_Result :: gojson
  cr_Error :: "rpc_error option"
  cr_ID :: int

datatype attempt =
  PostFailed string | ReadBodyFailed string | EmptyBody | NotJson char | DecodeFailed string | Answer client_response

text \<open>The last of the attempts that failed.\<close>

primrec try_attempts :: "attempt option \<Rightarrow> attempt list \<Rightarrow> attempt option + client_response" where
  "try_attempts lastErr [] = Inl lastErr"
| "try_attempts lastErr (a # as) = (case a of Answer r \<Rightarrow> Inr r | _ \<Rightarrow> try_attempts (Some a) as)"

definition callRPC :: "(nat \<Rightarrow> attempt) \<Rightarrow> attempt option + client_response" where
  "callRPC post = try_attempts None (map post [0..<3])"

subsection \<open>The wallet address\<close>

definition parseAddress :: "string \<Rightarrow> address option" where
  "parseAddress s =
     (let fallback = addr_of (take 20 (sha256 (str_bytes s)));
          hex = (if length s = 40 then (case hex20 s of Some b \<Rightarrow> addr_of b | None \<Rightarrow> fallback) else fallback)
      in if HasPrefix s ''kalon1'' then
           (case DecodeBech32 s of
              None \<Rightarrow> None
            | Some (Inr b) \<Rightarrow> Some (if length b = 20 then addr_of b else hex)
            | Some (Inl _) \<Rightarrow> Some hex)
         else Some hex)"

subsection \<open>Templates\<close>

definition template_request :: "string \<Rightarrow> client_request" where
  "template_request walletAddress =
     \<lparr>cq_Method = ''createBlockTemplate'', cq_Params = VObj [(''miner'', VStr walletAddress)], cq_ID = 2\<rparr>"

definition client_output :: "platform \<Rightarrow> (string \<times> gojson) list \<Rightarrow> tx_output" where
  "client_output pl m =
     \<lparr>out_Address =
        (case as_str (map_of m ''address'') of
           Some s \<Rightarrow> (case hex20 s of Some b \<Rightarrow> addr_of b | None \<Rightarrow> 0)
         | None \<Rightarrow> 0),
      out_Amount = num_field pl m ''amount''\<rparr>"

definition client_tx :: "platform \<Rightarrow> (string \<Rightarrow> gotime option) \<Rightarrow> (string \<times> gojson) list \<Rightarrow> transaction" where
  "client_tx pl parse_time m =
     \<lparr>tx_From = addr_field m ''from'', tx_To = addr_field m ''to'', tx_Amount = num_field pl m ''amount'',
      tx_Nonce = num_field pl m ''nonce'', tx_Fee = num_field pl m ''fee'',
      tx_GasUsed = num_field pl m ''gasUsed'', tx_GasPrice = num_field pl m ''gasPrice'',
      tx_Data = [], tx_Signature = [], tx_Hash = hash_field m ''hash'',
      tx_Inputs = map (parse_input pl) (objects (as_arr (map_of m ''inputs''))),
      tx_Outputs = map (client_output pl) (objects (as_arr (map_of m ''outputs''))),
      tx_Timestamp =
        (case as_str (map_of m ''timestamp'') of
           Some s \<Rightarrow> (case parse_time s of Some t \<Rightarrow> t | None \<Rightarrow> zero_time)
         | None \<Rightarrow> zero_time)\<rparr>"

definition client_CreateNewBlock ::
  "platform \<Rightarrow> (string \<Rightarrow> gotime option) \<Rightarrow> address \<Rightarrow> attempt option + client_response \<Rightarrow> block option" where
  "client_CreateNewBlock pl parse_time miner answer =
     (case answer of
        Inl _ \<Rightarrow> None
      | Inr resp \<Rightarrow>
          if cr_Error resp \<noteq> None then None
          else
            (case as_obj (Some (cr_Result resp)) of
               None \<Rightarrow> None
             | Some result \<Rightarrow>
                 (let number = num_field pl result ''number'';
                      difficulty = num_field pl result ''difficulty'';
                      parentHashStr = (case as_str (map_of result ''parentHash'') of Some s \<Rightarrow> s | None \<Rightarrow> []);
                      timestamp = (case as_num (map_of result ''timestamp'') of Some x \<Rightarrow> int_of_f64 pl x | None \<Rightarrow> 0)
                  in case hex_decode parentHashStr of
                       None \<Rightarrow> None
                     | Some parentHashBytes \<Rightarrow>
                         (let blockTxs = map (client_tx pl parse_time) (objects (as_arr (map_of result ''transactions'')));
                              b = \<lparr>blk_Header = \<lparr>bh_ParentHash = hash_of parentHashBytes, bh_Number = number,
                                      bh_Timestamp = timestamp * 1000000000, bh_Difficulty = difficulty,
                                      bh_Miner = miner, bh_Nonce = 0, bh_MerkleRoot = 0,
                                      bh_TxCount = of_nat (length blockTxs), bh_NetworkFee = 0, bh_TreasuryFee = 0\<rparr>,
                                    blk_Txs = blockTxs, blk_Hash = 0\<rparr>
                          in Some (b\<lparr>blk_Hash := Block_CalculateHash b\<rparr>)))))"

subsection \<open>Submitting\<close>

text \<open>A \<^verbatim>\<open>[]byte\<close> is Base64 text, and null where it is nil, as an empty one here always is.\<close>

definition b64_char :: "nat \<Rightarrow> char" where
  "b64_char n = ''ABCDEFGHIJKLMNOPQRSTUVWXYZabcdefghijklmnopqrstuvwxyz0123456789+/'' ! n"

fun base64 :: "bytes \<Rightarrow> string" where
  "base64 [] = []"
| "base64 [a] = (let n = unat a * 16 in [b64_char (n div 64), b64_char (n mod 64), CHR ''='', CHR ''=''])"
| "base64 [a, b] =
     (let n = unat a * 1024 + unat b * 4
      in [b64_char (n div 4096), b64_char (n div 64 mod 64), b64_char (n mod 64), CHR ''=''])"
| "base64 (a # b # c # bs) =
     (let n = unat a * 65536 + unat b * 256 + unat c
      in [b64_char (n div 262144), b64_char (n div 4096 mod 64), b64_char (n div 64 mod 64), b64_char (n mod 64)]
         @ base64 bs)"

definition slice_json :: "bytes \<Rightarrow> rpc_value" where
  "slice_json bs = (if bs = [] then VNil else VStr (base64 bs))"

text \<open>An array \<^verbatim>\<open>[32]byte\<close> is a JSON array of 32 numbers.\<close>

definition array_json :: "bytes \<Rightarrow> rpc_value" where
  "array_json bs = VArr (map (\<lambda>b. VI64 (uint b)) bs)"

definition struct_input_json :: "tx_input \<Rightarrow> rpc_value" where
  "struct_input_json inp =
     VObj [(''previousTxHash'', array_json (hash_bytes (in_PreviousTxHash inp))), (''index'', VU32 (in_Index inp)),
       (''signature'', slice_json (in_Signature inp))]"

definition list_json :: "rpc_value list \<Rightarrow> rpc_value" where
  "list_json vs = (if vs = [] then VNil else VArr vs)"

definition submit_tx_json :: "(gotime \<Rightarrow> string) \<Rightarrow> transaction \<Rightarrow> rpc_value" where
  "submit_tx_json format_time tx =
     VObj [(''from'', VStr (Address_String (tx_From tx))), (''to'', VStr (Address_String (tx_To tx))),
       (''amount'', VF64 (f64_of_u64 (tx_Amount tx))), (''nonce'', VF64 (f64_of_u64 (tx_Nonce tx))),
       (''fee'', VF64 (f64_of_u64 (tx_Fee tx))), (''gasUsed'', VF64 (f64_of_u64 (tx_GasUsed tx))),
       (''gasPrice'', VF64 (f64_of_u64 (tx_GasPrice tx))), (''data'', slice_json (tx_Data tx)),
       (''signature'', slice_json (tx_Signature tx)), (''hash'', VStr (hex_encode (hash_bytes (tx_Hash tx)))),
       (''inputs'', list_json (map struct_input_json (tx_Inputs tx))),
       (''outputs'', list_json (map (\<lambda>out. VObj [(''address'', VStr (Address_String (out_Address out))),
          (''amount'', VF64 (f64_of_u64 (out_Amount out)))]) (tx_Outputs tx))),
       (''timestamp'', VStr (format_time (tx_Timestamp tx)))]"

definition submit_json :: "(gotime \<Rightarrow> string) \<Rightarrow> block \<Rightarrow> rpc_value" where
  "submit_json format_time b =
     VObj [(''number'', VF64 (f64_of_u64 (bh_Number (blk_Header b)))),
       (''difficulty'', VF64 (f64_of_u64 (bh_Difficulty (blk_Header b)))),
       (''nonce'', VF64 (f64_of_u64 (bh_Nonce (blk_Header b)))),
       (''hash'', VStr (hex_encode (hash_bytes (blk_Hash b)))),
       (''parentHash'', VStr (hex_encode (hash_bytes (bh_ParentHash (blk_Header b))))),
       (''timestamp'', VF64 (f64_of_int (bh_Timestamp (blk_Header b) div 1000000000))),
       (''transactions'', list_json (map (submit_tx_json format_time) (blk_Txs b)))]"

definition submit_request :: "(gotime \<Rightarrow> string) \<Rightarrow> block \<Rightarrow> client_request" where
  "submit_request format_time b =
     \<lparr>cq_Method = ''submitBlock'', cq_Params = VObj [(''block'', submit_json format_time b)], cq_ID = 3\<rparr>"

datatype submit_error = SubmitFailed "attempt option" | SubmitRejected string

definition client_AddBlock :: "attempt option + client_response \<Rightarrow> submit_error + unit" where
  "client_AddBlock answer =
     (case answer of
        Inl e \<Rightarrow> Inl (SubmitFailed e)
      | Inr resp \<Rightarrow> (case cr_Error resp of Some e \<Rightarrow> Inl (SubmitRejected (re_Message e)) | None \<Rightarrow> Inr ()))"

subsection \<open>Queries\<close>

definition getCurrentHeight :: "platform \<Rightarrow> attempt option + client_response \<Rightarrow> u64" where
  "getCurrentHeight pl answer =
     (case answer of
        Inl _ \<Rightarrow> 0
      | Inr resp \<Rightarrow>
          if cr_Error resp \<noteq> None then 0
          else (case as_num (Some (cr_Result resp)) of Some x \<Rightarrow> u64_of_f64 pl x | None \<Rightarrow> 0))"

definition getBestBlock :: "attempt option + client_response \<Rightarrow> block option" where
  "getBestBlock answer =
     (case answer of
        Inl _ \<Rightarrow> None
      | Inr resp \<Rightarrow>
          if cr_Error resp \<noteq> None then None
          else
            (case as_obj (Some (cr_Result resp)) of
               None \<Rightarrow> None
             | Some result \<Rightarrow>
                 (case as_str (map_of result ''hash'') of
                    None \<Rightarrow> None
                  | Some hashStr \<Rightarrow>
                      (case hash32 hashStr of None \<Rightarrow> None | Some b \<Rightarrow> Some (zero_block\<lparr>blk_Hash := hash_of b\<rparr>)))))"

subsection \<open>Mining\<close>

record miner_stats =
  mt_StartTime :: gotime
  mt_TotalHashes :: u64
  mt_BlocksFound :: u64
  mt_CurrentRate :: f64
  mt_LastBlockTime :: gotime

definition updateStats :: "u64 \<Rightarrow> f64 \<Rightarrow> miner_stats \<Rightarrow> miner_stats" where
  "updateStats hashes seconds st =
     st\<lparr>mt_TotalHashes := mt_TotalHashes st + hashes, mt_CurrentRate := f64_div (f64_of_u64 hashes) seconds\<rparr>"

definition with_nonce :: "u64 \<Rightarrow> block \<Rightarrow> block" where
  "with_nonce nonce b =
     (let b = b\<lparr>blk_Header := (blk_Header b)\<lparr>bh_Nonce := nonce\<rparr>\<rparr> in b\<lparr>blk_Hash := Block_CalculateHash b\<rparr>)"

definition hash_head :: "block \<Rightarrow> u64" where
  "hash_head b = be_get (take 8 (hash_bytes (blk_Hash b)))"

definition mining_target :: "u64 \<Rightarrow> u64" where
  "mining_target difficulty = push_bit (unat (64 - difficulty)) 1"

text \<open>
  The loop over nonces: the block found, or no block where the stop channel was closed.
  \<open>stopped i\<close> and \<open>seconds i\<close> are the channel and the clock at the \<open>i\<close>th round; the nonce
  starts again at zero after the largest one.
\<close>

partial_function (option) mine_nonces ::
  "(nat \<Rightarrow> bool) \<Rightarrow> (nat \<Rightarrow> f64) \<Rightarrow> u64 \<Rightarrow> block \<Rightarrow> u64 \<Rightarrow> nat \<Rightarrow> miner_stats \<Rightarrow> (miner_stats \<times> block option) option" where
  "mine_nonces stopped seconds target b nonce i st =
     (if stopped i then Some (st, None)
      else if hash_head (with_nonce nonce b) < target then Some (st, Some (with_nonce nonce b))
      else mine_nonces stopped seconds target b (nonce + 1) (Suc i)
             (if (nonce + 1) mod 1000000 = 0 then updateStats 1000000 (seconds i) st else st))"

definition found_stats :: "gotime \<Rightarrow> miner_stats \<Rightarrow> miner_stats" where
  "found_stats now st = st\<lparr>mt_BlocksFound := mt_BlocksFound st + 1, mt_LastBlockTime := now\<rparr>"

datatype round_result = NoTemplate | OutdatedHeight u64 u64 | OutdatedParent hash hash | Stopped | Submitted block "submit_error + unit"

text \<open>
  One round of the worker against a node: \<open>call\<close> makes a request in a state of the world and
  returns the state after it.
\<close>

definition mineBlock ::
  "platform \<Rightarrow> (string \<Rightarrow> gotime option) \<Rightarrow> (gotime \<Rightarrow> string) \<Rightarrow> (nat \<Rightarrow> bool) \<Rightarrow> (nat \<Rightarrow> f64) \<Rightarrow> gotime \<Rightarrow>
   (client_request \<Rightarrow> 'w \<Rightarrow> 'w \<times> (attempt option + client_response)) \<Rightarrow> string \<Rightarrow> miner_stats \<Rightarrow> 'w \<Rightarrow>
   ('w \<times> miner_stats \<times> round_result) option" where
  "mineBlock pl parse_time format_time stopped seconds now call wallet st w =
     (case parseAddress wallet of
        None \<Rightarrow> None
      | Some miner \<Rightarrow>
          (let (w1, answer) = call (template_request wallet) w in
           case client_CreateNewBlock pl parse_time miner answer of
             None \<Rightarrow> Some (w1, st, NoTemplate)
           | Some b \<Rightarrow>
               (let (w2, height) = call \<lparr>cq_Method = ''getHeight'', cq_Params = VObj [], cq_ID = 999\<rparr> w1;
                    currentHeight = getCurrentHeight pl height
                in if bh_Number (blk_Header b) \<le> currentHeight
                   then Some (w2, st, OutdatedHeight currentHeight (bh_Number (blk_Header b)))
                   else
                     (let (w3, best) = call \<lparr>cq_Method = ''getBestBlock'', cq_Params = VObj [], cq_ID = 998\<rparr> w2;
                          mined = (case mine_nonces stopped seconds (mining_target (bh_Difficulty (blk_Header b))) b 0 0 st of
                             None \<Rightarrow> None
                           | Some (st', None) \<Rightarrow> Some (w3, st', Stopped)
                           | Some (st', Some found) \<Rightarrow>
                               (let (w4, answer) = call (submit_request format_time found) w3
                                in Some (w4, found_stats now st', Submitted found (client_AddBlock answer))))
                      in case getBestBlock best of
                           Some bestBlock \<Rightarrow>
                             if blk_Hash bestBlock \<noteq> bh_ParentHash (blk_Header b)
                             then Some (w3, st, OutdatedParent (blk_Hash bestBlock) (bh_ParentHash (blk_Header b)))
                             else mined
                         | None \<Rightarrow> mined))))"

subsection \<open>Starting and stopping\<close>

text \<open>The worker goroutines that run, of which there is one, and the stop channel, which no start makes anew.\<close>

record miner_v2 =
  mv_running :: bool
  mv_stopClosed :: bool
  mv_workers :: nat
  mv_stats :: miner_stats

definition NewMinerV2 :: "gotime \<Rightarrow> miner_v2" where
  "NewMinerV2 now = \<lparr>mv_running = False, mv_stopClosed = False, mv_workers = 0,
     mv_stats = \<lparr>mt_StartTime = now, mt_TotalHashes = 0, mt_BlocksFound = 0, mt_CurrentRate = f64_of_nat 0,
       mt_LastBlockTime = zero_time\<rparr>\<rparr>"

definition mv_Start :: "miner_v2 \<Rightarrow> string + miner_v2" where
  "mv_Start m =
     (if mv_running m then Inl ''miner is already running''
      else Inr (m\<lparr>mv_running := True, mv_workers := mv_workers m + 1\<rparr>))"

datatype stop_error = NotRunning | CloseOfClosedChannel

text \<open>The stop waits until the workers have seen the closed channel and returned.\<close>

definition mv_Stop :: "miner_v2 \<Rightarrow> miner_v2 \<times> (stop_error + unit)" where
  "mv_Stop m =
     (if \<not> mv_running m then (m, Inl NotRunning)
      else
        (let m = m\<lparr>mv_running := False\<rparr> in
         if mv_stopClosed m then (m, Inl CloseOfClosedChannel)
         else (m\<lparr>mv_stopClosed := True, mv_workers := 0\<rparr>, Inr ())))"

text \<open>A turn of \<^verbatim>\<open>miningWorker\<close>: \<open>None\<close> if the round never ends, and a flag for going on.\<close>

definition worker_round :: "(miner_stats \<Rightarrow> 'w \<Rightarrow> ('w \<times> miner_stats \<times> round_result) option) \<Rightarrow> miner_v2 \<times> 'w \<Rightarrow>
    ((miner_v2 \<times> 'w) \<times> bool) option" where
  "worker_round mine s =
     (case s of (m, w) \<Rightarrow>
        if mv_stopClosed m then Some ((m\<lparr>mv_workers := mv_workers m - 1\<rparr>, w), False)
        else
          (case mine (mv_stats m) w of
             None \<Rightarrow> None
           | Some (w', st, _) \<Rightarrow> Some ((m\<lparr>mv_stats := st\<rparr>, w'), True)))"

text \<open>A miner that was stopped cannot be used again: its worker ends at once, and the next stop panics.\<close>

lemma miner_cannot_restart:
  assumes "mv_Start m = Inr m1" and "mv_Stop m1 = (m2, Inr ())" and "mv_Start m2 = Inr m3"
  shows "snd (mv_Stop m3) = Inl CloseOfClosedChannel" and "\<exists>m'. worker_round mine (m3, w) = Some ((m', w), False)"
  using assms by (auto simp: mv_Start_def mv_Stop_def worker_round_def Let_def split: if_splits)

subsection \<open>Retries\<close>

definition answers :: "attempt list \<Rightarrow> client_response list" where
  "answers = List.map_filter (\<lambda>a. case a of Answer r \<Rightarrow> Some r | _ \<Rightarrow> None)"

lemma try_attempts_answer: "try_attempts e as = Inr r \<longleftrightarrow> (\<exists>rs. answers as = r # rs)"
  by (induction as arbitrary: e) (auto simp: answers_def map_filter_simps split: attempt.splits)

subsection \<open>The search for a nonce\<close>

lemma hash_head_less_iff:
  "hash_head b < mining_target (bh_Difficulty (blk_Header b)) \<longleftrightarrow>
     (if bh_Difficulty (blk_Header b) \<le> 20 then hash_head b < mining_target (bh_Difficulty (blk_Header b))
      else ValidateProofOfWorkV2 b)"
  by (simp add: ValidateProofOfWorkV2_def hash_head_def mining_target_def)

text \<open>A shift by 64 bits or more leaves nothing, and a difference below zero wraps to a large shift.\<close>

lemma mining_target_zero: "d = 0 \<or> 64 < d \<Longrightarrow> mining_target d = 0"
proof -
  assume "d = 0 \<or> 64 < d"
  moreover have "unat d < 2 ^ 64" using unsigned_less [of d] by simp
  ultimately have "64 \<le> unat (64 - d)" by (auto simp: unat_sub_if' word_less_nat_alt)
  then show ?thesis
    unfolding mining_target_def by (intro bit_word_eqI) (simp add: bit_simps)
qed

lemma with_nonce_simps [simp]:
  "bh_Difficulty (blk_Header (with_nonce n b)) = bh_Difficulty (blk_Header b)"
  "bh_Number (blk_Header (with_nonce n b)) = bh_Number (blk_Header b)"
  "bh_ParentHash (blk_Header (with_nonce n b)) = bh_ParentHash (blk_Header b)"
  "bh_Timestamp (blk_Header (with_nonce n b)) = bh_Timestamp (blk_Header b)"
  "bh_Nonce (blk_Header (with_nonce n b)) = n" "blk_Txs (with_nonce n b) = blk_Txs b"
  by (simp_all add: with_nonce_def Let_def)

lemma with_nonce_hash: "blk_Hash (with_nonce n b) = Block_CalculateHash (with_nonce n b)"
  by (simp add: with_nonce_def Let_def Block_CalculateHash_def)

lemma with_nonce_hash_irrelevant: "with_nonce n (b\<lparr>blk_Hash := h\<rparr>) = with_nonce n b"
  by (simp add: with_nonce_def Block_CalculateHash_def)

lemma mine_nonces_sound:
  "mine_nonces stopped seconds target b nonce i st = Some y \<Longrightarrow>
     (case snd y of None \<Rightarrow> \<exists>j. stopped j | Some found \<Rightarrow> \<exists>n. found = with_nonce n b \<and> hash_head found < target)"
  by (erule mine_nonces.raw_induct [rotated]) (auto split: if_split_asm)

text \<open>The first nonce that meets the target, or the closing of the channel, whichever comes first.\<close>

lemma mine_nonces_finds:
  "\<forall>j<k. \<not> stopped (i + j) \<and> \<not> hash_head (with_nonce (nonce + of_nat j) b) < target \<Longrightarrow> \<not> stopped (i + k) \<Longrightarrow>
     hash_head (with_nonce (nonce + of_nat k) b) < target \<Longrightarrow>
     \<exists>st'. mine_nonces stopped seconds target b nonce i st = Some (st', Some (with_nonce (nonce + of_nat k) b))"
proof (induction k arbitrary: nonce i st)
  case 0
  then show ?case by (simp add: mine_nonces.simps)
next
  case (Suc k)
  have "\<forall>j<k. \<not> stopped (Suc i + j) \<and> \<not> hash_head (with_nonce (nonce + 1 + of_nat j) b) < target"
    using Suc.prems(1) by (auto simp: algebra_simps dest: spec [of _ "Suc _"])
  moreover have "\<not> stopped i" "\<not> hash_head (with_nonce nonce b) < target"
    using Suc.prems(1) by (auto dest: spec [of _ 0])
  ultimately show ?case
    using Suc.IH [of "Suc i" "nonce + 1"] Suc.prems(2,3) by (simp add: mine_nonces.simps [of _ _ _ _ nonce i] algebra_simps)
qed

lemma mine_nonces_stops:
  "\<forall>j<k. \<not> stopped (i + j) \<and> \<not> hash_head (with_nonce (nonce + of_nat j) b) < target \<Longrightarrow> stopped (i + k) \<Longrightarrow>
     \<exists>st'. mine_nonces stopped seconds target b nonce i st = Some (st', None)"
proof (induction k arbitrary: nonce i st)
  case 0
  then show ?case by (simp add: mine_nonces.simps)
next
  case (Suc k)
  have "\<forall>j<k. \<not> stopped (Suc i + j) \<and> \<not> hash_head (with_nonce (nonce + 1 + of_nat j) b) < target"
    using Suc.prems(1) by (auto simp: algebra_simps dest: spec [of _ "Suc _"])
  moreover have "\<not> stopped i" "\<not> hash_head (with_nonce nonce b) < target"
    using Suc.prems(1) by (auto dest: spec [of _ 0])
  ultimately show ?case
    using Suc.IH [of "Suc i" "nonce + 1"] Suc.prems(2) by (simp add: mine_nonces.simps [of _ _ _ _ nonce i] algebra_simps)
qed

lemma mine_nonces_returns:
  assumes "stopped k \<or> hash_head (with_nonce (of_nat k) b) < target"
  shows "\<exists>r. mine_nonces stopped seconds target b 0 0 st = Some r"
proof -
  define n where "n = (LEAST k. stopped k \<or> hash_head (with_nonce (of_nat k) b) < target)"
  have n: "stopped n \<or> hash_head (with_nonce (of_nat n) b) < target"
    unfolding n_def by (rule LeastI [of _ k]) (rule assms)
  have before: "\<forall>j<n. \<not> stopped (0 + j) \<and> \<not> hash_head (with_nonce (0 + of_nat j) b) < target"
    using not_less_Least by (fastforce simp: n_def)
  show ?thesis
  proof (cases "stopped n")
    case True
    then show ?thesis using mine_nonces_stops [OF before] by fastforce
  next
    case False
    then show ?thesis using mine_nonces_finds [OF before] n by fastforce
  qed
qed

lemma mine_nonces_return_iff:
  "(\<exists>r. mine_nonces stopped seconds target b 0 0 st = Some r) \<longleftrightarrow>
     (\<exists>i. stopped i) \<or> (\<exists>n. hash_head (with_nonce n b) < target)"
proof (intro iffI)
  show "(\<exists>i. stopped i) \<or> (\<exists>n. hash_head (with_nonce n b) < target)"
    if returns: "\<exists>r. mine_nonces stopped seconds target b 0 0 st = Some r"
  proof -
    obtain y where "mine_nonces stopped seconds target b 0 0 st = Some y" using returns by blast
    from mine_nonces_sound [OF this] show ?thesis by (auto split: option.splits)
  qed
  show "\<exists>r. mine_nonces stopped seconds target b 0 0 st = Some r"
    if "(\<exists>i. stopped i) \<or> (\<exists>n. hash_head (with_nonce n b) < target)"
  proof -
    have inv: "of_nat (unat n) = n" for n :: u64 by simp
    have "\<exists>k. stopped k \<or> hash_head (with_nonce (of_nat k) b) < target"
      using that by (elim disjE exE) (blast, metis inv)
    then show ?thesis using mine_nonces_returns by blast
  qed
qed

text \<open>
  C29. The loop of the miner over nonces returns exactly if the stop channel is closed at some round or
  some 64-bit nonce gives a header whose hash begins below the target.
\<close>

theorem miner_loop_returns_iff:
  "(\<exists>r. mine_nonces stopped seconds (mining_target (bh_Difficulty (blk_Header b))) b 0 0 st = Some r) \<longleftrightarrow>
     (\<exists>i. stopped i) \<or> (\<exists>n. hash_head (with_nonce n b) < mining_target (bh_Difficulty (blk_Header b)))"
  by (rule mine_nonces_return_iff)

end
