(* ===== verification/GoArgs.thy ===== *)
theory GoArgs
  imports GoStrings GoFloat
begin

text \<open>
  What the commands and the explorer use of Go's \<^verbatim>\<open>strconv\<close>, \<^verbatim>\<open>flag\<close> and \<^verbatim>\<open>bufio\<close>: numbers in
  text, command-line flags under \<^verbatim>\<open>flag.ExitOnError\<close>, and lines read from a stream.
\<close>

subsection \<open>Numbers in text\<close>

datatype num_error = SyntaxError | RangeError

definition digit_val :: "char \<Rightarrow> nat option" where
  "digit_val c =
     (let n = of_char c :: nat
      in if 48 \<le> n \<and> n \<le> 57 then Some (n - 48)
         else if 97 \<le> n \<and> n \<le> 122 then Some (n - 87)
         else if 65 \<le> n \<and> n \<le> 90 then Some (n - 55) else None)"

fun parse_digits :: "bool \<Rightarrow> nat \<Rightarrow> nat \<Rightarrow> string \<Rightarrow> num_error + nat" where
  "parse_digits base0 base n [] = Inr n"
| "parse_digits base0 base n (c # s) =
     (if c = CHR ''_'' \<and> base0 then parse_digits base0 base n s
      else
        (case digit_val c of
           None \<Rightarrow> Inl SyntaxError
         | Some d \<Rightarrow>
             if base \<le> d then Inl SyntaxError
             else if 2 ^ 64 \<le> n * base + d then Inl RangeError
             else parse_digits base0 base (n * base + d) s))"

text \<open>The base a literal announces, and the digits after its prefix.\<close>

definition base_prefix :: "string \<Rightarrow> nat \<times> string" where
  "base_prefix s =
     (if take 1 s \<noteq> ''0'' then (10, s)
      else if 3 \<le> length s \<and> s ! 1 \<in> {CHR ''b'', CHR ''B''} then (2, drop 2 s)
      else if 3 \<le> length s \<and> s ! 1 \<in> {CHR ''o'', CHR ''O''} then (8, drop 2 s)
      else if 3 \<le> length s \<and> s ! 1 \<in> {CHR ''x'', CHR ''X''} then (16, drop 2 s)
      else (8, drop 1 s))"

text \<open>Underscores stand between digits, the prefix counting as one.\<close>

datatype saw = SawStart | SawDigit | SawUnderscore | SawOther

fun underscores_ok :: "bool \<Rightarrow> saw \<Rightarrow> string \<Rightarrow> bool" where
  "underscores_ok hex w [] = (w \<noteq> SawUnderscore)"
| "underscores_ok hex w (c # s) =
     (if (case digit_val c of Some d \<Rightarrow> d < 10 \<or> hex \<and> d < 16 | None \<Rightarrow> False) then underscores_ok hex SawDigit s
      else if c = CHR ''_'' then w = SawDigit \<and> underscores_ok hex SawUnderscore s
      else w \<noteq> SawUnderscore \<and> underscores_ok hex SawOther s)"

definition underscoreOK :: "string \<Rightarrow> bool" where
  "underscoreOK s0 =
     (let s = (if take 1 s0 = ''-'' \<or> take 1 s0 = ''+'' then drop 1 s0 else s0)
      in if 2 \<le> length s \<and> s ! 0 = CHR ''0'' \<and>
            s ! 1 \<in> {CHR ''b'', CHR ''B'', CHR ''o'', CHR ''O'', CHR ''x'', CHR ''X''}
         then underscores_ok (s ! 1 \<in> {CHR ''x'', CHR ''X''}) SawDigit (drop 2 s)
         else underscores_ok False SawStart s)"

text \<open>\<^verbatim>\<open>strconv.ParseUint(s, 10, 64)\<close>, \<^verbatim>\<open>strconv.ParseUint(s, 0, 64)\<close> and \<^verbatim>\<open>strconv.Atoi\<close>, the
  last with the value it returns beside an error.\<close>

definition ParseUint10 :: "string \<Rightarrow> num_error + nat" where
  "ParseUint10 s = (if s = [] then Inl SyntaxError else parse_digits False 10 0 s)"

definition ParseUint0 :: "string \<Rightarrow> num_error + nat" where
  "ParseUint0 s =
     (if s = [] then Inl SyntaxError
      else
        (case base_prefix s of
           (base, t) \<Rightarrow>
             (case parse_digits True base 0 t of
                Inl e \<Rightarrow> Inl e
              | Inr n \<Rightarrow> if CHR ''_'' \<in> set t \<and> \<not> underscoreOK s then Inl SyntaxError else Inr n)))"

definition Atoi :: "string \<Rightarrow> num_error option \<times> int" where
  "Atoi s =
     (let neg = (take 1 s = ''-'');
          t = (if neg \<or> take 1 s = ''+'' then drop 1 s else s)
      in case ParseUint10 t of
           Inl SyntaxError \<Rightarrow> (Some SyntaxError, 0)
         | Inl RangeError \<Rightarrow> (Some RangeError, if neg then - (2 ^ 63) else 2 ^ 63 - 1)
         | Inr n \<Rightarrow>
             if \<not> neg \<and> 2 ^ 63 \<le> n then (Some RangeError, 2 ^ 63 - 1)
             else if neg \<and> 2 ^ 63 < n then (Some RangeError, - (2 ^ 63))
             else (None, if neg then - int n else int n))"

lemma parse_digits_bound: "n < 2 ^ 64 \<Longrightarrow> parse_digits base0 base n s = Inr m \<Longrightarrow> m < 2 ^ 64"
  by (induction s arbitrary: n) (auto simp: linorder_not_le split: if_splits option.splits)

lemma ParseUint_bound:
  "ParseUint10 s = Inr m \<Longrightarrow> m < 2 ^ 64"
  "ParseUint0 s = Inr m \<Longrightarrow> m < 2 ^ 64"
  using parse_digits_bound [of 0]
  by (fastforce simp: ParseUint10_def ParseUint0_def split: if_splits prod.splits sum.splits)+

text \<open>\<^verbatim>\<open>strconv.ParseInt(s, 0, 64)\<close>.\<close>

definition ParseInt0 :: "string \<Rightarrow> num_error + int" where
  "ParseInt0 s =
     (let neg = (take 1 s = ''-'');
          t = (if neg \<or> take 1 s = ''+'' then drop 1 s else s)
      in case ParseUint0 t of
           Inl e \<Rightarrow> Inl e
         | Inr n \<Rightarrow>
             if \<not> neg \<and> 2 ^ 63 \<le> n then Inl RangeError
             else if neg \<and> 2 ^ 63 < n then Inl RangeError
             else Inr (if neg then - int n else int n))"

subsection \<open>Durations\<close>

text \<open>\<^verbatim>\<open>time.ParseDuration\<close>: numbers with units, in nanoseconds.\<close>

definition decimal_digit :: "char \<Rightarrow> bool" where
  "decimal_digit c \<longleftrightarrow> (48 :: nat) \<le> of_char c \<and> (of_char c :: nat) \<le> 57"

definition digit_of :: "char \<Rightarrow> nat" where
  "digit_of c = of_char c - 48"

fun leadingInt :: "nat \<Rightarrow> string \<Rightarrow> (nat \<times> string) option" where
  "leadingInt x [] = Some (x, [])"
| "leadingInt x (c # s) =
     (if \<not> decimal_digit c then Some (x, c # s)
      else if 2 ^ 63 div 10 < x then None
      else if 2 ^ 63 < x * 10 + digit_of c then None
      else leadingInt (x * 10 + digit_of c) s)"

text \<open>The digits after the point, as far as they fit, and the power of ten they are parts of.\<close>

fun leadingFraction :: "bool \<Rightarrow> nat \<Rightarrow> f64 \<Rightarrow> string \<Rightarrow> nat \<times> f64 \<times> string" where
  "leadingFraction over x scale [] = (x, scale, [])"
| "leadingFraction over x scale (c # s) =
     (if \<not> decimal_digit c then (x, scale, c # s)
      else if over then leadingFraction True x scale s
      else if (2 ^ 63 - 1) div 10 < x then leadingFraction True x scale s
      else if 2 ^ 63 < x * 10 + digit_of c then leadingFraction True x scale s
      else leadingFraction False (x * 10 + digit_of c) (f64_mul scale (f64_of_nat 10)) s)"

text \<open>A micro sign and the Greek letter, in UTF-8.\<close>

definition unit_ns :: "string \<Rightarrow> nat option" where
  "unit_ns u =
     (if u = ''ns'' then Some 1
      else if u \<in> {''us'', [CHR 0xC2, CHR 0xB5, CHR ''s''], [CHR 0xCE, CHR 0xBC, CHR ''s'']} then Some 1000
      else if u = ''ms'' then Some 1000000
      else if u = ''s'' then Some 1000000000
      else if u = ''m'' then Some 60000000000
      else if u = ''h'' then Some 3600000000000 else None)"

definition fraction_ns :: "nat \<Rightarrow> nat \<Rightarrow> f64 \<Rightarrow> nat" where
  "fraction_ns f ns scale =
     (case f64_trunc (f64_mul (f64_of_nat f) (f64_div (f64_of_nat ns) scale)) of Some i \<Rightarrow> nat i | None \<Rightarrow> 0)"

definition fraction_of :: "string \<Rightarrow> nat \<times> f64 \<times> string" where
  "fraction_of s =
     (if take 1 s = ''.'' then leadingFraction False 0 (f64_of_nat 1) (drop 1 s) else (0, f64_of_nat 1, s))"

definition unit_text :: "string \<Rightarrow> string" where
  "unit_text s = takeWhile (\<lambda>c. \<not> (c = CHR ''.'' \<or> decimal_digit c)) s"

text \<open>One number with its unit, and what follows it.\<close>

definition duration_part :: "string \<Rightarrow> (nat \<times> string) option" where
  "duration_part s =
     (if s = [] \<or> \<not> (hd s = CHR ''.'' \<or> decimal_digit (hd s)) then None
      else
        (case leadingInt 0 s of
           None \<Rightarrow> None
         | Some (v, s1) \<Rightarrow>
             (let (f, scale, s2) = fraction_of s1;
                  pre = (length s \<noteq> length s1);
                  post = (take 1 s1 = ''.'' \<and> length (drop 1 s1) \<noteq> length s2);
                  u = unit_text s2
              in if \<not> pre \<and> \<not> post then None
                 else if u = [] then None
                 else
                   (case unit_ns u of
                      None \<Rightarrow> None
                    | Some ns \<Rightarrow>
                        if 2 ^ 63 div ns < v then None
                        else
                          (let v = v * ns + (if 0 < f then fraction_ns f ns scale else 0)
                           in if 0 < f \<and> 2 ^ 63 < v then None else Some (v, drop (length u) s2))))))"

lemma leadingInt_shorter: "leadingInt x s = Some (v, t) \<Longrightarrow> length t \<le> length s"
  by (induction x s rule: leadingInt.induct) (auto split: if_splits)

lemma leadingFraction_shorter: "leadingFraction over x scale s = (f, sc, t) \<Longrightarrow> length t \<le> length s"
  by (induction over x scale s rule: leadingFraction.induct) (auto split: if_splits)

lemma duration_part_shorter:
  assumes "duration_part s = Some (v, t)"
  shows "length t < length s"
proof -
  obtain v1 s1 where s1: "leadingInt 0 s = Some (v1, s1)"
    using assms by (auto simp: duration_part_def split: if_splits option.splits)
  obtain f scale s2 where s2: "fraction_of s1 = (f, scale, s2)" using prod_cases3 by blast
  have "unit_text s2 \<noteq> [] \<and> t = drop (length (unit_text s2)) s2"
    using assms by (auto simp: duration_part_def s1 s2 Let_def split: if_splits option.splits)
  moreover have "length s2 \<le> length s1"
    using s2 by (auto simp: fraction_of_def split: if_splits dest: leadingFraction_shorter)
  moreover have "length (unit_text s2) \<le> length s2" by (simp add: unit_text_def length_takeWhile_le)
  ultimately show ?thesis using leadingInt_shorter [OF s1] by (auto simp flip: length_greater_0_conv)
qed

function duration_sum :: "nat \<Rightarrow> string \<Rightarrow> nat option" where
  "duration_sum d s =
     (if s = [] then Some d
      else
        (case duration_part s of
           None \<Rightarrow> None
         | Some (v, t) \<Rightarrow> if 2 ^ 63 < d + v then None else duration_sum (d + v) t))"
  by pat_completeness auto
termination
  by (relation "measure (length \<circ> snd)") (auto dest: duration_part_shorter)

declare duration_sum.simps [simp del]

definition ParseDuration :: "string \<Rightarrow> int option" where
  "ParseDuration s =
     (let neg = (take 1 s = ''-'');
          t = (if neg \<or> take 1 s = ''+'' then drop 1 s else s)
      in if t = ''0'' then Some 0
         else if t = [] then None
         else
           (case duration_sum 0 t of
              None \<Rightarrow> None
            | Some d \<Rightarrow> if neg then Some (- int d) else if 2 ^ 63 - 1 < d then None else Some (int d)))"

lemma ParseDuration_range: "ParseDuration s = Some d \<Longrightarrow> - (2 ^ 63) \<le> d \<and> d < 2 ^ 63"
proof -
  have "d \<le> 2 ^ 63 \<Longrightarrow> duration_sum d s = Some e \<Longrightarrow> e \<le> 2 ^ 63" for d s e
    by (induction d s rule: duration_sum.induct) (auto simp: duration_sum.simps split: if_splits option.splits prod.splits)
  from this [of 0] show "ParseDuration s = Some d \<Longrightarrow> - (2 ^ 63) \<le> d \<and> d < 2 ^ 63"
    by (fastforce simp: ParseDuration_def Let_def split: if_splits option.splits)
qed

subsection \<open>Flags\<close>

text \<open>A flag of a set and its value, the default until it is set.\<close>

datatype flag_value = FString string | FBool bool | FUint64 nat | FInt int | FDuration int

datatype flag_error = FlagHelp | FlagBad

definition ParseBool :: "string \<Rightarrow> bool option" where
  "ParseBool s =
     (if s \<in> {''1'', ''t'', ''T'', ''true'', ''TRUE'', ''True''} then Some True
      else if s \<in> {''0'', ''f'', ''F'', ''false'', ''FALSE'', ''False''} then Some False else None)"

fun flag_Set :: "string \<Rightarrow> flag_value \<Rightarrow> flag_value option" where
  "flag_Set s (FString _) = Some (FString s)"
| "flag_Set s (FBool _) = map_option FBool (ParseBool s)"
| "flag_Set s (FUint64 _) = (case ParseUint0 s of Inl _ \<Rightarrow> None | Inr n \<Rightarrow> Some (FUint64 n))"
| "flag_Set s (FInt _) = (case ParseInt0 s of Inl _ \<Rightarrow> None | Inr n \<Rightarrow> Some (FInt n))"
| "flag_Set s (FDuration _) = map_option FDuration (ParseDuration s)"

fun is_bool_flag :: "flag_value \<Rightarrow> bool" where
  "is_bool_flag (FBool _) = True"
| "is_bool_flag _ = False"

text \<open>The name of a flag and its value, where the argument has one. The \<^verbatim>\<open>=\<close> cannot be first.\<close>

definition split_flag :: "string \<Rightarrow> string \<times> string option" where
  "split_flag s =
     (let t = takeWhile (\<lambda>c. c \<noteq> CHR ''='') (drop 1 s)
      in (take 1 s @ t, if length t < length (drop 1 s) then Some (drop (Suc (length t)) (drop 1 s)) else None))"

text \<open>The steps of \<^verbatim>\<open>parseOne\<close>: the flags end, the arguments are wrong, or one flag is set.\<close>

datatype flag_step = FlagsEnd | FlagsFail flag_error | FlagsNext "string \<rightharpoonup> flag_value" "string list"

definition set_flag :: "(string \<rightharpoonup> flag_value) \<Rightarrow> string \<Rightarrow> string \<Rightarrow> string list \<Rightarrow> flag_step" where
  "set_flag formal name s rest =
     (case formal name of
        None \<Rightarrow> FlagsFail FlagBad
      | Some fv \<Rightarrow> (case flag_Set s fv of None \<Rightarrow> FlagsFail FlagBad | Some fv' \<Rightarrow> FlagsNext (formal(name \<mapsto> fv')) rest))"

definition parseOne :: "(string \<rightharpoonup> flag_value) \<Rightarrow> string list \<Rightarrow> flag_step" where
  "parseOne formal args =
     (case args of
        [] \<Rightarrow> FlagsEnd
      | s # rest \<Rightarrow>
          if length s < 2 \<or> s ! 0 \<noteq> CHR ''-'' then FlagsEnd
          else if s = ''--'' then FlagsEnd
          else
            (let name0 = (if s ! 1 = CHR ''-'' then drop 2 s else drop 1 s)
             in if name0 ! 0 = CHR ''-'' \<or> name0 ! 0 = CHR ''='' then FlagsFail FlagBad
                else
                  (case split_flag name0 of
                     (name, val) \<Rightarrow>
                       (case formal name of
                          None \<Rightarrow> FlagsFail (if name = ''help'' \<or> name = ''h'' then FlagHelp else FlagBad)
                        | Some fv \<Rightarrow>
                            if is_bool_flag fv then set_flag formal name (case val of Some v \<Rightarrow> v | None \<Rightarrow> ''true'') rest
                            else
                              (case val of
                                 Some v \<Rightarrow> set_flag formal name v rest
                               | None \<Rightarrow> (case rest of [] \<Rightarrow> FlagsFail FlagBad | v # rest' \<Rightarrow> set_flag formal name v rest'))))))"

lemma set_flag_rest: "set_flag formal name s rest = FlagsNext formal' args' \<Longrightarrow> args' = rest"
  by (simp add: set_flag_def split: option.splits)

lemma parseOne_shorter: "parseOne formal args = FlagsNext formal' args' \<Longrightarrow> length args' < length args"
  by (auto simp: parseOne_def Let_def split: list.splits if_splits prod.splits option.splits dest!: set_flag_rest)

function flag_Parse :: "(string \<rightharpoonup> flag_value) \<Rightarrow> string list \<Rightarrow> flag_error + (string \<rightharpoonup> flag_value)" where
  "flag_Parse formal args =
     (case parseOne formal args of
        FlagsEnd \<Rightarrow> Inr formal
      | FlagsFail e \<Rightarrow> Inl e
      | FlagsNext formal' args' \<Rightarrow> flag_Parse formal' args')"
  by pat_completeness auto
termination
  by (relation "measure (length \<circ> snd)") (auto dest: parseOne_shorter)

declare flag_Parse.simps [simp del]

text \<open>\<^verbatim>\<open>flag.ExitOnError\<close>.\<close>

fun flag_exit :: "flag_error \<Rightarrow> int" where
  "flag_exit FlagHelp = 0"
| "flag_exit FlagBad = 2"

text \<open>Reading a flag of a known kind.\<close>

definition str_flag :: "(string \<rightharpoonup> flag_value) \<Rightarrow> string \<Rightarrow> string" where
  "str_flag fl name = (case fl name of Some (FString s) \<Rightarrow> s | _ \<Rightarrow> [])"

definition bool_flag :: "(string \<rightharpoonup> flag_value) \<Rightarrow> string \<Rightarrow> bool" where
  "bool_flag fl name = (case fl name of Some (FBool b) \<Rightarrow> b | _ \<Rightarrow> False)"

definition uint_flag :: "(string \<rightharpoonup> flag_value) \<Rightarrow> string \<Rightarrow> nat" where
  "uint_flag fl name = (case fl name of Some (FUint64 n) \<Rightarrow> n | _ \<Rightarrow> 0)"

definition int_flag :: "(string \<rightharpoonup> flag_value) \<Rightarrow> string \<Rightarrow> int" where
  "int_flag fl name = (case fl name of Some (FInt n) \<Rightarrow> n | _ \<Rightarrow> 0)"

definition duration_flag :: "(string \<rightharpoonup> flag_value) \<Rightarrow> string \<Rightarrow> int" where
  "duration_flag fl name = (case fl name of Some (FDuration n) \<Rightarrow> n | _ \<Rightarrow> 0)"

lemma flag_accessors [simp]:
  "str_flag (fl(k \<mapsto> FString s)) k = s" "k \<noteq> n \<Longrightarrow> str_flag (fl(n \<mapsto> v)) k = str_flag fl k"
  "bool_flag (fl(k \<mapsto> FBool b)) k = b" "k \<noteq> n \<Longrightarrow> bool_flag (fl(n \<mapsto> v)) k = bool_flag fl k"
  "uint_flag (fl(k \<mapsto> FUint64 m)) k = m" "k \<noteq> n \<Longrightarrow> uint_flag (fl(n \<mapsto> v)) k = uint_flag fl k"
  "int_flag (fl(k \<mapsto> FInt i)) k = i" "k \<noteq> n \<Longrightarrow> int_flag (fl(n \<mapsto> v)) k = int_flag fl k"
  "duration_flag (fl(k \<mapsto> FDuration i)) k = i" "k \<noteq> n \<Longrightarrow> duration_flag (fl(n \<mapsto> v)) k = duration_flag fl k"
  by (simp_all add: str_flag_def bool_flag_def uint_flag_def int_flag_def duration_flag_def)

lemma flag_Parse_Nil [simp]: "flag_Parse formal [] = Inr formal"
  by (simp add: flag_Parse.simps parseOne_def)

text \<open>A flag that takes a value, written with two dashes and its value as the next argument.\<close>

lemma flag_Parse_arg:
  assumes "formal name = Some fv" and "\<not> is_bool_flag fv" and "flag_Set v fv = Some fv'"
    and "name \<noteq> []" and "name ! 0 \<noteq> CHR ''-''" and "CHR ''='' \<notin> set name"
  shows "flag_Parse formal ((''--'' @ name) # v # rest) = flag_Parse (formal(name \<mapsto> fv')) rest"
proof -
  have tw: "takeWhile (\<lambda>c. c \<noteq> CHR ''='') (drop 1 name) = drop 1 name"
    using assms(6) by (auto simp: takeWhile_eq_all_conv dest: in_set_dropD)
  have "split_flag name = (name, None)"
    by (simp only: split_flag_def Let_def tw append_take_drop_id less_irrefl if_False)
  moreover have "name ! 0 \<noteq> CHR ''=''" using assms(4,6) by (cases name) auto
  ultimately have "parseOne formal ((''--'' @ name) # v # rest) = FlagsNext (formal(name \<mapsto> fv')) rest"
    using assms by (cases name) (simp_all add: parseOne_def set_flag_def Let_def)
  then show ?thesis by (subst flag_Parse.simps) simp
qed

lemma flag_Parse_str:
  assumes "formal name = Some (FString old)" and "name \<noteq> []" and "name ! 0 \<noteq> CHR ''-''" and "CHR ''='' \<notin> set name"
  shows "flag_Parse formal ((''--'' @ name) # v # rest) = flag_Parse (formal(name \<mapsto> FString v)) rest"
  using assms by (intro flag_Parse_arg [where fv = "FString old"]) simp_all

subsection \<open>Lines of a stream\<close>

text \<open>
  A stream is what its successive reads return; a \<^verbatim>\<open>bufio.Reader\<close> keeps what it has read and not
  yet handed out. \<^verbatim>\<open>ReadString('\n')\<close> fails where the stream ends before a line does.
\<close>

abbreviation newline :: char where
  "newline \<equiv> CHR 0x0A"

fun ReadString :: "string \<times> string list \<Rightarrow> string option \<times> (string \<times> string list)" where
  "ReadString (buf, chunks) =
     (if newline \<in> set buf
      then (Some (takeWhile (\<lambda>c. c \<noteq> newline) buf @ [newline]), tl (dropWhile (\<lambda>c. c \<noteq> newline) buf), chunks)
      else (case chunks of [] \<Rightarrow> (None, [], []) | c # cs \<Rightarrow> ReadString (buf @ c, cs)))"

definition NewReader :: "string list \<Rightarrow> string \<times> string list" where
  "NewReader stdin = ([], stdin)"

lemma takeWhile_line: "newline \<notin> set l \<Longrightarrow> takeWhile (\<lambda>c. c \<noteq> newline) (l @ newline # t) = l"
  by (induction l) auto

lemma dropWhile_line: "newline \<notin> set l \<Longrightarrow> dropWhile (\<lambda>c. c \<noteq> newline) (l @ newline # t) = newline # t"
  by (induction l) auto

lemma ReadString_line:
  assumes "newline \<notin> set l"
  shows "ReadString (l @ newline # t, chunks) = (Some (l @ [newline]), t, chunks)"
  using takeWhile_line [OF assms] dropWhile_line [OF assms] by simp

lemma ReadString_chunk:
  assumes "newline \<notin> set l"
  shows "ReadString ([], (l @ newline # t) # cs) = (Some (l @ [newline]), t, cs)"
  using ReadString_line [OF assms, of t cs] by (subst ReadString.simps) (simp del: ReadString.simps)

lemma ReadString_end [simp]: "ReadString ([], []) = (None, [], [])"
  by simp

end
