(* ===== verification/MinerProgram.thy ===== *)
theory MinerProgram
  imports MinerClient GoArgs
begin

text \<open>
  \<^verbatim>\<open>cmd/kalon-miner-v2/main.go\<close> from its command line: the flags, the configuration, what a started
  miner runs beside its worker (the reporter of statistics and the processor of events), and the end
  of the program.
\<close>

subsection \<open>Configuration\<close>

record miner_config =
  mc_Wallet :: string
  mc_Threads :: int
  mc_RPCURL :: string
  mc_StatsInterval :: int

definition miner_flags :: "string \<rightharpoonup> flag_value" where
  "miner_flags = [''wallet'' \<mapsto> FString [], ''threads'' \<mapsto> FInt 2, ''rpc'' \<mapsto> FString ''http://localhost:16316'',
     ''stats'' \<mapsto> FDuration (30 * 1000000000)]"

definition miner_config_of :: "(string \<rightharpoonup> flag_value) \<Rightarrow> miner_config" where
  "miner_config_of fl =
     \<lparr>mc_Wallet = str_flag fl ''wallet'', mc_Threads = int_flag fl ''threads'', mc_RPCURL = str_flag fl ''rpc'',
      mc_StatsInterval = duration_flag fl ''stats''\<rparr>"

record rpc_client =
  rb_rpcURL :: string
  rb_Timeout :: int
  rb_lastBlock :: "block option"

definition NewRPCBlockchainV2 :: "string \<Rightarrow> string + rpc_client" where
  "NewRPCBlockchainV2 url = Inr \<lparr>rb_rpcURL = url, rb_Timeout = 30 * 1000000000, rb_lastBlock = None\<rparr>"

subsection \<open>Statistics\<close>

text \<open>\<^verbatim>\<open>Duration.Seconds\<close>, and \<^verbatim>\<open>Truncate\<close> to whole seconds, of durations that are not negative.\<close>

definition duration_Seconds :: "int \<Rightarrow> f64" where
  "duration_Seconds d =
     f64_add (f64_of_int (d div 1000000000)) (f64_div (f64_of_int (d mod 1000000000)) (f64_of_nat 1000000000))"

definition truncate_seconds :: "int \<Rightarrow> int" where
  "truncate_seconds d = d - d mod 1000000000"

record stats_line =
  sl_Uptime :: int
  sl_TotalHashes :: u64
  sl_BlocksFound :: u64
  sl_AvgRate :: f64
  sl_CurrentRate :: f64

definition printStats :: "gotime \<Rightarrow> miner_stats \<Rightarrow> stats_line" where
  "printStats now st =
     (let uptime = time_Sub now (mt_StartTime st)
      in \<lparr>sl_Uptime = truncate_seconds uptime, sl_TotalHashes = mt_TotalHashes st, sl_BlocksFound = mt_BlocksFound st,
          sl_AvgRate = f64_div (f64_of_u64 (mt_TotalHashes st)) (duration_Seconds uptime), sl_CurrentRate = mt_CurrentRate st\<rparr>)"

text \<open>The reporter makes its ticker first; a round prints at a tick and ends at the closed channel.\<close>

definition statsReporter_begin :: "miner_config \<Rightarrow> go_panic + unit" where
  "statsReporter_begin config = (if mc_StatsInterval config \<le> 0 then Inl NonPositiveTicker else Inr ())"

datatype reporter_wakes = ReporterTick | ReporterStop

definition statsReporter :: "reporter_wakes \<Rightarrow> gotime \<Rightarrow> miner_stats \<Rightarrow> stats_line option" where
  "statsReporter w now st = (case w of ReporterTick \<Rightarrow> Some (printStats now st) | ReporterStop \<Rightarrow> None)"

subsection \<open>Events\<close>

text \<open>The data of an event: a block, the worker that found it and how long it took.\<close>

record mining_event =
  me_Type :: string
  me_Data :: "block \<times> nat \<times> int"
  me_Timestamp :: gotime

definition found_event :: "gotime \<Rightarrow> block \<Rightarrow> nat \<Rightarrow> int \<Rightarrow> mining_event" where
  "found_event now b workerID duration = \<lparr>me_Type = ''blockFound'', me_Data = (b, workerID, duration), me_Timestamp = now\<rparr>"

text \<open>The bus holds 100 events; on a full one the worker waits.\<close>

definition emit_event :: "mining_event \<Rightarrow> mining_event list \<Rightarrow> mining_event list option" where
  "emit_event e bus = (if length bus < 100 then Some (bus @ [e]) else None)"

text \<open>The lines it logs, with the text of a time as an argument.\<close>

definition processEvent :: "(gotime \<Rightarrow> string) \<Rightarrow> mining_event \<Rightarrow> string" where
  "processEvent show_time e =
     (if me_Type e = ''blockFound'' then ''Event: Block found at '' @ show_time (me_Timestamp e)
      else ''Event: '' @ me_Type e @ '' at '' @ show_time (me_Timestamp e))"

text \<open>A round of the processor: it may see the closed channel first, and leave events behind.\<close>

definition eventProcessor ::
  "(gotime \<Rightarrow> string) \<Rightarrow> bool \<Rightarrow> mining_event list \<Rightarrow> (string \<times> mining_event list) option" where
  "eventProcessor show_time stops bus =
     (case bus of
        [] \<Rightarrow> None
      | e # es \<Rightarrow> if stops then None else Some (processEvent show_time e, es))"

subsection \<open>The program\<close>

text \<open>\<^verbatim>\<open>log.Fatal\<close> ends it with status 1; a panic in a goroutine ends it too.\<close>

datatype miner_run = MinerExit int | MinerCrash go_panic | MinerServing miner_config miner_v2

definition miner_main :: "gotime \<Rightarrow> string list \<Rightarrow> miner_run" where
  "miner_main now args =
     (case flag_Parse miner_flags args of
        Inl e \<Rightarrow> MinerExit (flag_exit e)
      | Inr fl \<Rightarrow>
          (let config = miner_config_of fl
           in if mc_Wallet config = [] then MinerExit 1
              else
                (case NewRPCBlockchainV2 (mc_RPCURL config) of
                   Inl _ \<Rightarrow> MinerExit 1
                 | Inr _ \<Rightarrow>
                     (case mv_Start (NewMinerV2 now) of
                        Inl _ \<Rightarrow> MinerExit 1
                      | Inr m \<Rightarrow>
                          (case statsReporter_begin config of
                             Inl p \<Rightarrow> MinerCrash p
                           | Inr _ \<Rightarrow> MinerServing config m)))))"

text \<open>The signal that ends it stops the miner.\<close>

definition miner_shutdown :: "miner_v2 \<Rightarrow> miner_v2 \<times> (stop_error + unit)" where
  "miner_shutdown m = mv_Stop m"

lemma miner_args:
  assumes "ParseInt0 t = Inr k" and "ParseDuration d = Some x"
  shows "flag_Parse miner_flags [''--wallet'', w, ''--threads'', t, ''--stats'', d] =
    Inr (miner_flags(''wallet'' \<mapsto> FString w, ''threads'' \<mapsto> FInt k, ''stats'' \<mapsto> FDuration x))"
proof -
  have "flag_Parse miner_flags ((''--'' @ ''wallet'') # w # [''--'' @ ''threads'', t, ''--'' @ ''stats'', d]) =
      flag_Parse (miner_flags(''wallet'' \<mapsto> FString w)) ((''--'' @ ''threads'') # t # [''--'' @ ''stats'', d])"
    by (intro flag_Parse_arg) (auto simp: miner_flags_def)
  also have "\<dots> = flag_Parse (miner_flags(''wallet'' \<mapsto> FString w, ''threads'' \<mapsto> FInt k)) ((''--'' @ ''stats'') # d # [])"
    by (intro flag_Parse_arg [where fv = "FInt 2"]) (auto simp: miner_flags_def assms(1))
  also have "\<dots> = flag_Parse (miner_flags(''wallet'' \<mapsto> FString w, ''threads'' \<mapsto> FInt k, ''stats'' \<mapsto> FDuration x)) []"
    by (intro flag_Parse_arg [where fv = "FDuration (30 * 1000000000)"]) (auto simp: miner_flags_def assms(2))
  finally show ?thesis by simp
qed

text \<open>
  C40. Started with a wallet, the miner runs one worker whatever number of threads it was given; an
  interval for its statistics that is not positive, such as the 0 one would give to turn them off,
  crashes the program; and the signal that ends it stops it without an error.
\<close>

theorem miner_program_starts:
  assumes "w \<noteq> []" and "ParseInt0 t = Inr k" and "ParseDuration d = Some x"
  shows "if x \<le> 0 then miner_main now [''--wallet'', w, ''--threads'', t, ''--stats'', d] = MinerCrash NonPositiveTicker
    else \<exists>m. miner_main now [''--wallet'', w, ''--threads'', t, ''--stats'', d] =
        MinerServing \<lparr>mc_Wallet = w, mc_Threads = k, mc_RPCURL = ''http://localhost:16316'', mc_StatsInterval = x\<rparr> m \<and>
      mv_workers m = 1 \<and> snd (miner_shutdown m) = Inr ()"
proof -
  have cfg: "miner_config_of (miner_flags(''wallet'' \<mapsto> FString w, ''threads'' \<mapsto> FInt k, ''stats'' \<mapsto> FDuration x)) =
      \<lparr>mc_Wallet = w, mc_Threads = k, mc_RPCURL = ''http://localhost:16316'', mc_StatsInterval = x\<rparr>"
    by (simp add: miner_config_of_def str_flag_def int_flag_def duration_flag_def miner_flags_def)
  show ?thesis
    using assms(1)
    by (simp add: miner_main_def miner_args [OF assms(2,3)] cfg Let_def NewRPCBlockchainV2_def mv_Start_def NewMinerV2_def
      statsReporter_begin_def miner_shutdown_def mv_Stop_def)
qed

lemma parsed_samples: "ParseInt0 ''8'' = Inr 8" "ParseDuration ''0'' = Some 0" "ParseDuration ''30s'' = Some 30000000000"
  "ParseDuration ''-2m'' = Some (-120000000000)"
  by (simp_all add: ParseInt0_def ParseUint0_def base_prefix_def digit_val_def ParseDuration_def duration_sum.simps
    duration_part_def fraction_of_def unit_text_def unit_ns_def decimal_digit_def digit_of_def)

theorem miner_program_starts_witness:
  "miner_main 0 [''--wallet'', ''kalon1abc'', ''--threads'', ''8'', ''--stats'', ''0''] = MinerCrash NonPositiveTicker \<and>
   (\<exists>config m. miner_main 0 [''--wallet'', ''kalon1abc'', ''--threads'', ''8'', ''--stats'', ''30s''] = MinerServing config m \<and>
     mc_Threads config = 8 \<and> mv_workers m = 1)"
  using miner_program_starts [OF _ parsed_samples(1,2), of "''kalon1abc''" 0] miner_program_starts [OF _ parsed_samples(1,3), of "''kalon1abc''" 0]
  by fastforce

end
