(* ===== verification/MinedHeader.thy ===== *)
theory MinedHeader
  imports Sha256Vector CoreTypes
begin

text \<open>
  A header that was mined: the simplifier computes its SHA-256, three blocks of 64 rounds, and its first
  20 bits are zero. It is the second header of a chain at difficulty 20, with the 962506th nonce the
  miner of \<^verbatim>\<open>cmd/kalon-miner-v2\<close> tries.
\<close>

definition mined_header :: block_header where
  "mined_header = \<lparr>bh_ParentHash = 42, bh_Number = 2, bh_Timestamp = 1700000001 * 1000000000, bh_Difficulty = 20,
     bh_Miner = 0, bh_Nonce = 962505, bh_MerkleRoot = 0, bh_TxCount = 1, bh_NetworkFee = 0, bh_TreasuryFee = 0\<rparr>"

definition part0 :: bytes where
  "part0 = replicate 31 0 @ [42] @ replicate 7 0 @ [2] @ replicate 4 0 @ [101, 83, 241, 1] @ replicate 7 0 @ [20] @ replicate 8 0"

definition part1 :: bytes where
  "part1 = replicate 17 0 @ [14, 175, 201] @ replicate 35 0 @ [1] @ replicate 8 0"

definition part2 :: bytes where
  "part2 = replicate 8 0 @ [128] @ replicate 53 0 @ [4, 64]"

lemma mined_preimage: "sha_pad (header_preimage mined_header) = part0 @ part1 @ part2"
  by (simp add: header_preimage_def mined_header_def sha_pad_def part0_def part1_def part2_def hash_bytes_def
      addr_bytes_def unix_u64_def be_put_eval replicate_eval)

lemma length_parts [simp]: "length part0 = 64" "length part1 = 64" "length part2 = 64"
  by (simp_all add: part0_def part1_def part2_def)

lemma sha_block_norm:
  "sha_block st bs = map norm32 (map2 (+) st (foldl sha_round st (zip sha_k (rev (sha_extend 48 (rev (sha_words bs)))))))"
  by (simp add: sha_block_def norm32_def [abs_def])

lemma part_words:
  "rev (sha_words part0) = [0, 0, 20, 0, 1700000001, 0, 2, 0, 42, 0, 0, 0, 0, 0, 0, 0]"
  "rev (sha_words part1) = [0, 0, 1, 0, 0, 0, 0, 0, 0, 0, 0, 962505, 0, 0, 0, 0]"
  "rev (sha_words part2) = [1088, 0, 0, 0, 0, 0, 0, 0, 0, 0, 0, 0, 0, 2147483648, 0, 0]"
  by (simp_all add: part0_def part1_def part2_def replicate_eval)

lemmas sha_evals = sha_k_def sha_extend_eval ext_word_def sha_round_eval rotr_eval norm32_numeral

definition digest1 :: sha_state where
  "digest1 = [284815600, 80886453, 881877975, 2800487876, 2392138584, 2949330202, 3340099202, 3021688580]"

definition words0 :: "u32 list" where
  "words0 =
    [0, 0, 0, 0, 0, 0, 0, 42,
     0, 2, 0, 1700000001, 0, 20, 0, 0,
     2, 0, 1700081921, 0, 1052363616, 0, 819869438, 44,
     3786238457, 1701359875, 203171919, 4073078934, 3107086473, 423841213, 2088478547, 3038603603,
     214270048, 1743481053, 3361384497, 1209109423, 1495917737, 3908167488, 215903774, 2445305138,
     1787814237, 23544403, 73820174, 835331370, 1168231530, 3170977002, 3649210715, 1275972702,
     2414058550, 2627817503, 3982294187, 815507135, 3712412391, 268352378, 1868277577, 4232672352,
     625108162, 164574134, 2399302138, 1038528928, 1617093685, 3390959471, 3395171151, 1470555036]"

lemma schedule0: "rev (sha_extend 48 (rev (sha_words part0))) = words0"
  unfolding part_words by (simp add: words0_def sha_evals del: sha_extend.simps)

lemma half0: "foldl sha_round sha_init (take 32 (zip sha_k words0)) = [3196276346, 2712374581, 3316909963, 2714652305, 1596505776, 2505707450, 1830393351, 3930847255]"
  by (simp add: sha_init_def words0_def sha_evals del: sha_round.simps)

lemma rest0: "foldl sha_round [3196276346, 2712374581, 3316909963, 2714652305, 1596505776, 2505707450, 1830393351, 3930847255] (drop 32 (zip sha_k words0)) = [2800749193, 1231719472, 4162941029, 27007114, 1032245465, 348507278, 2811364567, 1480229355]"
  by (simp add: words0_def sha_evals del: sha_round.simps)

lemma sha_block_part0: "sha_block sha_init part0 = digest1"
  using foldl_append [of sha_round sha_init "take 32 (zip sha_k words0)" "drop 32 (zip sha_k words0)"]
  unfolding append_take_drop_id half0 rest0
  by (simp add: sha_block_norm schedule0) (simp add: sha_init_def digest1_def norm32_numeral)

definition digest2 :: sha_state where
  "digest2 = [1841960829, 3014464741, 2930179184, 748145690, 3214674659, 2999010103, 3565463663, 2189672868]"

definition words1 :: "u32 list" where
  "words1 =
    [0, 0, 0, 0, 962505, 0, 0, 0,
     0, 0, 0, 0, 0, 1, 0, 0,
     0, 0, 0, 972261541, 962506, 3041412901, 2182890413, 727399964,
     2843997789, 4173809161, 3217197489, 1275765364, 3439960032, 2273571034, 664435550, 802941482,
     1804892073, 1209937565, 2963994770, 427785137, 4145330906, 2335736646, 1858005382, 1020077031,
     2029359784, 3051242791, 2649056618, 3975990420, 3494600535, 479371693, 3557482919, 4026893124,
     108624533, 3846906418, 4021476017, 1693146039, 108873408, 3781362807, 3952605810, 1629043237,
     690494330, 4290591703, 420231180, 2426735617, 1047553737, 487599129, 1812449322, 2703041560]"

lemma schedule1: "rev (sha_extend 48 (rev (sha_words part1))) = words1"
  unfolding part_words by (simp add: words1_def sha_evals del: sha_extend.simps)

lemma half1: "foldl sha_round digest1 (take 32 (zip sha_k words1)) = [3501574338, 1493538471, 1979997024, 1919865222, 2458078270, 1834650784, 2635899292, 1021141893]"
  by (simp add: digest1_def words1_def sha_evals del: sha_round.simps)

lemma rest1: "foldl sha_round [3501574338, 1493538471, 1979997024, 1919865222, 2458078270, 1834650784, 2635899292, 1021141893] (drop 32 (zip sha_k words1)) = [1557145229, 2933578288, 2048301209, 2242625110, 822536075, 49679901, 225364461, 3462951584]"
  by (simp add: words1_def sha_evals del: sha_round.simps)

lemma sha_block_part1: "sha_block digest1 part1 = digest2"
  using foldl_append [of sha_round digest1 "take 32 (zip sha_k words1)" "drop 32 (zip sha_k words1)"]
  unfolding append_take_drop_id half1 rest1
  by (simp add: sha_block_norm schedule1) (simp add: digest1_def digest2_def norm32_numeral)

definition digest3 :: sha_state where
  "digest3 = [4083, 270647089, 3394326274, 3717983302, 50211410, 3060833387, 2429168943, 1620403446]"

definition words2 :: "u32 list" where
  "words2 =
    [0, 0, 2147483648, 0, 0, 0, 0, 0,
     0, 0, 0, 0, 0, 0, 0, 1088,
     0, 329785345, 2147483648, 335823273, 2117632, 2833557906, 570428480, 3251714116,
     457749828, 991595676, 1611701897, 401845325, 91374015, 3316310572, 2882172747, 1219185244,
     3100831559, 1362126364, 52138444, 1834269879, 2597613454, 2778282012, 73676499, 3688319180,
     2791211359, 3302984851, 3520455345, 3648927450, 4059781742, 3347821073, 2969290272, 3258915733,
     1152279728, 228943175, 668381115, 2464459007, 1216503918, 3272216558, 2479526318, 1922084257,
     2868973466, 828625765, 771414332, 3407486776, 3300026644, 1318494622, 2454534112, 3814717396]"

lemma schedule2: "rev (sha_extend 48 (rev (sha_words part2))) = words2"
  unfolding part_words by (simp add: words2_def sha_evals del: sha_extend.simps)

lemma half2: "foldl sha_round digest2 (take 32 (zip sha_k words2)) = [294698874, 2315273355, 3472053444, 2694618949, 4205210964, 940206785, 3654490682, 529110597]"
  by (simp add: digest2_def words2_def sha_evals del: sha_round.simps)

lemma rest2: "foldl sha_round [294698874, 2315273355, 3472053444, 2694618949, 4205210964, 940206785, 3654490682, 529110597] (drop 32 (zip sha_k words2)) = [2453010550, 1551149644, 464147090, 2969837612, 1130504047, 61823284, 3158672576, 3725697874]"
  by (simp add: words2_def sha_evals del: sha_round.simps)

lemma sha_block_part2: "sha_block digest2 part2 = digest3"
  using foldl_append [of sha_round digest2 "take 32 (zip sha_k words2)" "drop 32 (zip sha_k words2)"]
  unfolding append_take_drop_id half2 rest2
  by (simp add: sha_block_norm schedule2) (simp add: digest2_def digest3_def norm32_numeral)

lemma mined_hash_bytes:
  "take 8 (sha256 (header_preimage mined_header)) = [0, 0, 15, 243, 16, 33, 191, 49]"
proof -
  have "sha256 (header_preimage mined_header) = concat (map (be_put 4) (sha_blocks 3 sha_init (part0 @ part1 @ part2)))"
    by (simp add: sha256_def mined_preimage)
  also have "sha_blocks 3 sha_init (part0 @ part1 @ part2) = digest3"
    by (simp add: numeral_3_eq_3 sha_block_part0 sha_block_part1 sha_block_part2)
  finally show ?thesis by (simp add: digest3_def be_put_eval)
qed

end
