(* ===== verification/MinerRound.thy ===== *)
theory MinerRound
  imports MinerClient MinedHeader
begin

text \<open>
  The miner of \<^verbatim>\<open>cmd/kalon-miner-v2/main.go\<close> against the server of \<^verbatim>\<open>rpc/server_v2.go\<close>:
  each request of the miner is answered by \<open>handleRPCMethod\<close> on the chain of the node, with the
  numbers of both directions rounded to \<^verbatim>\<open>float64\<close>.
\<close>

subsection \<open>A request of the miner at the node\<close>

definition as_request :: "client_request \<Rightarrow> rpc_request" where
  "as_request q = \<lparr>rq_JSONRPC = ''2.0'', rq_Method = cq_Method q, rq_Params = wire (cq_Params q),
     rq_ID = JNum (f64_of_int (cq_ID q))\<rparr>"

text \<open>An answer without a result decodes as one whose result is nil.\<close>

definition as_answer :: "rpc_response \<Rightarrow> client_response" where
  "as_answer r = \<lparr>cr_Result = (case rs_Result r of Some v \<Rightarrow> wire v | None \<Rightarrow> JNil), cr_Error = rs_Error r,
     cr_ID = (case rs_ID r of JNum x \<Rightarrow> int_of_f64 zero_platform x | _ \<Rightarrow> 0)\<rparr>"

text \<open>A handler that panics answers with an error, as \<^verbatim>\<open>handleRequest\<close> does.\<close>

definition node_call ::
  "('s, 'e) persister \<Rightarrow> (client_request \<Rightarrow> rpc_env) \<Rightarrow> client_request \<Rightarrow> 's chain \<Rightarrow>
   's chain \<times> (attempt option + client_response)" where
  "node_call ps env q c =
     (case handleRPCMethod ps (env q) (as_request q) c of
        (c', Inl p) \<Rightarrow> (c', Inr (as_answer (rpc_fail (as_request q) (- 32603) ''Internal error'' (PanicData p))))
      | (c', Inr r) \<Rightarrow> (c', Inr (as_answer r)))"

subsection \<open>A template as the miner reads it\<close>

lemma client_output_entries:
  "unat (out_Amount out) < 2 ^ 53 \<Longrightarrow> client_output pl (output_entries out) = out"
  by (cases out) (simp add: client_output_def output_entries_def num_field_def u64_f64_roundtrip)

lemma client_tx_entries:
  assumes "tx_small tx"
  shows "client_tx pl pt (tx_entries tx) = tx_carried tx"
proof -
  have "map (client_output pl) (map output_entries (tx_Outputs tx)) = tx_Outputs tx"
    using assms by (simp add: tx_small_def list_all_iff client_output_entries map_idI)
  then show ?thesis
    using assms
    by (cases tx) (simp add: client_tx_def tx_entries_def tx_carried_def wire_output wire_input addr_field_def
        hash_field_def num_field_def tx_small_def u64_f64_roundtrip parse_input_entries o_def)
qed

text \<open>The block the miner works on.\<close>

definition work_block :: "address \<Rightarrow> block \<Rightarrow> block" where
  "work_block miner b =
     (let w = \<lparr>blk_Header = \<lparr>bh_ParentHash = bh_ParentHash (blk_Header b), bh_Number = bh_Number (blk_Header b),
            bh_Timestamp = bh_Timestamp (blk_Header b) div 1000000000 * 1000000000,
            bh_Difficulty = bh_Difficulty (blk_Header b), bh_Miner = miner, bh_Nonce = 0, bh_MerkleRoot = 0,
            bh_TxCount = of_nat (length (blk_Txs b)), bh_NetworkFee = 0, bh_TreasuryFee = 0\<rparr>,
          blk_Txs = map tx_carried (blk_Txs b), blk_Hash = 0\<rparr>
      in w\<lparr>blk_Hash := Block_CalculateHash w\<rparr>)"

lemma block_small_second:
  assumes "block_small b"
  shows "int_of_f64 pl (f64_of_int (bh_Timestamp (blk_Header b) div 1000000000)) = bh_Timestamp (blk_Header b) div 1000000000"
proof -
  let ?t = "bh_Timestamp (blk_Header b) div 1000000000"
  have "0 \<le> ?t" "?t < 2 ^ 53" using assms by (simp_all add: block_small_def pos_imp_zdiv_nonneg_iff)
  then obtain n where n: "?t = int n" "n < 2 ^ 53"
    by (cases ?t rule: int_cases2) auto
  show ?thesis unfolding n(1) using n(2) by (rule int_of_wire)
qed

lemma client_CreateNewBlock_template:
  assumes "block_small b" and "cr_Error resp = None" and "cr_Result resp = JObj (template_entries b)"
  shows "client_CreateNewBlock pl pt miner (Inr resp) = Some (work_block miner b)"
proof -
  have "map (client_tx pl pt) (map tx_entries (blk_Txs b)) = map tx_carried (blk_Txs b)"
    using assms(1) by (simp add: block_small_def client_tx_entries)
  then have "map (client_tx pl pt) (objects (Some (map (\<lambda>tx. JObj (tx_entries tx)) (blk_Txs b)))) = map tx_carried (blk_Txs b)"
    by simp
  with assms block_small_second [OF assms(1), of pl] show ?thesis
    by (simp add: client_CreateNewBlock_def template_entries_def work_block_def block_small_def num_field_def
        u64_f64_roundtrip Block_CalculateHash_def Let_def)
qed

subsection \<open>A submission as the node reads it\<close>

definition resubmitted :: "gotime \<Rightarrow> transaction \<Rightarrow> transaction" where
  "resubmitted t tx =
     (let r = tx\<lparr>tx_Data := [], tx_Signature := [],
            tx_Inputs := map (\<lambda>i. \<lparr>in_PreviousTxHash = 0, in_Index = in_Index i, in_Signature = []\<rparr>) (tx_Inputs tx),
            tx_Timestamp := t\<rparr>
      in if tx_Hash r = 0 then r\<lparr>tx_Hash := CalculateTransactionHash r\<rparr> else r)"

definition struct_input_entries :: "tx_input \<Rightarrow> (string \<times> gojson) list" where
  "struct_input_entries inp =
     [(''previousTxHash'', JArr (map (\<lambda>b. JNum (f64_of_int (uint b))) (hash_bytes (in_PreviousTxHash inp)))),
      (''index'', JNum (f64_of_nat (unat (in_Index inp)))), (''signature'', wire (slice_json (in_Signature inp)))]"

lemma wire_struct_input: "wire (struct_input_json inp) = JObj (struct_input_entries inp)"
  by (simp add: struct_input_json_def struct_input_entries_def array_json_def)

text \<open>The node expects hexadecimal text where the miner writes an array.\<close>

lemma parse_struct_input:
  "parse_input pl (struct_input_entries inp) = \<lparr>in_PreviousTxHash = 0, in_Index = in_Index inp, in_Signature = []\<rparr>"
  by (simp add: parse_input_def struct_input_entries_def hash_field_def u32_of_wire)

definition submit_tx_entries :: "(gotime \<Rightarrow> string) \<Rightarrow> transaction \<Rightarrow> (string \<times> gojson) list" where
  "submit_tx_entries format_time tx =
     [(''from'', JStr (Address_String (tx_From tx))), (''to'', JStr (Address_String (tx_To tx))),
      (''amount'', JNum (f64_of_u64 (tx_Amount tx))), (''nonce'', JNum (f64_of_u64 (tx_Nonce tx))),
      (''fee'', JNum (f64_of_u64 (tx_Fee tx))), (''gasUsed'', JNum (f64_of_u64 (tx_GasUsed tx))),
      (''gasPrice'', JNum (f64_of_u64 (tx_GasPrice tx))), (''data'', wire (slice_json (tx_Data tx))),
      (''signature'', wire (slice_json (tx_Signature tx))), (''hash'', JStr (hex_encode (hash_bytes (tx_Hash tx)))),
      (''inputs'', wire (list_json (map struct_input_json (tx_Inputs tx)))),
      (''outputs'', wire (list_json (map (\<lambda>out. VObj [(''address'', VStr (Address_String (out_Address out))),
         (''amount'', VF64 (f64_of_u64 (out_Amount out)))]) (tx_Outputs tx)))),
      (''timestamp'', JStr (format_time (tx_Timestamp tx)))]"

lemma wire_submit_tx: "wire (submit_tx_json format_time tx) = JObj (submit_tx_entries format_time tx)"
  by (simp add: submit_tx_json_def submit_tx_entries_def)

lemma objects_list_json:
  assumes "\<And>x. wire (f x) = JObj (g x)"
  shows "objects (as_arr (Some (wire (list_json (map f xs))))) = map g xs"
proof -
  have "as_arr (Some (wire (list_json (map f xs)))) = (if xs = [] then None else Some (map (\<lambda>x. JObj (g x)) xs))"
    using assms by (simp add: list_json_def)
  moreover have "objects None = []" by (simp add: objects_def)
  ultimately show ?thesis by simp
qed

lemma objects_struct_inputs [simp]:
  "objects (as_arr (Some (wire (list_json (map struct_input_json xs))))) = map struct_input_entries xs"
  by (rule objects_list_json) (rule wire_struct_input)

lemma objects_submit_outputs [simp]:
  "objects (as_arr (Some (wire (list_json (map (\<lambda>out. VObj [(''address'', VStr (Address_String (out_Address out))),
      (''amount'', VF64 (f64_of_u64 (out_Amount out)))]) xs))))) = map output_entries xs"
  by (rule objects_list_json) (simp add: output_entries_def Address_String_def)

lemma objects_submit_txs [simp]:
  "objects (as_arr (Some (wire (list_json (map (submit_tx_json ft) xs))))) = map (submit_tx_entries ft) xs"
  by (rule objects_list_json) (rule wire_submit_tx)

lemma parse_submit_inputs: "in_PreviousTxHash ` set (tx_Inputs (parse_tx pl pt (submit_tx_entries ft tx))) \<subseteq> {0}"
  by (auto simp: parse_tx_def Let_def submit_tx_entries_def parse_struct_input)

lemma parse_submit_tx:
  assumes "tx_small tx" and "tx_GasUsed tx = 0" and "tx_GasPrice tx = 0"
  shows "parse_tx pl pt (submit_tx_entries ft tx) =
    resubmitted (case pt (ft (tx_Timestamp tx)) of Some t \<Rightarrow> t | None \<Rightarrow> zero_time) tx"
proof -
  have outs: "map (parse_output pl) (map output_entries (tx_Outputs tx)) = tx_Outputs tx"
    using assms(1) by (simp add: tx_small_def list_all_iff parse_output_entries map_idI)
  have zero: "u64_of_f64 pl (f64_of_u64 0) = 0" by (simp add: u64_f64_roundtrip)
  let ?t = "case pt (ft (tx_Timestamp tx)) of Some t \<Rightarrow> t | None \<Rightarrow> zero_time"
  show "parse_tx pl pt (submit_tx_entries ft tx) = resubmitted ?t tx"
    using assms outs zero
    by (cases tx) (simp add: parse_tx_def submit_tx_entries_def resubmitted_def addr_field_def hash_field_def
        num_field_def tx_small_def u64_f64_roundtrip parse_struct_input AddressFromString_hex o_def Let_def)
qed

text \<open>The block the node reads from a submission.\<close>

definition arrived :: "platform \<Rightarrow> (string \<Rightarrow> gotime option) \<Rightarrow> (gotime \<Rightarrow> string) \<Rightarrow> block \<Rightarrow> block" where
  "arrived pl pt ft b =
     \<lparr>blk_Header = zero_header\<lparr>bh_Number := u64_of_f64 pl (f64_of_u64 (bh_Number (blk_Header b))),
        bh_Difficulty := u64_of_f64 pl (f64_of_u64 (bh_Difficulty (blk_Header b))),
        bh_Nonce := u64_of_f64 pl (f64_of_u64 (bh_Nonce (blk_Header b))),
        bh_Timestamp := int_of_f64 pl (f64_of_int (bh_Timestamp (blk_Header b) div 1000000000)) * 1000000000,
        bh_ParentHash := bh_ParentHash (blk_Header b)\<rparr>,
      blk_Txs = map (\<lambda>tx. parse_tx pl pt (submit_tx_entries ft tx)) (blk_Txs b), blk_Hash = blk_Hash b\<rparr>"

lemma parse_submission:
  "as_obj (Some (wire (submit_json ft b))) = Some m \<Longrightarrow> parseBlockData pl pt m = Inr (arrived pl pt ft b)"
  by (auto simp: submit_json_def parseBlockData_def need_def arrived_def Let_def o_def)

lemma submit_object: "\<exists>m. as_obj (Some (wire (submit_json ft b))) = Some m"
  by (simp add: submit_json_def)

lemma handleSubmit_of_miner:
  fixes env :: rpc_env and ft :: "gotime \<Rightarrow> string" and b :: block
  assumes "req = as_request (submit_request ft b)"
  defines "r \<equiv> arrived (ev_platform env) (ev_parse_time env) ft b"
  shows "handleSubmitBlockV2 ps env req c =
    (fst (addBlockV2 ps r c),
     case validateBlockV2 r c of
       Inl e \<Rightarrow> rpc_fail req (- 32603) ''Block submission failed'' (ChainData e)
     | Inr _ \<Rightarrow> rpc_ok req (VObj [(''success'', VBool True), (''hash'', VStr (hex_encode (hash_bytes (blk_Hash r)))),
         (''number'', VU64 (bh_Number (blk_Header r)))]))"
proof -
  obtain m where m: "as_obj (Some (wire (submit_json ft b))) = Some m" using submit_object by blast
  then have p: "parseBlockData (ev_platform env) (ev_parse_time env) m = Inr r"
    unfolding r_def by (rule parse_submission)
  have v: "snd (addBlockV2 ps r c) = validateBlockV2 r c" by (rule snd_addBlockV2)
  show ?thesis
    using m p v
    by (cases "addBlockV2 ps r c")
      (simp add: handleSubmitBlockV2_def assms(1) as_request_def submit_request_def AddBlockV2_def split: sum.split)
qed

text \<open>
  C16. Whatever block the miner submits, no unspent output of the node is spent by it, except under the
  hash of zero bytes: the miner writes the hash an input refers to as an array of numbers and the
  node reads none. A transfer that is mined pays its receiver and leaves its sender the coins.
\<close>

theorem miner_never_spends:
  assumes "node_call ps env (submit_request ft b) c = (c', answer)"
    and "unspent (ch_utxoSet c) (h, i) \<noteq> None" and "h \<noteq> 0"
  shows "unspent (ch_utxoSet c') (h, i) \<noteq> None"
proof -
  let ?q = "submit_request ft b"
  let ?r = "arrived (ev_platform (env ?q)) (ev_parse_time (env ?q)) ft b"
  have c': "c' = fst (addBlockV2 ps ?r c)"
    using assms(1) by (simp add: node_call_def handleRPCMethod_def as_request_def submit_request_def
        handleSubmit_of_miner [OF refl, unfolded as_request_def submit_request_def, simplified])
  have keep: "m (h, i) \<noteq> None \<Longrightarrow> ledger_tx bh (parse_tx pl pt (submit_tx_entries ft tx)) m (h, i) \<noteq> None" for m bh pl pt tx
  proof -
    assume m: "m (h, i) \<noteq> None"
    have "(h, i) \<notin> set (spent_points (parse_tx pl pt (submit_tx_entries ft tx)))"
      using parse_submit_inputs [of pl pt ft tx] assms(3) by (auto simp: spent_points_def)
    with m show ?thesis by (auto simp: ledger_tx_def map_add_def restrict_map_def split: option.split)
  qed
  have fold: "m (h, i) \<noteq> None \<Longrightarrow>
      fold (ledger_tx bh) (map (\<lambda>tx. parse_tx pl pt (submit_tx_entries ft tx)) txs) m (h, i) \<noteq> None" for m bh pl pt txs
    by (induction txs arbitrary: m) (simp_all add: keep del: not_None_eq)
  show ?thesis
  proof (cases "validateBlockV2 ?r c")
    case (Inl e)
    then show ?thesis using assms(2) c' by (simp add: addBlockV2_rejects)
  next
    case (Inr u)
    then have v: "validateBlockV2 ?r c = Inr ()" by simp
    have "unspent (ch_utxoSet c') = fold (ledger_tx (blk_Hash ?r)) (blk_Txs ?r) (unspent (ch_utxoSet c))"
      by (simp add: c' addBlockV2_accepts [OF v] unspent_process_stored_txs)
    then show ?thesis
      unfolding arrived_def block.simps by (simp only:) (rule fold, rule assms(2))
  qed
qed

subsection \<open>A round of the worker\<close>

lemma node_getHeight:
  "node_call ps env \<lparr>cq_Method = ''getHeight'', cq_Params = v, cq_ID = n\<rparr> c =
     (c, Inr (as_answer (rpc_ok (as_request \<lparr>cq_Method = ''getHeight'', cq_Params = v, cq_ID = n\<rparr>) (VU64 (GetHeight c)))))"
  by (simp add: node_call_def handleRPCMethod_def as_request_def handleGetHeight_def)

lemma node_getBestBlock:
  "GetBestBlock c = Some p \<Longrightarrow> node_call ps env \<lparr>cq_Method = ''getBestBlock'', cq_Params = v, cq_ID = n\<rparr> c =
     (c, Inr (as_answer (rpc_ok (as_request \<lparr>cq_Method = ''getBestBlock'', cq_Params = v, cq_ID = n\<rparr>)
        (VObj [(''hash'', VStr (hex_encode (hash_bytes (blk_Hash p)))), (''number'', VU64 (bh_Number (blk_Header p)))]))))"
  by (simp add: node_call_def handleRPCMethod_def as_request_def handleGetBestBlock_def)

lemma node_template:
  "node_call ps env (template_request wallet) c =
     (case handleCreateBlockTemplateV2 (env (template_request wallet)) (as_request (template_request wallet)) c of
        Inl p \<Rightarrow> (c, Inr (as_answer (rpc_fail (as_request (template_request wallet)) (- 32603) ''Internal error'' (PanicData p))))
      | Inr r \<Rightarrow> (c, Inr (as_answer r)))"
  by (simp add: node_call_def handleRPCMethod_def as_request_def template_request_def split: sum.split)

lemma node_submit:
  "node_call ps env (submit_request ft b) c =
     map_prod id (\<lambda>r. Inr (as_answer r))
       (handleSubmitBlockV2 ps (env (submit_request ft b)) (as_request (submit_request ft b)) c)"
  by (cases "handleSubmitBlockV2 ps (env (submit_request ft b)) (as_request (submit_request ft b)) c")
    (simp add: node_call_def handleRPCMethod_def as_request_def submit_request_def)

lemma answer_ok [simp]: "cr_Error (as_answer (rpc_ok req v)) = None" "cr_Result (as_answer (rpc_ok req v)) = wire v"
  by (simp_all add: as_answer_def rpc_ok_def)

lemma answer_fail [simp]: "cr_Error (as_answer (rpc_fail req code m d)) = Some \<lparr>re_Code = code, re_Message = m, re_Data = d\<rparr>"
  by (simp add: as_answer_def rpc_fail_def)

lemma getCurrentHeight_node:
  "unat h < 2 ^ 53 \<Longrightarrow> getCurrentHeight pl (Inr (as_answer (rpc_ok req (VU64 h)))) = h"
  by (simp add: getCurrentHeight_def u64_f64_roundtrip)

lemma getBestBlock_node:
  "getBestBlock (Inr (as_answer (rpc_ok req (VObj [(''hash'', VStr (hex_encode (hash_bytes h))), (''number'', v)])))) =
     Some (zero_block\<lparr>blk_Hash := h\<rparr>)"
  by (simp add: getBestBlock_def)

lemma work_block_simps [simp]:
  "bh_Difficulty (blk_Header (work_block a b)) = bh_Difficulty (blk_Header b)"
  "bh_Number (blk_Header (work_block a b)) = bh_Number (blk_Header b)"
  "bh_ParentHash (blk_Header (work_block a b)) = bh_ParentHash (blk_Header b)"
  "bh_Timestamp (blk_Header (work_block a b)) = bh_Timestamp (blk_Header b) div 1000000000 * 1000000000"
  "blk_Txs (work_block a b) = map tx_carried (blk_Txs b)"
  by (simp_all add: work_block_def Let_def)

lemma tx_carried_small [simp]: "tx_small (tx_carried tx) = tx_small tx"
  by (simp add: tx_small_def tx_carried_def)

lemma arrived_work:
  fixes n :: u64 and a :: address
  assumes small: "block_small b"
  defines "f \<equiv> with_nonce n (work_block a b)"
  shows "bh_Number (blk_Header (arrived pl pt ft f)) = bh_Number (blk_Header b)"
    "bh_Difficulty (blk_Header (arrived pl pt ft f)) = bh_Difficulty (blk_Header b)"
    "bh_ParentHash (blk_Header (arrived pl pt ft f)) = bh_ParentHash (blk_Header b)"
    "bh_Timestamp (blk_Header (arrived pl pt ft f)) = bh_Timestamp (blk_Header b) div 1000000000 * 1000000000"
    "blk_Hash (arrived pl pt ft f) = blk_Hash f"
    "\<exists>t. blk_Txs (arrived pl pt ft f) = map (\<lambda>tx. resubmitted t (tx_carried tx)) (blk_Txs b)"
proof -
  show "bh_Number (blk_Header (arrived pl pt ft f)) = bh_Number (blk_Header b)"
    "bh_Difficulty (blk_Header (arrived pl pt ft f)) = bh_Difficulty (blk_Header b)"
    "bh_ParentHash (blk_Header (arrived pl pt ft f)) = bh_ParentHash (blk_Header b)"
    "blk_Hash (arrived pl pt ft f) = blk_Hash f"
    using small by (simp_all add: arrived_def f_def block_small_def u64_f64_roundtrip)
  show "bh_Timestamp (blk_Header (arrived pl pt ft f)) = bh_Timestamp (blk_Header b) div 1000000000 * 1000000000"
    using block_small_second [OF small, of pl] by (simp add: arrived_def f_def)
  have "parse_tx pl pt (submit_tx_entries ft (tx_carried tx)) =
      resubmitted (case pt (ft zero_time) of Some t \<Rightarrow> t | None \<Rightarrow> zero_time) (tx_carried tx)" if "tx \<in> set (blk_Txs b)" for tx
    using small that parse_submit_tx [of "tx_carried tx" pl pt ft] by (simp add: block_small_def) (simp add: tx_carried_def)
  then show "\<exists>t. blk_Txs (arrived pl pt ft f) = map (\<lambda>tx. resubmitted t (tx_carried tx)) (blk_Txs b)"
    by (intro exI [of _ "case pt (ft zero_time) of Some t \<Rightarrow> t | None \<Rightarrow> zero_time"])
      (simp add: arrived_def f_def)
qed

lemma hash_head_work: "hash_head f < mining_target (bh_Difficulty (blk_Header f)) \<Longrightarrow> ValidateProofOfWorkV2 f"
  by (simp add: ValidateProofOfWorkV2_def hash_head_def mining_target_def)

text \<open>The template the node hands out for a wallet it can read, with the clock and map orders of that request.\<close>

definition template_of :: "(client_request \<Rightarrow> rpc_env) \<Rightarrow> string \<Rightarrow> 's chain \<Rightarrow> go_panic + block option" where
  "template_of env wallet c =
     (let e = env (template_request wallet) in
      case parse_miner wallet of
        Inl _ \<Rightarrow> Inr None
      | Inr a \<Rightarrow> CreateNewBlockV2 (ev_platform e) (ev_pool_order e) (ev_now_reward e) (ev_now_header e) a [] c)"

lemma template_params: "rq_Params (as_request (template_request wallet)) = JObj [(''miner'', JStr wallet)]"
  by (simp add: as_request_def template_request_def)

lemma node_template_of:
  assumes "template_of env wallet c = Inr (Some b)" and "GetBestBlock c = Some p"
  shows "node_call ps env (template_request wallet) c =
    (c, Inr (as_answer (rpc_ok (as_request (template_request wallet)) (template_json b))))"
  using assms
  by (cases "parse_miner wallet")
    (simp_all add: template_of_def node_template handleCreateBlockTemplateV2_def template_params Let_def)

lemma round_accepted:
  assumes template: "template_of env wallet c = Inr (Some b)" "GetBestBlock c = Some p"
    and small: "block_small b"
    and time: "bh_Timestamp (blk_Header p) \<le> bh_Timestamp (blk_Header b) div 1000000000 * 1000000000"
    and head: "hash_head (with_nonce n (work_block a b)) < mining_target (bh_Difficulty (blk_Header b))"
  shows "validateBlockV2 (arrived pl pt ft (with_nonce n (work_block a b))) c = Inr ()"
proof -
  let ?f = "with_nonce n (work_block a b)"
  have p: "ch_bestBlock c = Some p" using template(2) by (simp add: GetBestBlock_def)
  obtain m pl' ord t1 t2 where "CreateNewBlockV2 pl' ord t1 t2 m [] c = Inr (Some b)"
    using template(1) by (cases "parse_miner wallet") (auto simp: template_of_def Let_def)
  then obtain d where hdr: "blk_Header b = \<lparr>bh_ParentHash = blk_Hash p, bh_Number = bh_Number (blk_Header p) + 1,
       bh_Timestamp = t2, bh_Difficulty = d, bh_Miner = m, bh_Nonce = 0,
       bh_MerkleRoot = 0, bh_TxCount = of_nat (length (blk_Txs b)), bh_NetworkFee = 0, bh_TreasuryFee = 0\<rparr>"
    by (rule CreateNewBlockV2_shape [OF _ p])
  have "ValidateProofOfWorkV2 ?f" using head by (intro hash_head_work) simp
  moreover have "ValidateProofOfWorkV2 (arrived pl pt ft ?f) = ValidateProofOfWorkV2 ?f"
    by (rule PoWV2_cong) (simp_all add: arrived_work [OF small])
  ultimately have "extends p (arrived pl pt ft ?f)"
    using time by (simp add: extends_def arrived_work [OF small] hdr)
  then show ?thesis by (simp add: validateBlockV2_iff [OF p])
qed

text \<open>What a round is once the template is there and still stands.\<close>

lemma template_on_best:
  assumes "template_of env wallet c = Inr (Some b)" "GetBestBlock c = Some p"
  obtains pl ord t1 t2 m where "CreateNewBlockV2 pl ord t1 t2 m [] c = Inr (Some b)"
    "bh_Number (blk_Header b) = bh_Number (blk_Header p) + 1" "bh_ParentHash (blk_Header b) = blk_Hash p"
proof -
  have p: "ch_bestBlock c = Some p" using assms(2) by (simp add: GetBestBlock_def)
  obtain m pl ord t1 t2 where cnb: "CreateNewBlockV2 pl ord t1 t2 m [] c = Inr (Some b)"
    using assms(1) by (cases "parse_miner wallet") (auto simp: template_of_def Let_def)
  have "bh_Number (blk_Header b) = bh_Number (blk_Header p) + 1" "bh_ParentHash (blk_Header b) = blk_Hash p"
    by (rule CreateNewBlockV2_shape [OF cnb p], simp)+
  with cnb show thesis by (rule that)
qed

lemma round_eq:
  fixes ps :: "('s, 'e) persister" and c :: "'s chain" and b p :: block
  assumes template: "template_of env wallet c = Inr (Some b)" "GetBestBlock c = Some p"
    and wallet: "parseAddress wallet = Some a"
    and height: "GetHeight c = bh_Number (blk_Header p)" "unat (GetHeight c) < 2 ^ 53"
    and small: "block_small b"
  shows "mineBlock pl pt ft stopped seconds now (node_call ps env) wallet st c =
      (case mine_nonces stopped seconds (mining_target (bh_Difficulty (blk_Header b))) (work_block a b) 0 0 st of
         None \<Rightarrow> None
       | Some (st', None) \<Rightarrow> Some (c, st', Stopped)
       | Some (st', Some found) \<Rightarrow>
           (let (w4, answer) = node_call ps env (submit_request ft found) c
            in Some (w4, found_stats now st', Submitted found (client_AddBlock answer))))"
proof -
  have number: "bh_Number (blk_Header b) = GetHeight c + 1" and parent: "bh_ParentHash (blk_Header b) = blk_Hash p"
    by (rule template_on_best [OF template], simp add: height(1))+
  have fresh: "\<not> bh_Number (blk_Header b) \<le> GetHeight c"
  proof -
    have "unat (GetHeight c + 1) = Suc (unat (GetHeight c))"
      using height(2) by (simp add: unat_word_ariths)
    then show ?thesis by (simp add: number word_le_nat_alt)
  qed
  have create: "client_CreateNewBlock pl pt a (Inr (as_answer (rpc_ok (as_request (template_request wallet)) (template_json b)))) = Some (work_block a b)"
    by (rule client_CreateNewBlock_template [OF small]) (simp_all add: wire_template)
  show ?thesis
    using fresh
    by (simp add: mineBlock_def wallet node_template_of [OF template] create node_getHeight
        node_getBestBlock [OF template(2)] getCurrentHeight_node [OF height(2)] getBestBlock_node parent
        del: answer_ok)
qed


definition zero_wallet :: string where
  "zero_wallet = replicate 40 CHR ''0''"

lemma zero_wallet_hex: "zero_wallet = hex_encode (addr_bytes 0)"
  by (simp add: zero_wallet_def addr_bytes_def hex_encode_def replicate_eval be_put_eval) (simp add: hex_digit_def)

lemma zero_wallet_reads: "parse_miner zero_wallet = Inr 0" "parseAddress zero_wallet = Some 0"
proof -
  have len: "length zero_wallet = 40" by (simp add: zero_wallet_def)
  have pre: "\<not> HasPrefix zero_wallet ''kalon1''" by (simp add: zero_wallet_def replicate_eval HasPrefix_def)
  show "parse_miner zero_wallet = Inr 0" "parseAddress zero_wallet = Some 0"
    using len pre by (simp_all add: parse_miner_def parseAddress_def zero_wallet_hex)
qed

definition mining_chain :: "unit chain" where
  "mining_chain = one_block_chain\<lparr>ch_height := 1\<rparr>"

lemma mining_chain_template:
  "\<exists>b. template_of (\<lambda>_. sample_env) zero_wallet mining_chain = Inr (Some b) \<and> block_small b \<and>
     bh_Difficulty (blk_Header b) = 20 \<and> bh_Timestamp (blk_Header b) = 1700000001 * 1000000000 \<and>
     blk_Header (with_nonce 962505 (work_block 0 b)) = mined_header"
proof -
  have d: "CalculateDifficulty zero_platform testnet_genesis 2 (Some first_block) = Inr 20"
    by (simp add: CalculateDifficulty_def Let_def testnet_genesis_def first_block_header)
  then obtain b where b: "CreateNewBlockV2 zero_platform [] 0 (1700000001 * 1000000000) 0 [] mining_chain = Inr (Some b)"
    by (simp add: CreateNewBlockV2_def mining_chain_def one_block_chain_def first_block_header Let_def)
  moreover have "calculateBlockReward zero_platform 2 mining_chain = 5000000"
    using u64_of_holds_nat [OF five_micro, of zero_platform]
    by (simp add: calculateBlockReward_def mining_chain_def one_block_chain_def testnet_genesis_def)
  ultimately have "bh_Difficulty (blk_Header b) = 20" "bh_Number (blk_Header b) = 2" "bh_ParentHash (blk_Header b) = 42"
      "bh_Timestamp (blk_Header b) = 1700000001 * 1000000000" "\<forall>tx\<in>set (blk_Txs b). tx_small tx" "length (blk_Txs b) = 1"
    using d by (auto simp: CreateNewBlockV2_def mining_chain_def one_block_chain_def first_block_header Let_def
        GetPendingTransactions_def createBlockRewardTransaction_def tx_small_def)
  then show ?thesis
    using b by (intro exI [of _ b])
      (simp add: template_of_def zero_wallet_reads sample_env_def block_small_def with_nonce_def work_block_def
        mined_header_def Let_def)
qed

lemma mined_hash_head:
  "blk_Header (with_nonce n b) = mined_header \<Longrightarrow> hash_head (with_nonce n b) < mining_target 20"
  by (simp add: hash_head_def with_nonce_hash Block_CalculateHash_def Sum256_def hash_bytes_hash_of mined_hash_bytes
      mining_target_def)


subsection \<open>A wallet in Bech32\<close>

text \<open>
  A miner started with the Bech32 text of an address, the form wallets show, never mines: it decodes
  the text itself but sends it as it is, and the node takes only hexadecimal digits after
  \<^verbatim>\<open>kalon1\<close>. Every round ends without a template and changes nothing.
\<close>

theorem bech32_wallet_never_mines:
  "\<exists>s. AddressToBech32 a ''kalon'' = Some (Inr s) \<and> parseAddress s = Some a \<and>
     mineBlock pl pt ft stopped seconds now (node_call ps env) s st c = Some (c, st, NoTemplate)"
proof -
  obtain t where t: "bech_Encode ''kalon'' (addr_bytes a) = Some (Inr (''kalon1'' @ t))"
      "bech_Decode (''kalon1'' @ t) = Some (Inr (''kalon'', addr_bytes a))" "length t = 38"
    by (rule kalon_text)
  let ?s = "''kalon1'' @ t"
  have pre: "HasPrefix ?s ''kalon1''" "TrimPrefix ?s ''kalon1'' = t"
    by (rule HasPrefix_append, rule TrimPrefix_append)
  have "parseAddress ?s = Some a"
    using pre(1) t(2) by (simp add: parseAddress_def DecodeBech32_def addrc.dec_enc Let_def)
  moreover have "parse_miner ?s = Inl ''Invalid miner address format''"
    using pre t(3) by (simp add: parse_miner_def)
  then have "node_call ps env (template_request ?s) c =
      (c, Inr (as_answer (rpc_fail (as_request (template_request ?s)) (- 32602) ''Invalid miner address format'' NoData)))"
    unfolding node_template handleCreateBlockTemplateV2_def by (simp add: template_params)
  then have "mineBlock pl pt ft stopped seconds now (node_call ps env) ?s st c = Some (c, st, NoTemplate)"
    unfolding mineBlock_def \<open>parseAddress ?s = Some a\<close> by (simp add: client_CreateNewBlock_def)
  ultimately show ?thesis using t(1) by (simp add: AddressToBech32_def)
qed

text \<open>A transfer of the coin \<open>(7, 0)\<close>, in a block the miner submits.\<close>

definition spending_block :: block where
  "spending_block = zero_block\<lparr>blk_Txs := [zero_tx\<lparr>tx_Hash := 8,
     tx_Inputs := [\<lparr>in_PreviousTxHash = 7, in_Index = 0, in_Signature = []\<rparr>]\<rparr>]\<rparr>"

definition coin_chain :: "unit chain" where
  "coin_chain = one_block_chain\<lparr>ch_utxoSet := AddUTXO 7 0 100 5 42 NewUTXOSet\<rparr>"

lemma coin_unspent: "unspent (ch_utxoSet coin_chain) (7, 0) = Some (100, 5, 42)"
  using utxo_tab.look_ins [of "((7, 0), (100, 5, 42))" NewUTXOSet] by (simp add: coin_chain_def del: unspent.simps)

theorem miner_never_spends_witness:
  "unspent (ch_utxoSet (fst (node_call no_persister (\<lambda>_. sample_env) (submit_request (\<lambda>_. []) spending_block) coin_chain))) (7, 0) \<noteq> None"
  using miner_never_spends [OF surjective_pairing] coin_unspent by fastforce

end
