(* ===== verification/Mining.thy ===== *)
theory Mining
  imports Templates
begin

text \<open>
  The mining library \<^verbatim>\<open>mining/\<close>: \<^verbatim>\<open>randomx.go\<close>, a hash of sixteen rounds and the workers
  that divide a range of nonces, and \<^verbatim>\<open>miner.go\<close>, the coordinator that fetches blocks to mine and hands
  in what the workers find. Hashes are lists of 32 bytes here.
\<close>

subsection \<open>The hash\<close>

text \<open>\<^verbatim>\<open>createHeaderData\<close> of the header, in the order of the appends.\<close>

definition createHeaderData :: "block_header \<Rightarrow> bytes" where
  "createHeaderData h =
     hash_bytes (bh_ParentHash h) @ be_put 8 (bh_Number h) @ be_put 8 (unix_u64 (bh_Timestamp h)) @
     be_put 8 (bh_Difficulty h) @ addr_bytes (bh_Miner h) @ be_put 8 (bh_Nonce h) @ hash_bytes (bh_MerkleRoot h) @
     be_put 4 (bh_TxCount h) @ be_put 8 (bh_NetworkFee h) @ be_put 8 (bh_TreasuryFee h)"

text \<open>The loop body of \<^verbatim>\<open>memoryHardRound\<close>; offsets and the round are not negative, and \<^verbatim>\<open>byte(n)\<close> keeps
  the low eight bits.\<close>

definition memory_access :: "nat \<Rightarrow> nat \<Rightarrow> bytes \<Rightarrow> bytes" where
  "memory_access r i hash =
     (let offset = (r * 8 + i) mod 32;
          hash = hash[offset := hash ! offset XOR of_nat (r + i)];
          cacheIndex = (unat (hash ! offset) + r) mod 256
      in hash[offset := hash ! offset XOR of_nat cacheIndex])"

definition memoryHardRound :: "bytes \<Rightarrow> nat \<Rightarrow> bytes" where
  "memoryHardRound hash r = fold (memory_access r) [0..<8] hash"

definition mix_byte :: "bytes \<Rightarrow> nat \<Rightarrow> nat \<Rightarrow> bytes \<Rightarrow> bytes" where
  "mix_byte data r i hash = hash[i := hash ! i XOR data ! ((r * 32 + i) mod length data)]"

text \<open>One 32-bit word at \<open>i\<close>: the round is mixed in, and the word rotated left by one.\<close>

definition mix_word :: "nat \<Rightarrow> nat \<Rightarrow> bytes \<Rightarrow> bytes" where
  "mix_word r i hash =
     (let word = (be_get (take 4 (drop i hash)) :: u32);
          word = word XOR push_bit (i mod 8) (of_nat r);
          word = push_bit 1 word OR drop_bit 31 word
      in take i hash @ be_put 4 word @ drop (i + 4) hash)"

definition cryptographicMix :: "bytes \<Rightarrow> bytes \<Rightarrow> nat \<Rightarrow> bytes" where
  "cryptographicMix hash data r =
     (let hash = (if 0 < length data then fold (mix_byte data r) [0..<32] hash else hash)
      in fold (mix_word r) [0, 4, 8, 12, 16, 20, 24, 28] hash)"

text \<open>\<^verbatim>\<open>result[(i + amount) % 32] = hash[i]\<close> for every \<open>i\<close>, into an array of zeros.\<close>

definition rotateHash :: "bytes \<Rightarrow> nat \<Rightarrow> bytes" where
  "rotateHash hash amount =
     (let amount = amount mod 32 in
      if amount = 0 then hash
      else fold (\<lambda>i result. result[(i + amount) mod 32 := hash ! i]) [0..<32] (replicate 32 0))"

definition bitManipulation :: "bytes \<Rightarrow> nat \<Rightarrow> bytes" where
  "bitManipulation hash r =
     fold (\<lambda>i hash. if (i + r) mod 3 = 0 then hash[i := hash ! i XOR 0xFF] else hash) [0..<32]
       (rotateHash hash (r mod 7 + 1))"

definition hash_round :: "bytes \<Rightarrow> nat \<Rightarrow> bytes \<Rightarrow> bytes" where
  "hash_round data r hash = sha256 (bitManipulation (cryptographicMix (memoryHardRound hash r) data r) r)"

definition randomXHash :: "bytes \<Rightarrow> bytes" where
  "randomXHash data = fold (hash_round data) [0..<16] (sha256 data)"

definition calculateHash :: "block_header \<Rightarrow> bytes" where
  "calculateHash header = randomXHash (createHeaderData header)"

subsection \<open>Targets\<close>

text \<open>An index past the end of the target panics.\<close>

fun isValidHash :: "bytes \<Rightarrow> bytes \<Rightarrow> go_panic + bool" where
  "isValidHash [] target = Inr True"
| "isValidHash (h # hs) [] = Inl IndexOutOfRange"
| "isValidHash (h # hs) (t # ts) = (if h < t then Inr True else if t < h then Inr False else isValidHash hs ts)"

definition rx_CalculateTarget :: "u64 \<Rightarrow> bytes" where
  "rx_CalculateTarget difficulty =
     (if difficulty = 0 then replicate 32 0
      else
        (let targetValue = 0x100000000 div difficulty;
             targetValue = (if targetValue = 0 then 1 else targetValue)
         in replicate 24 0 @ be_put 8 targetValue))"

subsection \<open>Workers\<close>

record mining_block =
  mb_Header :: block_header
  mb_Target :: bytes
  mb_StartNonce :: u64
  mb_EndNonce :: u64

record hash_result =
  hr_Hash :: bytes
  hr_Nonce :: u64
  hr_Found :: bool

text \<open>The first nonce of a worker and the one it stops before.\<close>

definition worker_range :: "int \<Rightarrow> nat \<Rightarrow> mining_block \<Rightarrow> go_panic + u64 \<times> u64" where
  "worker_range threads workerID b =
     (if (word_of_int threads :: u64) = 0 then Inl DivideByZero
      else
        (let nonceRange = (mb_EndNonce b - mb_StartNonce b) div word_of_int threads;
             startNonce = mb_StartNonce b + of_nat workerID * nonceRange;
             endNonce = startNonce + nonceRange
         in Inr (startNonce, if int workerID = threads - 1 then mb_EndNonce b else endNonce)))"

datatype search = Exhausted | StopSignal | SearchPanic go_panic | Found hash_result

text \<open>
  The loop over nonces: \<open>stopped i\<close> is the stop channel at the \<open>i\<close>th round. Along with the outcome
  comes the number of hashes tried, by which \<^verbatim>\<open>updateHashStats\<close> raises the count.
\<close>

function search_nonces :: "(nat \<Rightarrow> bool) \<Rightarrow> mining_block \<Rightarrow> u64 \<Rightarrow> u64 \<Rightarrow> nat \<Rightarrow> search \<times> nat" where
  "search_nonces stopped b endNonce nonce i =
     (if \<not> nonce < endNonce then (Exhausted, i)
      else if stopped i then (StopSignal, i)
      else
        (let hash = calculateHash ((mb_Header b)\<lparr>bh_Nonce := nonce\<rparr>)
         in case isValidHash hash (mb_Target b) of
              Inl e \<Rightarrow> (SearchPanic e, Suc i)
            | Inr True \<Rightarrow> (Found \<lparr>hr_Hash = hash, hr_Nonce = nonce, hr_Found = True\<rparr>, Suc i)
            | Inr False \<Rightarrow> search_nonces stopped b endNonce (nonce + 1) (Suc i)))"
  by pat_completeness auto
termination
proof (relation "measure (\<lambda>(stopped, b, endNonce, nonce, i). unat (endNonce - nonce))")
  fix stopped :: "nat \<Rightarrow> bool" and b :: mining_block and endNonce nonce :: u64 and i :: nat
  assume "\<not> \<not> nonce < endNonce"
  then have "unat (endNonce - (nonce + 1)) < unat (endNonce - nonce)"
    by (simp add: unat_minus_one word_less_nat_alt diff_diff_eq [symmetric] unat_sub_if') linarith
  then show "((stopped, b, endNonce, nonce + 1, Suc i), (stopped, b, endNonce, nonce, i))
      \<in> measure (\<lambda>(stopped, b, endNonce, nonce, i). unat (endNonce - nonce))"
    by simp
qed simp

declare search_nonces.simps [simp del]

subsection \<open>The RandomX miner\<close>

text \<open>The two buffered channels are lists of at most 100 and 10 values; the stop channel is its being closed.\<close>

record rx_miner =
  rx_threads :: int
  rx_running :: bool
  rx_stopClosed :: bool
  rx_hashChan :: "hash_result list"
  rx_blockChan :: "mining_block list"
  rx_HashesPerSecond :: f64
  rx_TotalHashes :: u64
  rx_BlocksFound :: u64
  rx_StartTime :: gotime
  rx_LastHashTime :: gotime

definition NewRandomXMiner :: "int \<Rightarrow> gotime \<Rightarrow> int \<Rightarrow> rx_miner" where
  "NewRandomXMiner cpus now threads =
     \<lparr>rx_threads = (if threads \<le> 0 then cpus else threads), rx_running = False, rx_stopClosed = False, rx_hashChan = [],
      rx_blockChan = [], rx_HashesPerSecond = f64_of_nat 0, rx_TotalHashes = 0, rx_BlocksFound = 0,
      rx_StartTime = now, rx_LastHashTime = zero_time\<rparr>"

text \<open>The workers started are those numbered below the second component.\<close>

definition rx_Start :: "gotime \<Rightarrow> rx_miner \<Rightarrow> string + rx_miner \<times> nat" where
  "rx_Start now rm =
     (if rx_running rm then Inl ''miner is already running''
      else Inr (rm\<lparr>rx_running := True, rx_stopClosed := False, rx_StartTime := now\<rparr>, nat (rx_threads rm)))"

definition rx_Stop :: "rx_miner \<Rightarrow> rx_miner" where
  "rx_Stop rm = (if \<not> rx_running rm then rm else rm\<lparr>rx_running := False, rx_stopClosed := True\<rparr>)"

definition rx_SetThreads :: "int \<Rightarrow> rx_miner \<Rightarrow> rx_miner" where
  "rx_SetThreads threads rm = rm\<lparr>rx_threads := threads\<rparr>"

definition rx_MineBlock :: "mining_block \<Rightarrow> rx_miner \<Rightarrow> rx_miner" where
  "rx_MineBlock b rm = (if length (rx_blockChan rm) < 10 then rm\<lparr>rx_blockChan := rx_blockChan rm @ [b]\<rparr> else rm)"

definition count_hashes :: "nat \<Rightarrow> gotime \<Rightarrow> rx_miner \<Rightarrow> rx_miner" where
  "count_hashes k now rm =
     (if k = 0 then rm else rm\<lparr>rx_TotalHashes := rx_TotalHashes rm + of_nat k, rx_LastHashTime := now\<rparr>)"

text \<open>A worker whose result finds the channel full waits until the miner is stopped or someone reads;
  the value here is that of the first case.\<close>

definition rx_mineBlock :: "(nat \<Rightarrow> bool) \<Rightarrow> gotime \<Rightarrow> mining_block \<Rightarrow> nat \<Rightarrow> rx_miner \<Rightarrow> go_panic + rx_miner" where
  "rx_mineBlock stopped now b workerID rm =
     (case worker_range (rx_threads rm) workerID b of
        Inl e \<Rightarrow> Inl e
      | Inr (startNonce, endNonce) \<Rightarrow>
          (let (outcome, k) = search_nonces stopped b endNonce startNonce 0;
               rm = count_hashes k now rm
           in case outcome of
                SearchPanic e \<Rightarrow> Inl e
              | Found r \<Rightarrow>
                  Inr (if length (rx_hashChan rm) < 100
                       then rm\<lparr>rx_hashChan := rx_hashChan rm @ [r], rx_BlocksFound := rx_BlocksFound rm + 1\<rparr> else rm)
              | _ \<Rightarrow> Inr rm))"

text \<open>
  A turn of \<^verbatim>\<open>miningWorker\<close>: with several channels ready the choice is open. \<open>None\<close> as the
  second component is a worker that has returned.
\<close>

inductive worker_turn :: "nat \<Rightarrow> rx_miner \<times> mining_block option \<Rightarrow> rx_miner \<times> mining_block option option \<Rightarrow> bool" for w where
  turn_stop: "rx_stopClosed rm \<Longrightarrow> worker_turn w (rm, cur) (rm, None)"
| turn_take: "rx_blockChan rm = b # bs \<Longrightarrow> worker_turn w (rm, cur) (rm\<lparr>rx_blockChan := bs\<rparr>, Some (Some b))"
| turn_mine: "\<not> rx_stopClosed rm \<Longrightarrow> rx_blockChan rm = [] \<Longrightarrow> rx_mineBlock stopped now b w rm = Inr rm' \<Longrightarrow>
    worker_turn w (rm, Some b) (rm', Some (Some b))"
| turn_idle: "\<not> rx_stopClosed rm \<Longrightarrow> rx_blockChan rm = [] \<Longrightarrow> worker_turn w (rm, None) (rm, Some None)"

definition EstimateHashRate :: "f64 \<Rightarrow> rx_miner \<Rightarrow> f64" where
  "EstimateHashRate elapsed rm =
     (if rx_TotalHashes rm = 0 then f64_of_nat 0
      else if f64_is_zero elapsed then f64_of_nat 0
      else f64_div (f64_of_u64 (rx_TotalHashes rm)) elapsed)"

text \<open>A tick of \<^verbatim>\<open>updateStats\<close>, with the count at the last tick.\<close>

definition rx_tick :: "u64 \<Rightarrow> rx_miner \<Rightarrow> u64 \<times> rx_miner" where
  "rx_tick lastHashes rm =
     (rx_TotalHashes rm, rm\<lparr>rx_HashesPerSecond := f64_of_u64 (rx_TotalHashes rm - lastHashes)\<rparr>)"

subsection \<open>The coordinator\<close>

text \<open>
  The interfaces \<^verbatim>\<open>Blockchain\<close>, \<^verbatim>\<open>Consensus\<close> and \<^verbatim>\<open>Wallet\<close> of
  \<^verbatim>\<open>miner.go\<close>: a state \<open>'w\<close> behind them that only \<open>AddBlock\<close> changes.
\<close>

record ('w, 'e) mining_backend =
  be_GetBestBlock :: "'w \<Rightarrow> block option"
  be_CreateNewBlock :: "address \<Rightarrow> transaction list \<Rightarrow> 'w \<Rightarrow> block option"
  be_AddBlock :: "block \<Rightarrow> 'w \<Rightarrow> 'w \<times> ('e + unit)"
  be_CalculateDifficulty :: "u64 \<Rightarrow> block \<Rightarrow> 'w \<Rightarrow> u64"
  be_CalculateTarget :: "u64 \<Rightarrow> bytes"
  be_ValidateBlock :: "block \<Rightarrow> block option \<Rightarrow> 'w \<Rightarrow> 'e + unit"
  be_GetAddress :: address

record co_miner =
  co_rx :: rx_miner
  co_running :: bool
  co_StartTime :: gotime
  co_TotalHashes :: u64
  co_BlocksFound :: u64
  co_CurrentHashRate :: f64
  co_LastBlockTime :: gotime
  co_Difficulty :: u64
  co_Target :: bytes

definition NewMiner :: "int \<Rightarrow> gotime \<Rightarrow> gotime \<Rightarrow> int \<Rightarrow> co_miner" where
  "NewMiner cpus now_rx now threads =
     \<lparr>co_rx = NewRandomXMiner cpus now_rx threads, co_running = False, co_StartTime = now, co_TotalHashes = 0,
      co_BlocksFound = 0, co_CurrentHashRate = f64_of_nat 0, co_LastBlockTime = zero_time, co_Difficulty = 0,
      co_Target = []\<rparr>"

definition co_Start :: "gotime \<Rightarrow> co_miner \<Rightarrow> string + co_miner" where
  "co_Start now m =
     (if co_running m then Inl ''miner is already running''
      else
        (case rx_Start now (co_rx m) of
           Inl e \<Rightarrow> Inl (''failed to start RandomX miner: '' @ e)
         | Inr (rm, _) \<Rightarrow> Inr (m\<lparr>co_rx := rm, co_running := True\<rparr>)))"

definition co_Stop :: "co_miner \<Rightarrow> co_miner" where
  "co_Stop m = (if \<not> co_running m then m else m\<lparr>co_running := False, co_rx := rx_Stop (co_rx m)\<rparr>)"

definition co_SetThreads :: "int \<Rightarrow> co_miner \<Rightarrow> co_miner" where
  "co_SetThreads threads m = m\<lparr>co_rx := rx_SetThreads threads (co_rx m)\<rparr>"

definition createMiningBlock :: "('w, 'e) mining_backend \<Rightarrow> 'w \<Rightarrow> co_miner \<Rightarrow> co_miner \<times> mining_block option" where
  "createMiningBlock be w m =
     (case be_GetBestBlock be w of
        None \<Rightarrow> (m, None)
      | Some bestBlock \<Rightarrow>
          (case be_CreateNewBlock be (be_GetAddress be) [] w of
             None \<Rightarrow> (m, None)
           | Some newBlock \<Rightarrow>
               (let difficulty = be_CalculateDifficulty be (bh_Number (blk_Header newBlock)) bestBlock w;
                    target = be_CalculateTarget be difficulty
                in (m\<lparr>co_Difficulty := difficulty, co_Target := target\<rparr>,
                    Some \<lparr>mb_Header = blk_Header newBlock, mb_Target = target, mb_StartNonce = 0, mb_EndNonce = NOT 0\<rparr>))))"

text \<open>A turn of \<^verbatim>\<open>miningLoop\<close> of a running miner.\<close>

definition mining_turn :: "('w, 'e) mining_backend \<Rightarrow> 'w \<Rightarrow> co_miner \<Rightarrow> co_miner" where
  "mining_turn be w m =
     (case createMiningBlock be w m of
        (m, None) \<Rightarrow> m
      | (m, Some b) \<Rightarrow> m\<lparr>co_rx := rx_MineBlock b (co_rx m)\<rparr>)"

datatype 'e found_outcome = NoNewBlock | RejectedBlock 'e | AddFailed 'e | AddedBlock block

definition handleFoundBlock ::
  "('w, 'e) mining_backend \<Rightarrow> gotime \<Rightarrow> hash_result \<Rightarrow> 'w \<times> co_miner \<Rightarrow> ('w \<times> co_miner) \<times> 'e found_outcome" where
  "handleFoundBlock be now r wm =
     (let (w, m) = wm;
          m = m\<lparr>co_BlocksFound := co_BlocksFound m + 1, co_LastBlockTime := now\<rparr>;
          bestBlock = be_GetBestBlock be w
      in case be_CreateNewBlock be (be_GetAddress be) [] w of
           None \<Rightarrow> ((w, m), NoNewBlock)
         | Some newBlock \<Rightarrow>
             (let newBlock = newBlock\<lparr>blk_Header := (blk_Header newBlock)\<lparr>bh_Nonce := hr_Nonce r\<rparr>,
                    blk_Hash := hash_of (hr_Hash r)\<rparr>
              in case be_ValidateBlock be newBlock bestBlock w of
                   Inl e \<Rightarrow> ((w, m), RejectedBlock e)
                 | Inr _ \<Rightarrow>
                     (case be_AddBlock be newBlock w of
                        (w', Inl e) \<Rightarrow> ((w', m), AddFailed e)
                      | (w', Inr _) \<Rightarrow> ((w', m), AddedBlock newBlock))))"

text \<open>A turn of \<^verbatim>\<open>handleMiningResults\<close> that finds a result; every result a worker sends is a found one.\<close>

definition results_turn ::
  "('w, 'e) mining_backend \<Rightarrow> gotime \<Rightarrow> 'w \<times> co_miner \<Rightarrow> (('w \<times> co_miner) \<times> 'e found_outcome) option" where
  "results_turn be now wm =
     (case rx_hashChan (co_rx (snd wm)) of
        [] \<Rightarrow> None
      | r # rs \<Rightarrow>
          (let wm = (fst wm, (snd wm)\<lparr>co_rx := (co_rx (snd wm))\<lparr>rx_hashChan := rs\<rparr>\<rparr>)
           in if hr_Found r then Some (handleFoundBlock be now r wm) else None))"

definition co_tick :: "co_miner \<Rightarrow> co_miner" where
  "co_tick m = m\<lparr>co_TotalHashes := rx_TotalHashes (co_rx m), co_CurrentHashRate := rx_HashesPerSecond (co_rx m)\<rparr>"

text \<open>\<^verbatim>\<open>time.Duration(x) * time.Second\<close>, a product of 64-bit integers.\<close>

definition EstimateTimeToBlock :: "platform \<Rightarrow> co_miner \<Rightarrow> int" where
  "EstimateTimeToBlock pl m =
     (let hashRate = co_CurrentHashRate m in
      if f64_is_zero hashRate then 0
      else if co_Difficulty m = 0 then 0
      else
        (let estimatedHashes = f64_mul (f64_of_u64 (co_Difficulty m)) (f64_of_nat 2);
             estimatedSeconds = f64_div estimatedHashes hashRate
         in sint (word_of_int (int_of_f64 pl estimatedSeconds) * 1000000000 :: 64 word)))"

subsection \<open>The ranges of the workers\<close>

lemma equal_parts:
  fixes S E t n :: nat
  assumes "0 < t" and "S \<le> n" and "n < E"
  defines "R \<equiv> (E - S) div t"
  shows "\<exists>!w. w < t \<and> S + w * R \<le> n \<and> n < (if Suc w = t then E else S + w * R + R)"
proof (cases "S + (t - 1) * R \<le> n")
  case True
  have "w = t - 1" if "w < t" "n < (if Suc w = t then E else S + w * R + R)" for w
  proof (rule ccontr)
    assume "w \<noteq> t - 1"
    with that(1) have "Suc w \<noteq> t" "Suc w \<le> t - 1" by simp_all
    with that(2) have "n < S + Suc w * R" by simp
    moreover have "Suc w * R \<le> (t - 1) * R" using \<open>Suc w \<le> t - 1\<close> by (rule mult_le_mono1)
    ultimately show False using True by linarith
  qed
  with True assms(1,3) show ?thesis by (intro ex1I [of _ "t - 1"]) auto
next
  case False
  then have R: "0 < R" by (cases "R = 0") (use assms(2) in auto)
  define w where "w = (n - S) div R"
  have w: "S + w * R \<le> n" "n < S + w * R + R"
    using assms(2) R div_mult_mod_eq [of "n - S" R] mod_less_divisor [OF R, of "n - S"] unfolding w_def by linarith+
  have "w < t - 1"
  proof (rule ccontr)
    assume "\<not> w < t - 1"
    then have "(t - 1) * R \<le> w * R" by (intro mult_le_mono1) simp
    with w(1) False show False by linarith
  qed
  have "v = w" if "S + v * R \<le> n" "n < (if Suc v = t then E else S + v * R + R)" "v < t" for v
  proof -
    have "Suc v \<noteq> t"
    proof
      assume "Suc v = t"
      then have "v = t - 1" by simp
      with that(1) False show False by simp
    qed
    with that(2) have "n < S + v * R + R" by simp
    with that(1) have "R * v \<le> n - S" "n - S < R * Suc v" by (simp_all add: mult.commute)
    then have "(n - S) div R = v" by (rule div_nat_eqI)
    then show ?thesis by (simp add: w_def)
  qed
  moreover have "w < t \<and> S + w * R \<le> n \<and> n < (if Suc w = t then E else S + w * R + R)"
    using w \<open>w < t - 1\<close> by (auto split: if_splits)
  ultimately show ?thesis by blast
qed

lemma unat_of_nat_small: "n < 2 ^ 64 \<Longrightarrow> unat (of_nat n :: u64) = n"
  by (simp add: unat_of_nat take_bit_eq_mod)

lemma unat_threads:
  assumes "0 < threads" "threads < 2 ^ 63"
  shows "unat (word_of_int threads :: u64) = nat threads"
proof -
  have "(word_of_int threads :: u64) = of_nat (nat threads)" using assms(1) by simp
  moreover have "nat threads < 2 ^ 64" using assms by (simp add: nat_less_iff)
  ultimately show ?thesis by (simp only: unat_of_nat_small)
qed

text \<open>The range of a worker, in numbers that do not wrap.\<close>

lemma worker_range_unat:
  assumes "0 < threads" "threads < 2 ^ 63" "mb_StartNonce b \<le> mb_EndNonce b" "int w < threads"
  defines "R \<equiv> (unat (mb_EndNonce b) - unat (mb_StartNonce b)) div nat threads"
  obtains s e where "worker_range threads w b = Inr (s, e)" "unat s = unat (mb_StartNonce b) + w * R"
    "unat e = (if Suc w = nat threads then unat (mb_EndNonce b) else unat (mb_StartNonce b) + w * R + R)"
proof -
  let ?S = "unat (mb_StartNonce b)" and ?E = "unat (mb_EndNonce b)"
  let ?r = "(mb_EndNonce b - mb_StartNonce b) div word_of_int threads"
  have t: "unat (word_of_int threads :: u64) = nat threads" by (rule unat_threads [OF assms(1,2)])
  then have nz: "(word_of_int threads :: u64) \<noteq> 0" using assms(1) by (metis unat_0 zero_less_nat_eq less_irrefl)
  have r: "unat ?r = R" using assms(3) by (simp add: unat_div t R_def unat_sub)
  have le: "Suc w * R \<le> ?E - ?S"
  proof -
    have "Suc w * R \<le> nat threads * R" using assms(4) by (intro mult_le_mono1) simp
    also have "\<dots> \<le> ?E - ?S" unfolding R_def by (rule times_div_less_eq_dividend)
    finally show ?thesis .
  qed
  have E: "?E < 2 ^ 64" using unsigned_less [of "mb_EndNonce b"] by simp
  have SE: "?S \<le> ?E" using assms(3) by (simp add: word_le_nat_alt)
  have wR: "unat (of_nat w * ?r) = w * R"
  proof -
    have "w < 2 ^ 64" using assms(2,4) by simp
    then have "unat (of_nat w :: u64) = w" by (rule unat_of_nat_small)
    moreover have "w * R < 2 ^ 64" using le E by simp
    ultimately show ?thesis by (simp add: unat_mult_lem [THEN iffD1] r unat_word_ariths(2))
  qed
  have s: "unat (mb_StartNonce b + of_nat w * ?r) = ?S + w * R"
    using le E SE by (subst unat_add_small) (simp_all add: wR)
  have e: "unat (mb_StartNonce b + of_nat w * ?r + ?r) = ?S + w * R + R"
    using le E SE by (subst unat_add_small) (simp_all add: s r)
  show thesis
    using nz s e assms(4)
    by (intro that) (auto simp: worker_range_def Let_def)
qed

subsection \<open>What a search finds\<close>

lemma length_fold: "(\<And>x xs. length (f x xs) = length xs) \<Longrightarrow> length (fold f ys xs) = length xs"
  by (induction ys arbitrary: xs) simp_all

lemma isValidHash_le:
  "length hash \<le> length target \<Longrightarrow> isValidHash hash target = Inr (hash_le hash target)"
  by (induction hash target rule: hash_le.induct) simp_all

lemma length_calculateHash [simp]: "length (calculateHash h) = 32"
  by (simp add: calculateHash_def randomXHash_def hash_round_def upt_conv_Cons)

text \<open>A header with a nonce whose hash is not above the target.\<close>

definition solves :: "mining_block \<Rightarrow> u64 \<Rightarrow> bool" where
  "solves b nonce = hash_le (calculateHash ((mb_Header b)\<lparr>bh_Nonce := nonce\<rparr>)) (mb_Target b)"

definition solution :: "mining_block \<Rightarrow> u64 \<Rightarrow> hash_result" where
  "solution b nonce = \<lparr>hr_Hash = calculateHash ((mb_Header b)\<lparr>bh_Nonce := nonce\<rparr>), hr_Nonce = nonce, hr_Found = True\<rparr>"

lemma search_step:
  "32 \<le> length (mb_Target b) \<Longrightarrow> search_nonces (\<lambda>_. False) b e n i =
     (if \<not> n < e then (Exhausted, i) else if solves b n then (Found (solution b n), Suc i)
      else search_nonces (\<lambda>_. False) b e (n + 1) (Suc i))"
  by (subst search_nonces.simps) (simp add: isValidHash_le solves_def solution_def Let_def)

lemma unat_next:
  assumes "n < (e :: u64)"
  shows "unat (n + 1) = Suc (unat n)"
proof -
  have "unat e < 2 ^ 64" using unsigned_less [of e] by simp
  with assms show ?thesis by (subst unat_add_small) (simp_all add: word_less_nat_alt)
qed

text \<open>The search returns the least nonce of its range that solves the block, if there is one.\<close>

lemma search_result:
  assumes "32 \<le> length (mb_Target b)"
  shows "fst (search_nonces (\<lambda>_. False) b e n i) =
    (if \<exists>m. n \<le> m \<and> m < e \<and> solves b m
     then Found (solution b (LEAST m. n \<le> m \<and> m < e \<and> solves b m)) else Exhausted)"
proof (induction "unat e - unat n" arbitrary: n i rule: less_induct)
  case less
  note step = search_step [OF assms, of e n i]
  show ?case
  proof (cases "n < e")
    case False
    then show ?thesis using step by (auto simp: not_less)
  next
    case True
    show ?thesis
    proof (cases "solves b n")
      case True
      then have "(LEAST m. n \<le> m \<and> m < e \<and> solves b m) = n"
        using \<open>n < e\<close> by (intro Least_equality) auto
      then show ?thesis using True \<open>n < e\<close> step by auto
    next
      case False
      have "unat e - unat (n + 1) < unat e - unat n"
        using True by (simp add: unat_next [OF True] word_less_nat_alt)
      note IH = less.hyps [OF this, of "Suc i"]
      have "n + 1 \<le> m \<longleftrightarrow> n < m" for m
        using unat_next [OF True] by (simp add: word_le_nat_alt word_less_nat_alt Suc_le_eq)
      then have same: "n + 1 \<le> m \<and> m < e \<and> solves b m \<longleftrightarrow> n \<le> m \<and> m < e \<and> solves b m" for m
        using False by (auto simp: order.order_iff_strict)
      show ?thesis using IH unfolding same step by (simp only: True False if_True if_False not_True_eq_False)
    qed
  qed
qed


subsection \<open>Targets and the rounds of the hash\<close>

text \<open>
  The target of the mining library is the quotient of \<open>2 ^ 32\<close>, not of \<open>2 ^ 256\<close>, by the difficulty
  (at least one, and zero for difficulty zero): at every difficulty but one the first 28 of the 32 bytes
  of a valid hash are zero.
\<close>

theorem rx_target:
  assumes "length hash = 32"
  shows "isValidHash hash (rx_CalculateTarget d) =
      Inr (be_val hash \<le> (if d = 0 then 0 else max 1 (2 ^ 32 div unat d))) \<and>
    (d \<noteq> 1 \<and> isValidHash hash (rx_CalculateTarget d) = Inr True \<longrightarrow> be_val hash < 2 ^ 32)"
proof -
  have len: "length (rx_CalculateTarget d) = 32" by (simp add: rx_CalculateTarget_def Let_def)
  have v: "be_val (replicate 24 0 @ be_put 8 w) = unat (w :: u64)" for w
    by (simp add: be_val_append be_val_be_put_exact)
  have val: "be_val (rx_CalculateTarget d) = (if d = 0 then 0 else max 1 (2 ^ 32 div unat d))"
  proof -
    have q: "unat (0x100000000 div d) = 2 ^ 32 div unat d" by (simp add: unat_div)
    show ?thesis
    proof (cases "0x100000000 div d = 0")
      case True
      with q have "2 ^ 32 div unat d = 0" by simp
      with True show ?thesis by (simp add: rx_CalculateTarget_def v Let_def del: div_eq_0_iff)
    next
      case False
      then have "0 < unat (0x100000000 div d)" by (simp add: unat_gt_0)
      with q have "1 \<le> 2 ^ 32 div unat d" by simp
      with False q show ?thesis by (simp add: rx_CalculateTarget_def v Let_def max_absorb2)
    qed
  qed
  then have "isValidHash hash (rx_CalculateTarget d) = Inr (be_val hash \<le> (if d = 0 then 0 else max 1 (2 ^ 32 div unat d)))"
    using assms len by (simp add: isValidHash_le hash_le_be_val)
  moreover have "max 1 (2 ^ 32 div unat d) < (2::nat) ^ 32" if "d \<noteq> 0" "d \<noteq> 1"
  proof -
    have "unat d \<noteq> unat (0 :: u64)" "unat d \<noteq> unat (1 :: u64)" using that by (simp_all only: word_unat_eq_iff not_False_eq_True)
    then have "1 < unat d" by simp
    then have "2 ^ 32 div unat d < (2::nat) ^ 32" by (intro div_less_dividend) simp_all
    then show ?thesis by simp
  qed
  ultimately show ?thesis by (auto simp del: max_less_iff_conj)
qed

text \<open>
  The first round of the hash throws away the first eight bytes of the digest it starts from: in round
  zero the loop XORs each of them with itself. What the workers hash is, byte for byte, what the
  consensus hashes.
\<close>

theorem first_round_forgets:
  "createHeaderData h = header_preimage h \<and>
   memoryHardRound (sha256 data) 0 = replicate 8 0 @ drop 8 (sha256 data)"
proof -
  have step: "memory_access 0 i hash = hash[i := 0]" if "i < length hash" "i < 32" for i hash
    using that by (simp add: memory_access_def Let_def)
  have "fold (memory_access 0) [0..<k] hash = replicate k 0 @ drop k hash" if "k \<le> 32" "length hash = 32" for k hash
    using that(1)
  proof (induction k)
    case (Suc k)
    then have "drop k hash = hash ! k # drop (Suc k) hash" using that(2) by (simp add: Cons_nth_drop_Suc)
    then show ?case using Suc that(2) by (simp add: step list_update_append replicate_append_same [symmetric])
  qed simp
  from this [of 8 "sha256 data"] have "memoryHardRound (sha256 data) 0 = replicate 8 0 @ drop 8 (sha256 data)"
    by (simp add: memoryHardRound_def)
  then show ?thesis by (simp add: createHeaderData_def header_preimage_def)
qed

subsection \<open>Results\<close>

text \<open>
  A worker that has found a solution keeps the block and finds the same solution again: undisturbed, two
  turns put one result into the channel twice and count two blocks, as long as there is room.
\<close>

theorem worker_repeats_solution:
  assumes "rx_mineBlock (\<lambda>_. False) t1 b w rm = Inr rm1" and "rx_hashChan rm1 = rx_hashChan rm @ [r]"
    and "length (rx_hashChan rm1) < 100"
    and "rx_mineBlock (\<lambda>_. False) t2 b w rm1 = Inr rm2"
  shows "rx_hashChan rm2 = rx_hashChan rm @ [r, r] \<and> rx_BlocksFound rm2 = rx_BlocksFound rm + 2"
proof -
  have count [simp]: "rx_threads (count_hashes k t rm) = rx_threads rm" "rx_hashChan (count_hashes k t rm) = rx_hashChan rm"
    "rx_BlocksFound (count_hashes k t rm) = rx_BlocksFound rm" for k t rm
    by (simp_all add: count_hashes_def)
  obtain s e where range: "worker_range (rx_threads rm) w b = Inr (s, e)"
    using assms(1) by (auto simp: rx_mineBlock_def split: sum.splits prod.splits)
  obtain outcome k where search: "search_nonces (\<lambda>_. False) b e s 0 = (outcome, k)" by fastforce
  have found: "outcome = Found r" "rx_BlocksFound rm1 = rx_BlocksFound rm + 1" "rx_threads rm1 = rx_threads rm"
    using assms(1,2) by (auto simp: rx_mineBlock_def range search Let_def split: search.splits if_splits)
  show ?thesis
    using assms(2-4) found by (auto simp: rx_mineBlock_def range search Let_def)
qed

text \<open>A chain of \<^verbatim>\<open>core/\<close> behind the interfaces.\<close>

definition v2_backend ::
  "('s, 'e) persister \<Rightarrow> platform \<Rightarrow> string list \<Rightarrow> gotime \<Rightarrow> gotime \<Rightarrow> gotime \<Rightarrow> address \<Rightarrow>
   ('s chain, block_error + chain_error) mining_backend" where
  "v2_backend ps pl ord t1 t2 now a =
     \<lparr>be_GetBestBlock = GetBestBlock,
      be_CreateNewBlock = (\<lambda>miner txs c. case CreateNewBlockV2 pl ord t1 t2 miner txs c of Inr b \<Rightarrow> b | Inl _ \<Rightarrow> None),
      be_AddBlock = (\<lambda>b c. case AddBlockV2 ps b c of (c', Inl e) \<Rightarrow> (c', Inl (Inr e)) | (c', Inr u) \<Rightarrow> (c', Inr u)),
      be_CalculateDifficulty = (\<lambda>n p c. case CalculateDifficulty pl (ch_genesis c) n (Some p) of Inr d \<Rightarrow> d | Inl _ \<Rightarrow> 0),
      be_CalculateTarget = CalculateTarget,
      be_ValidateBlock = (\<lambda>b p c. case ValidateBlock pl (ch_genesis c) now (Some b) p of Inl e \<Rightarrow> Inl (Inl e) | Inr u \<Rightarrow> Inr u),
      be_GetAddress = a\<rparr>"

text \<open>
  On a chain of this repository the mining library never adds a block: the blocks the chain makes begin
  with the reward transaction, which has no sender and no signature, and the consensus manager the
  library asks refuses it. Every result is counted as a block found and leaves the chain as it was.
\<close>

theorem library_never_adds:
  "case handleFoundBlock (v2_backend ps pl ord t1 t2 now a) t r (c, m) of
     ((c', m'), outcome) \<Rightarrow> c' = c \<and> co_BlocksFound m' = co_BlocksFound m + 1 \<and>
       outcome \<in> insert NoNewBlock (range RejectedBlock)"
proof (cases "case CreateNewBlockV2 pl ord t1 t2 a [] c of Inr b \<Rightarrow> b | Inl _ \<Rightarrow> None")
  case None
  then show ?thesis by (simp add: handleFoundBlock_def v2_backend_def)
next
  case (Some b)
  then have b: "CreateNewBlockV2 pl ord t1 t2 a [] c = Inr (Some b)" by (simp split: sum.splits)
  then obtain p where p: "ch_bestBlock c = Some p" by (cases "ch_bestBlock c") (simp_all add: CreateNewBlockV2_def)
  let ?b = "b\<lparr>blk_Header := (blk_Header b)\<lparr>bh_Nonce := hr_Nonce r\<rparr>, blk_Hash := hash_of (hr_Hash r)\<rparr>"
  obtain txs where "blk_Txs b = createBlockRewardTransaction t1 a (calculateBlockReward pl (bh_Number (blk_Header p) + 1) c) # txs"
    by (rule CreateNewBlockV2_shape [OF b p]) simp
  moreover have "tx_From (createBlockRewardTransaction t1 a n) = 0" for n by (simp add: createBlockRewardTransaction_def Let_def)
  ultimately obtain tx where tx: "tx \<in> set (blk_Txs b)" "tx_From tx = 0" by auto
  have "ValidateBlock pl (ch_genesis c) now (Some ?b) q \<noteq> Inr ()" for q
  proof
    assume "ValidateBlock pl (ch_genesis c) now (Some ?b) q = Inr ()"
    from ValidateBlock_body [OF this] have "\<forall>tx\<in>set (blk_Txs b). is_ok (ValidateTransaction pl (ch_genesis c) (Some tx))"
      by (simp add: check_body_iff)
    with tx(1) have "IsValid tx" by (simp add: ValidateTransaction_accepts_iff)
    with tx(2) show False by (simp add: IsValid_def split: if_splits)
  qed
  then obtain e where "ValidateBlock pl (ch_genesis c) now (Some ?b) (GetBestBlock c) = Inl e"
    by (cases "ValidateBlock pl (ch_genesis c) now (Some ?b) (GetBestBlock c)") auto
  then show ?thesis using b by (simp add: handleFoundBlock_def v2_backend_def)
qed

subsection \<open>Examples\<close>

text \<open>A block that every nonce solves.\<close>

definition easy_block :: mining_block where
  "easy_block = \<lparr>mb_Header = zero_header, mb_Target = replicate 32 255, mb_StartNonce = 0, mb_EndNonce = 1000\<rparr>"

lemma easy_block_simps [simp]: "mb_StartNonce easy_block = 0" "mb_EndNonce easy_block = 1000"
    "length (mb_Target easy_block) = 32" "0 < mb_EndNonce easy_block"
  by (simp_all add: easy_block_def)

lemma easy_solves [simp]: "solves easy_block n" "hash_le (calculateHash ((mb_Header easy_block)\<lparr>bh_Nonce := n\<rparr>)) (mb_Target easy_block)"
proof -
  have "be_val (calculateHash h) < 256 ^ 32" for h
    using be_val_less [of "calculateHash h"] by simp
  then have "hash_le (calculateHash h) (replicate 32 255)" for h
    using less_Suc_eq_le [of "be_val (calculateHash h)" "256 ^ 32 - 1"] by (simp add: hash_le_be_val be_val_replicate_max)
  then show "solves easy_block n" "hash_le (calculateHash ((mb_Header easy_block)\<lparr>bh_Nonce := n\<rparr>)) (mb_Target easy_block)"
    by (simp_all add: solves_def easy_block_def)
qed


theorem rx_target_witness: "isValidHash (replicate 32 0) (rx_CalculateTarget 1000) = Inr True"
  using rx_target [of "replicate 32 0" 1000] by simp

definition easy_miner :: rx_miner where
  "easy_miner = NewRandomXMiner 1 0 1"

theorem worker_repeats_solution_witness:
  "\<exists>rm1 rm2 r. rx_mineBlock (\<lambda>_. False) 0 easy_block 0 easy_miner = Inr rm1 \<and>
     rx_mineBlock (\<lambda>_. False) 0 easy_block 0 rm1 = Inr rm2 \<and> rx_hashChan rm2 = [r, r]"
proof -
  have range: "worker_range 1 0 easy_block = Inr (0, 1000)" by (simp add: worker_range_def easy_block_def Let_def)
  have found: "search_nonces (\<lambda>_. False) easy_block (1000) 0 0 = (Found (solution easy_block 0), 1)"
    using search_step [of easy_block "1000" 0 0] by simp
  obtain rm1 where rm1: "rx_mineBlock (\<lambda>_. False) 0 easy_block 0 easy_miner = Inr rm1"
      "rx_hashChan rm1 = [solution easy_block 0]" "rx_threads rm1 = 1"
    by (simp add: rx_mineBlock_def easy_miner_def NewRandomXMiner_def range found count_hashes_def)
  obtain rm2 where rm2: "rx_mineBlock (\<lambda>_. False) 0 easy_block 0 rm1 = Inr rm2"
    using rm1(2,3) by (simp add: rx_mineBlock_def range found count_hashes_def)
  have "rx_hashChan rm2 = rx_hashChan easy_miner @ [solution easy_block 0, solution easy_block 0]"
    using worker_repeats_solution [OF rm1(1) _ _ rm2] rm1(2) by (simp add: easy_miner_def NewRandomXMiner_def)
  with rm1(1) rm2 show ?thesis by (simp add: easy_miner_def NewRandomXMiner_def)
qed

end
