(* ===== verification/MiningInfo.thy ===== *)
theory MiningInfo
  imports Mining
begin

text \<open>
  What the mining library of \<^verbatim>\<open>mining/randomx.go\<close> and \<^verbatim>\<open>mining/miner.go\<close> tells about itself: the
  copies of its statistics and the table of \<^verbatim>\<open>GetMiningInfo\<close>, whose times are times of Go.
\<close>

subsection \<open>Statistics\<close>

record rx_stats =
  rs_HashesPerSecond :: f64
  rs_TotalHashes :: u64
  rs_BlocksFound :: u64
  rs_StartTime :: gotime
  rs_LastHashTime :: gotime

definition rx_IsRunning :: "rx_miner \<Rightarrow> bool" where
  "rx_IsRunning rm = rx_running rm"

definition rx_GetStats :: "rx_miner \<Rightarrow> rx_stats" where
  "rx_GetStats rm =
     \<lparr>rs_HashesPerSecond = rx_HashesPerSecond rm, rs_TotalHashes = rx_TotalHashes rm, rs_BlocksFound = rx_BlocksFound rm,
      rs_StartTime = rx_StartTime rm, rs_LastHashTime = rx_LastHashTime rm\<rparr>"

definition GetHashResult :: "rx_miner \<Rightarrow> hash_result list" where
  "GetHashResult rm = rx_hashChan rm"

definition GetOptimalThreads :: "int \<Rightarrow> int" where
  "GetOptimalThreads cpus = cpus"

definition rx_SetDifficulty :: "u64 \<Rightarrow> rx_miner \<Rightarrow> rx_miner" where
  "rx_SetDifficulty difficulty rm = rm"

record co_stats =
  mo_StartTime :: gotime
  mo_TotalHashes :: u64
  mo_BlocksFound :: u64
  mo_CurrentHashRate :: f64
  mo_LastBlockTime :: gotime
  mo_Difficulty :: u64
  mo_Target :: bytes

definition co_IsRunning :: "co_miner \<Rightarrow> bool" where
  "co_IsRunning m = co_running m"

definition co_GetStats :: "co_miner \<Rightarrow> co_stats" where
  "co_GetStats m =
     \<lparr>mo_StartTime = co_StartTime m, mo_TotalHashes = co_TotalHashes m, mo_BlocksFound = co_BlocksFound m,
      mo_CurrentHashRate = co_CurrentHashRate m, mo_LastBlockTime = co_LastBlockTime m,
      mo_Difficulty = co_Difficulty m, mo_Target = co_Target m\<rparr>"

definition GetHashRate :: "co_miner \<Rightarrow> f64" where
  "GetHashRate m = mo_CurrentHashRate (co_GetStats m)"

definition GetBlocksFound :: "co_miner \<Rightarrow> u64" where
  "GetBlocksFound m = mo_BlocksFound (co_GetStats m)"

definition GetTotalHashes :: "co_miner \<Rightarrow> u64" where
  "GetTotalHashes m = mo_TotalHashes (co_GetStats m)"

definition GetDifficulty :: "co_miner \<Rightarrow> u64" where
  "GetDifficulty m = mo_Difficulty (co_GetStats m)"

definition GetTarget :: "co_miner \<Rightarrow> bytes" where
  "GetTarget m = mo_Target (co_GetStats m)"

definition GetMiningAddress :: "('w, 'e) mining_backend \<Rightarrow> address" where
  "GetMiningAddress be = be_GetAddress be"

definition SetMiningAddress :: "address \<Rightarrow> co_miner \<Rightarrow> co_miner \<times> (string + unit)" where
  "SetMiningAddress a m = (m, Inl ''address change not supported'')"

text \<open>\<^verbatim>\<open>mineBlock\<close> hands a block to the workers, and adds one more reader of their results.\<close>

definition co_mineBlock :: "mining_block \<Rightarrow> co_miner \<times> nat \<Rightarrow> co_miner \<times> nat" where
  "co_mineBlock b s = ((fst s)\<lparr>co_rx := rx_MineBlock b (co_rx (fst s))\<rparr>, Suc (snd s))"

subsection \<open>The table\<close>

datatype info_value = InfoBool bool | InfoInt int | InfoU64 u64 | InfoF64 f64 | InfoTime gotime | InfoText string

definition rx_GetMiningInfo :: "rx_miner \<Rightarrow> string \<rightharpoonup> info_value" where
  "rx_GetMiningInfo rm =
     (let stats = rx_GetStats rm in
      [''running'' \<mapsto> InfoBool (rx_IsRunning rm), ''threads'' \<mapsto> InfoInt (rx_threads rm),
       ''hashesPerSecond'' \<mapsto> InfoF64 (rs_HashesPerSecond stats), ''totalHashes'' \<mapsto> InfoU64 (rs_TotalHashes stats),
       ''blocksFound'' \<mapsto> InfoU64 (rs_BlocksFound stats), ''startTime'' \<mapsto> InfoTime (rs_StartTime stats),
       ''lastHashTime'' \<mapsto> InfoTime (rs_LastHashTime stats)])"

text \<open>Its entries enter the table of the coordinator under a prefix.\<close>

definition prefixed :: "string \<Rightarrow> (string \<rightharpoonup> 'v) \<Rightarrow> string \<rightharpoonup> 'v" where
  "prefixed pre m k = (if take (length pre) k = pre then m (drop (length pre) k) else None)"

definition co_GetMiningInfo :: "co_miner \<Rightarrow> string \<rightharpoonup> info_value" where
  "co_GetMiningInfo m =
     (let stats = co_GetStats m in
      [''running'' \<mapsto> InfoBool (co_IsRunning m), ''startTime'' \<mapsto> InfoTime (mo_StartTime stats),
       ''totalHashes'' \<mapsto> InfoU64 (mo_TotalHashes stats), ''blocksFound'' \<mapsto> InfoU64 (mo_BlocksFound stats),
       ''currentHashRate'' \<mapsto> InfoF64 (mo_CurrentHashRate stats), ''lastBlockTime'' \<mapsto> InfoTime (mo_LastBlockTime stats),
       ''difficulty'' \<mapsto> InfoU64 (mo_Difficulty stats), ''target'' \<mapsto> InfoText (hex_encode (mo_Target stats))]
      ++ prefixed ''randomx_'' (rx_GetMiningInfo (co_rx m)))"

definition GetMiningStatsJSON :: "((string \<rightharpoonup> info_value) \<Rightarrow> string + bytes) \<Rightarrow> co_miner \<Rightarrow> string + bytes" where
  "GetMiningStatsJSON marshal m = marshal (co_GetMiningInfo m)"

lemma prefixed_append [simp]: "prefixed pre m (pre @ k) = m k"
  by (simp add: prefixed_def)

text \<open>
  Both sets of entries stand in the table, and the counts it copies at a tick are those of the
  workers at that tick; the blocks found are counted twice, when a worker sends a result and when the
  coordinator reads it.
\<close>

lemma mining_info:
  "co_GetMiningInfo m ''running'' = Some (InfoBool (co_running m))"
  "co_GetMiningInfo m ''randomx_threads'' = Some (InfoInt (rx_threads (co_rx m)))"
  "co_GetMiningInfo (co_tick m) ''totalHashes'' = co_GetMiningInfo (co_tick m) ''randomx_totalHashes''"
  "co_GetMiningInfo m ''randomx_blocksFound'' = Some (InfoU64 (rx_BlocksFound (co_rx m)))"
  "co_GetMiningInfo m ''blocksFound'' = Some (InfoU64 (co_BlocksFound m))"
proof -
  note defs = co_GetMiningInfo_def rx_GetMiningInfo_def Let_def map_add_def prefixed_def co_GetStats_def rx_GetStats_def
    rx_IsRunning_def co_IsRunning_def co_tick_def
  show "co_GetMiningInfo m ''running'' = Some (InfoBool (co_running m))"
    "co_GetMiningInfo m ''randomx_threads'' = Some (InfoInt (rx_threads (co_rx m)))"
    "co_GetMiningInfo (co_tick m) ''totalHashes'' = co_GetMiningInfo (co_tick m) ''randomx_totalHashes''"
    "co_GetMiningInfo m ''randomx_blocksFound'' = Some (InfoU64 (rx_BlocksFound (co_rx m)))"
    "co_GetMiningInfo m ''blocksFound'' = Some (InfoU64 (co_BlocksFound m))"
    by (simp_all add: defs)
qed

end
