(* ===== verification/Node.thy ===== *)
theory Node
  imports RpcServer Restart P2P MinerRound GoArgs
begin

text \<open>
  \<^verbatim>\<open>cmd/kalon-node-v2/main.go\<close>: the node, which puts the parts together. Its field
  \<^verbatim>\<open>blockchain\<close> is the chain the RPC server holds, one object, so that the record below has it once,
  inside the server. What a start finds outside the program (the genesis file, the JSON decoder, the
  file system, the database, the port) is a \<open>node_world\<close>.
\<close>

subsection \<open>Configuration\<close>

record node_config =
  nc_DataDir :: string
  nc_Genesis :: string
  nc_RPCAddr :: string
  nc_P2PAddr :: string

record 'd node_world =
  nw_read_file :: "string \<Rightarrow> string + bytes"
  nw_parse_genesis :: "bytes \<Rightarrow> string + genesis_config"
  nw_mkdir_all :: "string \<Rightarrow> string option"
  nw_open_file :: "string \<Rightarrow> string + 'd"
  nw_listen :: "string option"

record 'd node =
  nd_config :: node_config
  nd_rpcServer :: "'d ldb_storage server option"
  nd_p2p :: "p2p option"
  nd_running :: bool

definition node_flags :: "string \<rightharpoonup> flag_value" where
  "node_flags = [''datadir'' \<mapsto> FString ''data/testnet'', ''genesis'' \<mapsto> FString ''genesis/testnet.json'',
     ''rpc'' \<mapsto> FString '':16316'', ''p2p'' \<mapsto> FString '':17335'']"

text \<open>The configuration \<^verbatim>\<open>main\<close> starts the node with, or the exit of its flags.\<close>

definition node_main :: "string list \<Rightarrow> flag_error + node_config" where
  "node_main args =
     (case flag_Parse node_flags args of
        Inl e \<Rightarrow> Inl e
      | Inr fl \<Rightarrow> Inr \<lparr>nc_DataDir = str_flag fl ''datadir'', nc_Genesis = str_flag fl ''genesis'',
          nc_RPCAddr = str_flag fl ''rpc'', nc_P2PAddr = str_flag fl ''p2p''\<rparr>)"

definition NewNodeV2 :: "node_config \<Rightarrow> 'd node" where
  "NewNodeV2 config = \<lparr>nd_config = config, nd_rpcServer = None, nd_p2p = None, nd_running = False\<rparr>"

text \<open>The configuration used when the genesis file cannot be read.\<close>

definition default_genesis :: genesis_config where
  "default_genesis = \<lparr>g_ChainID = 7718, g_Name = ''Kalon Testnet'', g_Symbol = ''tKALON'',
     g_BlockTimeTarget = 30, g_MaxSupply = 1000000000, g_InitialBlockReward = f64_of_nat 5,
     g_HalvingSchedule = [],
     g_Difficulty = \<lparr>dc_Algo = ''LWMA'', dc_Window = 120, dc_InitialDifficulty = 5000, dc_MaxAdjustPerBlockPct = 25,
       dc_LaunchGuard = \<lparr>lg_Enabled = True, lg_DurationHours = 24, lg_DifficultyFloorMultiplier = f64_of_nat 4,
         lg_InitialReward = f64_of_nat 2\<rparr>\<rparr>,
     g_AddressFormat = \<lparr>af_Type = ''bech32'', af_HRP = ''tkalon''\<rparr>,
     g_Premine = \<lparr>pc_Enabled = False\<rparr>,
     g_TreasuryAddress = ''tkalon1treasury0000000000000000000000000000000000000000000000000000000000'',
     g_NetworkFee = \<lparr>nf_BlockFeeRate = f64_round False 5 100, nf_TxFeeShareTreasury = f64_round False 1 5,
       nf_BaseTxFee = f64_round False 1 100, nf_GasPrice = 1000\<rparr>,
     g_Governance = \<lparr>gc_Parameters = \<lparr>gp_NetworkFeeRate = f64_round False 5 100,
       gp_TxFeeShareTreasury = f64_round False 1 5, gp_TreasuryCapPercent = 10\<rparr>\<rparr>\<rparr>"

definition loadGenesis :: "'d node_world \<Rightarrow> node_config \<Rightarrow> string + genesis_config" where
  "loadGenesis w config =
     (case nw_read_file w (nc_Genesis config) of
        Inl _ \<Rightarrow> Inr default_genesis
      | Inr data \<Rightarrow>
          (case nw_parse_genesis w data of
             Inl e \<Rightarrow> Inl (''failed to parse genesis JSON: '' @ e)
           | Inr genesis \<Rightarrow> Inr genesis))"

subsection \<open>Starting and stopping\<close>

definition p2p_settings :: "node_config \<Rightarrow> p2p_config" where
  "p2p_settings config =
     \<lparr>pc_ListenAddr = nc_P2PAddr config, pc_SeedNodes = [], pc_MaxPeers = 50, pc_DialTimeout = 10 * 1000000000,
      pc_ReadTimeout = 30 * 1000000000, pc_WriteTimeout = 30 * 1000000000, pc_KeepAlive = 60 * 1000000000,
      pc_DiscoveryPort = 0\<rparr>"

text \<open>A database that cannot be opened leaves a node without storage; a port that cannot be opened is logged.\<close>

definition node_Start ::
  "codec \<Rightarrow> 'd leveldb \<Rightarrow> 'd node_world \<Rightarrow> 'd node \<Rightarrow> 'd node \<times> (string + unit)" where
  "node_Start cd ldb w n =
     (case loadGenesis w (nd_config n) of
        Inl e \<Rightarrow> (n, Inl e)
      | Inr genesis \<Rightarrow>
          (let storage = (case NewLevelDBStorage (nw_mkdir_all w) (nw_open_file w) (nc_DataDir (nd_config n) @ ''/chaindb'') of
                            Inl _ \<Rightarrow> None
                          | Inr s \<Rightarrow> Some s);
               blockchain = NewBlockchainV2 (block_persister cd ldb) genesis storage
           in (n\<lparr>nd_rpcServer := Some (NewServerV2 (nc_RPCAddr (nd_config n)) blockchain),
                 nd_p2p := Some (fst (p2p_Start (nw_listen w) (NewP2P (p2p_settings (nd_config n))))),
                 nd_running := True\<rparr>, Inr ())))"

text \<open>A stop of the network that panics leaves the database open.\<close>

definition node_Stop :: "codec \<Rightarrow> 'd leveldb \<Rightarrow> 'd node \<Rightarrow> 'd node \<times> (go_panic + unit)" where
  "node_Stop cd ldb n =
     (if \<not> nd_running n then (n, Inr ())
      else
        (let n1 = n\<lparr>nd_rpcServer := map_option sv_Stop (nd_rpcServer n)\<rparr>;
             n2 = n1\<lparr>nd_p2p := map_option (\<lambda>p. fst (p2p_Stop p)) (nd_p2p n1)\<rparr>
         in case (case nd_p2p n1 of None \<Rightarrow> Inr () | Some p \<Rightarrow> snd (p2p_Stop p)) of
              Inl e \<Rightarrow> (n2, Inl e)
            | Inr _ \<Rightarrow>
                (n2\<lparr>nd_rpcServer := map_option (\<lambda>sv. sv\<lparr>sv_blockchain :=
                      fst (bc_Close (block_persister cd ldb) (sv_blockchain sv))\<rparr>) (nd_rpcServer n2),
                    nd_running := False\<rparr>, Inr ())))"

text \<open>
  What happens to a running node: requests, the cleanup of the server, and everything the network does.
  Nothing reads the channels in which the network puts the blocks and transactions of peers.
\<close>

inductive node_step :: "codec \<Rightarrow> 'd leveldb \<Rightarrow> 'd node \<Rightarrow> 'd node \<Rightarrow> bool" for cd ldb where
  request: "nd_rpcServer n = Some sv \<Longrightarrow>
    node_step cd ldb n (n\<lparr>nd_rpcServer := Some (fst (handleRequest (block_persister cd ldb) env r sv))\<rparr>)"
| cleanup: "nd_rpcServer n = Some sv \<Longrightarrow> node_step cd ldb n (n\<lparr>nd_rpcServer := Some (cleanupConnections now sv)\<rparr>)"
| network: "nd_p2p n = Some p \<Longrightarrow> p2p_activity p p' \<Longrightarrow> node_step cd ldb n (n\<lparr>nd_p2p := Some p'\<rparr>)"

inductive_cases node_stepE: "node_step cd ldb n n'"

definition node_chain :: "'d node \<Rightarrow> 'd ldb_storage chain option" where
  "node_chain n = map_option sv_blockchain (nd_rpcServer n)"

lemma node_steps_config: "(node_step cd ldb)\<^sup>*\<^sup>* n n' \<Longrightarrow> nd_config n' = nd_config n"
  by (induction rule: rtranclp_induct) (auto elim!: node_stepE)

text \<open>The network of a started node is stopped once, so that stopping the node does not panic.\<close>

lemma node_steps_network:
  assumes "(node_step cd ldb)\<^sup>*\<^sup>* n n'" and "nd_p2p n = Some p" and "\<not> pn_stopped p"
  shows "\<exists>p'. nd_p2p n' = Some p' \<and> \<not> pn_stopped p'"
  using assms(1)
proof (induction rule: rtranclp_induct)
  case (step y z)
  then show ?case by (auto elim!: node_stepE dest: activity_flags)
qed (use assms(2,3) in simp)

lemma node_Stop_quiet:
  assumes "nd_p2p n = Some p" and "\<not> pn_stopped p"
  shows "snd (node_Stop cd ldb n) = Inr ()"
  using assms by (simp add: node_Stop_def p2p_Stop_def Let_def)

text \<open>
  The program: its flags, a start, what happens until a signal, and a stop. It ends with an exit status,
  with a panic, or with the node it leaves.
\<close>

datatype 'd node_end = NodeExit int | NodeCrashed go_panic | NodeEnded "'d node"

inductive node_run :: "codec \<Rightarrow> 'd leveldb \<Rightarrow> 'd node_world \<Rightarrow> string list \<Rightarrow> 'd node_end \<Rightarrow> bool" for cd ldb w args where
  bad_flags: "node_main args = Inl e \<Longrightarrow> node_run cd ldb w args (NodeExit (flag_exit e))"
| no_start: "node_main args = Inr config \<Longrightarrow> node_Start cd ldb w (NewNodeV2 config) = (n, Inl e) \<Longrightarrow>
    node_run cd ldb w args (NodeExit 1)"
| stopped: "node_main args = Inr config \<Longrightarrow> node_Start cd ldb w (NewNodeV2 config) = (n, Inr ()) \<Longrightarrow>
    (node_step cd ldb)\<^sup>*\<^sup>* n n' \<Longrightarrow> node_Stop cd ldb n' = (n'', Inr ()) \<Longrightarrow> node_run cd ldb w args (NodeEnded n'')"
| crashed: "node_main args = Inr config \<Longrightarrow> node_Start cd ldb w (NewNodeV2 config) = (n, Inr ()) \<Longrightarrow>
    (node_step cd ldb)\<^sup>*\<^sup>* n n' \<Longrightarrow> node_Stop cd ldb n' = (n'', Inl p) \<Longrightarrow> node_run cd ldb w args (NodeCrashed p)"

lemma node_Start_network:
  assumes "node_Start cd ldb w n = (n', Inr ())"
  shows "\<exists>p. nd_p2p n' = Some p \<and> \<not> pn_stopped p"
  using assms by (auto simp: node_Start_def p2p_Start_def NewP2P_def Let_def split: sum.splits option.splits)

lemma node_run_ends: "\<not> node_run cd ldb w args (NodeCrashed e)"
proof
  assume "node_run cd ldb w args (NodeCrashed e)"
  then obtain n n' n'' config where run: "node_Start cd ldb w (NewNodeV2 config) = (n, Inr ())"
      "(node_step cd ldb)\<^sup>*\<^sup>* n n'" "node_Stop cd ldb n' = (n'', Inl e)"
    by (cases rule: node_run.cases) auto
  obtain p where "nd_p2p n' = Some p" "\<not> pn_stopped p"
    using node_Start_network [OF run(1)] node_steps_network [OF run(2)] by blast
  from node_Stop_quiet [OF this] run(3) show False by (metis snd_conv sum.distinct(1))
qed

text \<open>The server of a node lives by the steps of a server.\<close>

lemma node_steps_server:
  assumes "(node_step cd ldb)\<^sup>*\<^sup>* n n'" and "nd_rpcServer n = Some sv" and "server_state (block_persister cd ldb) g st sv"
  shows "\<exists>sv'. nd_rpcServer n' = Some sv' \<and> server_state (block_persister cd ldb) g st sv'"
  using assms(1)
proof (induction rule: rtranclp_induct)
  case base
  show ?case using assms(2,3) by blast
next
  case (step y z)
  then obtain sv' where sv': "nd_rpcServer y = Some sv'" "server_state (block_persister cd ldb) g st sv'" by blast
  from step.hyps(2) show ?case
    by (cases rule: node_step.cases) (use sv' in \<open>auto intro: server_state.request server_state.cleanup\<close>)
qed

subsection \<open>A node without its genesis file\<close>

lemma default_guard:
  "g_BlockTimeTarget default_genesis = 30" "dc_InitialDifficulty (g_Difficulty default_genesis) = 5000"
  "lg_Enabled (dc_LaunchGuard (g_Difficulty default_genesis)) = True"
  "lg_DurationHours (dc_LaunchGuard (g_Difficulty default_genesis)) = 24"
  "lg_DifficultyFloorMultiplier (dc_LaunchGuard (g_Difficulty default_genesis)) = f64_of_nat 4"
  by (simp_all add: default_genesis_def)

lemma default_difficulty:
  assumes "0 < n" and "n < 2880"
  shows "CalculateDifficulty pl default_genesis n parent = Inr 20000"
proof -
  have "holds_nat (f64_mul (f64_of_u64 5000) (f64_of_nat 4)) 20000"
    using holds_nat_mul [OF holds_nat_of_u64 holds_nat_of_nat, of 5000 4] by simp
  then have "u64_of_f64 pl (f64_mul (f64_of_u64 5000) (f64_of_nat 4)) = 20000"
    using u64_of_holds_nat [of _ 20000 pl] by simp
  moreover have "launch_guard_blocks default_genesis = Inr 2880"
    by (simp add: launch_guard_blocks_def default_guard)
  moreover have "n \<noteq> 0" using assms(1) by auto
  ultimately show ?thesis
    using assms(2) unfolding CalculateDifficulty_def default_guard Let_def by simp
qed

lemma template_difficulty:
  assumes "template_of env wallet c = Inr (Some b)" and "GetBestBlock c = Some p"
    and "\<And>pl q. CalculateDifficulty pl (ch_genesis c) (bh_Number (blk_Header p) + 1) q = Inr d"
  shows "bh_Difficulty (blk_Header b) = d"
proof -
  obtain pl ord t1 t2 m where cnb: "CreateNewBlockV2 pl ord t1 t2 m [] c = Inr (Some b)"
    by (rule template_on_best [OF assms(1,2)])
  have p: "ch_bestBlock c = Some p" using assms(2) by (simp add: GetBestBlock_def)
  show ?thesis by (rule CreateNewBlockV2_shape [OF cnb p]) (simp add: assms(3))
qed

text \<open>
  C28. A node that cannot read its genesis file starts a network that cannot be mined: the defaults give
  the blocks of the first day difficulty 20000, whose 64-bit target is zero. No round of a miner ever
  ends unless the miner is stopped, and the chain takes no block of that difficulty on its best one.
\<close>

theorem default_network_never_mines:
  fixes c :: "'d ldb_storage chain"
  assumes "nw_read_file w (nc_Genesis config) = Inl e" and "loadGenesis w config = Inr (ch_genesis c)"
    and "GetBestBlock c = Some p" and "GetHeight c = bh_Number (blk_Header p)" and "bh_Number (blk_Header p) < 2879"
    and "template_of env wallet c = Inr (Some b)" and "block_small b" and "parseAddress wallet = Some a"
  shows "bh_Difficulty (blk_Header b) = 20000 \<and>
    mineBlock pl pt ft (\<lambda>_. False) seconds now (node_call ps env) wallet st c = None \<and>
    (\<forall>b'. bh_Difficulty (blk_Header b') = 20000 \<and> bh_Number (blk_Header b') \<noteq> 0 \<longrightarrow> snd (AddBlockV2 ps b' c) \<noteq> Inr ())"
proof -
  have g: "ch_genesis c = default_genesis" using assms(1,2) by (simp add: loadGenesis_def)
  have n: "unat (bh_Number (blk_Header p)) < 2879" using assms(5) by (simp add: word_less_nat_alt)
  then have "unat (bh_Number (blk_Header p) + 1) = Suc (unat (bh_Number (blk_Header p)))" by (simp add: unat_word_ariths)
  with n have "0 < bh_Number (blk_Header p) + 1" "bh_Number (blk_Header p) + 1 < 2880" by (simp_all add: word_less_nat_alt)
  then have d: "bh_Difficulty (blk_Header b) = 20000"
    by (intro template_difficulty [OF assms(6,3)]) (simp add: g default_difficulty)
  have zero: "mining_target 20000 = 0" by (rule mining_target_zero) simp
  have "mine_nonces (\<lambda>_. False) seconds 0 (work_block a b) 0 0 st = None"
    using mine_nonces_return_iff [of "\<lambda>_. False" seconds 0 "work_block a b" st]
    by (metis not_None_eq word_not_simps(1))
  moreover have "unat (GetHeight c) < 2 ^ 53" using n assms(4) by simp
  ultimately have "mineBlock pl pt ft (\<lambda>_. False) seconds now (node_call ps env) wallet st c = None"
    by (simp add: round_eq [OF assms(6,3,8,4) _ assms(7)] d zero)
  moreover have "snd (AddBlockV2 ps b' c) \<noteq> Inr ()"
    if "bh_Difficulty (blk_Header b') = 20000" "bh_Number (blk_Header b') \<noteq> 0" for b'
  proof -
    have "\<not> ValidateProofOfWorkV2 b'" using that(1) by (simp add: PoWV2_iff)
    moreover have "ch_bestBlock c = Some p" using assms(3) by (simp add: GetBestBlock_def)
    ultimately show ?thesis
      using that(2) by (simp add: AddBlockV2_def snd_addBlockV2 validateBlockV2_iff extends_def)
  qed
  ultimately show ?thesis using d by blast
qed

text \<open>A world without a genesis file and without a writable directory.\<close>

definition bare_world :: "(bytes \<rightharpoonup> bytes) node_world" where
  "bare_world = \<lparr>nw_read_file = (\<lambda>_. Inl ''no such file''), nw_parse_genesis = (\<lambda>_. Inl ''unexpected end''),
     nw_mkdir_all = (\<lambda>_. Some ''read-only''), nw_open_file = (\<lambda>_. Inl ''read-only''), nw_listen = None\<rparr>"

definition sample_config :: node_config where
  "sample_config = \<lparr>nc_DataDir = ''/data'', nc_Genesis = ''genesis.json'', nc_RPCAddr = '':16316'', nc_P2PAddr = '':17335''\<rparr>"

definition default_chain :: "(bytes \<rightharpoonup> bytes) ldb_storage chain" where
  "default_chain = NewBlockchainV2 disk_ps default_genesis None"

lemma default_chain_simps:
  "GetBestBlock default_chain = Some (createGenesisBlockV2 default_genesis)" "GetHeight default_chain = 0"
  "ch_genesis default_chain = default_genesis" "ch_mempool default_chain = Map.empty"
proof -
  have v: "validateBlockV2 (createGenesisBlockV2 default_genesis)
      (empty_chain default_genesis None :: (bytes \<rightharpoonup> bytes) ldb_storage chain) = Inr ()"
    by (simp add: validateBlockV2_genesis)
  have "blk_Txs (createGenesisBlockV2 default_genesis) = []" by (simp add: createGenesisBlockV2_def Let_def)
  then show "GetBestBlock default_chain = Some (createGenesisBlockV2 default_genesis)" "GetHeight default_chain = 0"
    "ch_genesis default_chain = default_genesis" "ch_mempool default_chain = Map.empty"
    unfolding default_chain_def NewBlockchainV2_fresh [OF fresh_None]
    by (simp_all add: GetBestBlock_def GetHeight_def addBlockV2_accepts [OF v] NewMempool_def)
qed

theorem default_network_never_mines_witness:
  "mineBlock zero_platform (\<lambda>_. None) (\<lambda>_. []) (\<lambda>_. False) (\<lambda>_. f64_of_nat 1) 0 (node_call disk_ps (\<lambda>_. sample_env))
     zero_wallet (mv_stats (NewMinerV2 0)) default_chain = None"
proof -
  have d: "CalculateDifficulty zero_platform default_genesis 1 parent = Inr 20000" for parent
    by (rule default_difficulty) simp_all
  obtain b where b: "CreateNewBlockV2 zero_platform [] 0 (1700000001 * 1000000000) 0 [] default_chain = Inr (Some b)"
    using d default_chain_simps(1) by (simp add: CreateNewBlockV2_def default_chain_simps GetBestBlock_def Let_def)
  have best: "ch_bestBlock default_chain = Some (createGenesisBlockV2 default_genesis)"
    using default_chain_simps(1) by (simp add: GetBestBlock_def)
  have "u64_of_f64 zero_platform (f64_mul (g_InitialBlockReward default_genesis) micro) = 5000000"
    using u64_of_holds_nat [OF five_micro, of zero_platform] by (simp add: default_genesis_def)
  then have reward: "calculateBlockReward zero_platform 1 default_chain = 5000000"
    by (simp add: calculateBlockReward_def default_chain_simps) (simp add: default_genesis_def)
  have small: "block_small b"
  proof (rule CreateNewBlockV2_shape [OF b best])
    fix d assume "CalculateDifficulty zero_platform (ch_genesis default_chain)
        (bh_Number (blk_Header (createGenesisBlockV2 default_genesis)) + 1) (Some (createGenesisBlockV2 default_genesis)) = Inr d"
      "blk_Txs b = createBlockRewardTransaction 0 0 (calculateBlockReward zero_platform
        (bh_Number (blk_Header (createGenesisBlockV2 default_genesis)) + 1) default_chain) # [] @
        GetPendingTransactions [] (ch_mempool default_chain)"
      "blk_Header b = \<lparr>bh_ParentHash = blk_Hash (createGenesisBlockV2 default_genesis),
        bh_Number = bh_Number (blk_Header (createGenesisBlockV2 default_genesis)) + 1,
        bh_Timestamp = 1700000001 * 1000000000, bh_Difficulty = d, bh_Miner = 0, bh_Nonce = 0, bh_MerkleRoot = 0,
        bh_TxCount = of_nat (length (blk_Txs b)), bh_NetworkFee = 0, bh_TreasuryFee = 0\<rparr>"
    then show "block_small b"
      using d by (simp add: default_chain_simps reward block_small_def tx_small_def GetPendingTransactions_def
          createBlockRewardTransaction_def Let_def)
  qed
  have "template_of (\<lambda>_. sample_env) zero_wallet default_chain = Inr (Some b)"
    using b by (simp add: template_of_def zero_wallet_reads sample_env_def)
  then show ?thesis
    using default_network_never_mines [where w = bare_world and config = sample_config and c = default_chain
        and ps = disk_ps and p = "createGenesisBlockV2 default_genesis" and env = "\<lambda>_. sample_env" and wallet = zero_wallet
        and b = b and a = 0] small
    by (simp add: default_chain_simps bare_world_def loadGenesis_def zero_wallet_reads)
qed

subsection \<open>A node that is stopped and started again\<close>

text \<open>What a chain needs of its storage it learns by reading keys.\<close>

lemma stored_reopened:
  assumes "stored cd ldb good c" and "ch_storage c = Some s" and "good (ls_db s2)" and "\<And>k. ls_Get ldb k s2 = ls_Get ldb k s"
  shows "stored cd ldb good (c\<lparr>ch_storage := Some s2\<rparr>)"
proof -
  have "bs_GetBestBlock cd ldb s2 = bs_GetBestBlock cd ldb s"
    unfolding bs_GetBestBlock_def bs_GetBlockByHash_def assms(4) ..
  with assms show ?thesis by (simp add: stored_def bs_GetBlockByNumber_def)
qed

lemma node_Start_opens:
  assumes "loadGenesis w (nd_config n) = Inr g" and "nw_mkdir_all w (nc_DataDir (nd_config n) @ ''/chaindb'') = None"
    and "nw_open_file w (nc_DataDir (nd_config n) @ ''/chaindb'') = Inr d"
  shows "node_Start cd ldb w n =
    (n\<lparr>nd_rpcServer := Some (NewServerV2 (nc_RPCAddr (nd_config n)) (NewBlockchainV2 (block_persister cd ldb) g
         (Some \<lparr>ls_db = d, ls_path = nc_DataDir (nd_config n) @ ''/chaindb''\<rparr>))),
       nd_p2p := Some (fst (p2p_Start (nw_listen w) (NewP2P (p2p_settings (nd_config n))))), nd_running := True\<rparr>, Inr ())"
  using assms by (simp add: node_Start_def NewLevelDBStorage_def)


text \<open>A file system with the genesis file of the test network and a database \<open>d\<close>.\<close>

definition disk_world :: "(bytes \<rightharpoonup> bytes) \<Rightarrow> (bytes \<rightharpoonup> bytes) node_world" where
  "disk_world d = \<lparr>nw_read_file = (\<lambda>_. Inr []), nw_parse_genesis = (\<lambda>_. Inr testnet_genesis),
     nw_mkdir_all = (\<lambda>_. None), nw_open_file = (\<lambda>_. Inr d), nw_listen = None\<rparr>"

definition chain_at :: "(bytes \<rightharpoonup> bytes) \<Rightarrow> (bytes \<rightharpoonup> bytes) ldb_storage chain" where
  "chain_at d = NewBlockchainV2 disk_ps testnet_genesis (Some \<lparr>ls_db = d, ls_path = ''/data/chaindb''\<rparr>)"


end
