(* ===== verification/WalletCli.thy ===== *)
theory WalletCli
  imports Crypto GoArgs MinerRound
begin

text \<open>
  \<^verbatim>\<open>cmd/kalon-wallet/main.go\<close>: the wallet's commands. A run of the program is a function from its
  arguments, its input and the directory it runs in to the directory it leaves and how it ends. The
  JSON text of a wallet file, whether a file can be written, and the answers to HTTP requests are
  arguments.
\<close>

subsection \<open>Data\<close>

record wallet_info =
  wi_Address :: string
  wi_PublicKey :: string
  wi_PrivateKey :: string
  wi_Mnemonic :: string

record tx_request =
  tq_From :: string
  tq_To :: string
  tq_Amount :: u64
  tq_Fee :: u64
  tq_Data :: string

record tx_response =
  tr_Hash :: string
  tr_From :: string
  tr_To :: string
  tr_Amount :: u64
  tr_Fee :: u64
  tr_Nonce :: u64
  tr_Success :: bool

text \<open>A directory: what stands under each name.\<close>

datatype 'f entry = SubDir | RegularFile 'f

type_synonym 'f dir = "string \<rightharpoonup> 'f entry"

record 'f wallet_codec =
  wc_MarshalIndent :: "wallet_info \<Rightarrow> 'f"
  wc_Unmarshal :: "'f \<Rightarrow> wallet_info option"

datatype query_error =
  RequestFailed string | BodyFailed string | ParseFailed string | RpcFailed string | BadBalance

datatype fatal =
  ReadNameFailed | ReadPassphraseFailed | ReadMnemonicFailed | CreateFailed wallet_error | ImportFailed wallet_error
| FileExists string | SaveFailed string | LoadFailed string | NoAddress | BalanceFailed query_error
| MissingRecipient | NoWalletLoaded

datatype report =
  Created string string string string
| Imported string string string
| Listed "(string \<times> wallet_info option) list"
| NothingFound
| Exported "(string \<times> string) list"
| Balance string u64
| Sent tx_response
| Info wallet_info
| Usage

text \<open>The lines of the usage message.\<close>

definition usage_lines :: "string \<Rightarrow> string list" where
  "usage_lines version =
     [''Kalon Wallet CLI v'' @ version, [], ''Usage:'', ''  kalon-wallet <command> [flags]'', [], ''Commands:'',
      ''  create     Create a new wallet'', ''  import     Import wallet from mnemonic'', ''  list       List all available wallets'',
      ''  export     Export wallet information'', ''  balance    Check wallet balance'', ''  send       Send transaction'',
      ''  info       Show wallet information'', ''  help       Show this help message'', [], ''Examples:'',
      ''  kalon-wallet create --name miner'', ''  kalon-wallet create --name test1'', ''  kalon-wallet list'',
      ''  kalon-wallet import --mnemonic '' @ [CHR 39] @ ''word1 word2 ...'' @ [CHR 39] @ '' --name backup'',
      ''  kalon-wallet balance --address kalon1abc...'', ''  kalon-wallet send --to kalon1def... --amount 1000000'',
      ''  kalon-wallet info --input wallet-test.json'']"

text \<open>How a run ends: a report and exit code 0, a fatal error and 1, or the exit code of the flags.\<close>

datatype outcome = Finished report | Fatal fatal | UsageError | FlagExit int

text \<open>What a run finds around it.\<close>

record 'f cli_env =
  ce_bip :: bip39
  ce_ed :: ed25519
  ce_rand :: "nat \<Rightarrow> string + bytes"
  ce_codec :: "'f wallet_codec"
  ce_writable :: "string \<Rightarrow> bool"
  ce_ReadDir :: "string list"
  ce_platform :: platform
  ce_post :: "string \<Rightarrow> client_request \<Rightarrow> query_error + client_response"

subsection \<open>Wallet files\<close>

definition saveWallet :: "'f cli_env \<Rightarrow> wallet_info \<Rightarrow> string \<Rightarrow> 'f dir \<Rightarrow> 'f dir option" where
  "saveWallet env info filename d =
     (if ce_writable env filename \<and> d filename \<noteq> Some SubDir
      then Some (d(filename \<mapsto> RegularFile (wc_MarshalIndent (ce_codec env) info))) else None)"

definition loadWallet :: "'f cli_env \<Rightarrow> string \<Rightarrow> 'f dir \<Rightarrow> wallet_info option" where
  "loadWallet env filename d =
     (case d filename of Some (RegularFile data) \<Rightarrow> wc_Unmarshal (ce_codec env) data | _ \<Rightarrow> None)"

definition wallet_info_of :: "wallet \<Rightarrow> wallet_info" where
  "wallet_info_of w =
     \<lparr>wi_Address = GetAddressString w, wi_PublicKey = GetPublicHex (w_Keypair w), wi_PrivateKey = [],
      wi_Mnemonic = w_Mnemonic w\<rparr>"

subsection \<open>Creating and importing\<close>

definition create_flags :: "string \<rightharpoonup> flag_value" where
  "create_flags = [''passphrase'' \<mapsto> FString [], ''name'' \<mapsto> FString [], ''output'' \<mapsto> FString []]"

definition wallet_file :: "string \<Rightarrow> string" where
  "wallet_file name = ''wallet-'' @ name @ ''.json''"

text \<open>The output file and the reader after the name was asked for.\<close>

definition create_output ::
  "string \<Rightarrow> string \<Rightarrow> string \<times> string list \<Rightarrow> fatal + string \<times> (string \<times> string list)" where
  "create_output output name reader =
     (if output = [] \<and> name = [] then
        (case ReadString reader of
           (None, _) \<Rightarrow> Inl ReadNameFailed
         | (Some nameInput, reader') \<Rightarrow>
             (let nameInput = TrimSpace nameInput
              in Inr (if nameInput \<noteq> [] then wallet_file nameInput else ''wallet.json'', reader')))
      else if output = [] \<and> name \<noteq> [] then Inr (wallet_file name, reader)
      else Inr (output, reader))"

text \<open>An empty passphrase is asked for.\<close>

definition ask_passphrase :: "string \<Rightarrow> string \<times> string list \<Rightarrow> fatal + string" where
  "ask_passphrase passphrase reader =
     (if passphrase = [] then
        (case fst (ReadString reader) of None \<Rightarrow> Inl ReadPassphraseFailed | Some pass \<Rightarrow> Inr (TrimSpace pass))
      else Inr passphrase)"

definition handleCreate :: "'f cli_env \<Rightarrow> string list \<Rightarrow> string list \<Rightarrow> 'f dir \<Rightarrow> 'f dir \<times> outcome" where
  "handleCreate env args stdin d =
     (case flag_Parse create_flags args of
        Inl e \<Rightarrow> (d, FlagExit (flag_exit e))
      | Inr fl \<Rightarrow>
          (case create_output (str_flag fl ''output'') (str_flag fl ''name'') (NewReader stdin) of
             Inl e \<Rightarrow> (d, Fatal e)
           | Inr (out, reader) \<Rightarrow>
               (case ask_passphrase (str_flag fl ''passphrase'') reader of
                  Inl e \<Rightarrow> (d, Fatal e)
                | Inr pass \<Rightarrow>
                    (case NewWallet (ce_bip env) (ce_ed env) (ce_rand env) pass of
                       Inl e \<Rightarrow> (d, Fatal (CreateFailed e))
                     | Inr w \<Rightarrow>
                         if d out \<noteq> None then (d, Fatal (FileExists out))
                         else
                           (case saveWallet env (wallet_info_of w) out d of
                              None \<Rightarrow> (d, Fatal (SaveFailed out))
                            | Some d' \<Rightarrow>
                                (d', Finished (Created out (GetAddressString w) (GetPublicHex (w_Keypair w))
                                  (w_Mnemonic w))))))))"

definition import_flags :: "string \<rightharpoonup> flag_value" where
  "import_flags = [''mnemonic'' \<mapsto> FString [], ''passphrase'' \<mapsto> FString [], ''output'' \<mapsto> FString ''wallet.json'']"

text \<open>A second reader starts where the first one's reads ended, not where its lines did.\<close>

definition ask_mnemonic :: "string \<Rightarrow> string list \<Rightarrow> fatal + string \<times> string list" where
  "ask_mnemonic mnemonic stdin =
     (if mnemonic = [] then
        (case ReadString (NewReader stdin) of
           (None, _) \<Rightarrow> Inl ReadMnemonicFailed
         | (Some mnemonicInput, _, stdin') \<Rightarrow> Inr (TrimSpace mnemonicInput, stdin'))
      else Inr (mnemonic, stdin))"

definition handleImport :: "'f cli_env \<Rightarrow> string list \<Rightarrow> string list \<Rightarrow> 'f dir \<Rightarrow> 'f dir \<times> outcome" where
  "handleImport env args stdin d =
     (case flag_Parse import_flags args of
        Inl e \<Rightarrow> (d, FlagExit (flag_exit e))
      | Inr fl \<Rightarrow>
          (case ask_mnemonic (str_flag fl ''mnemonic'') stdin of
             Inl e \<Rightarrow> (d, Fatal e)
           | Inr (mnemonic, stdin') \<Rightarrow>
               (case ask_passphrase (str_flag fl ''passphrase'') (NewReader stdin') of
                  Inl e \<Rightarrow> (d, Fatal e)
                | Inr pass \<Rightarrow>
                    (case CreateWalletFromMnemonic (ce_bip env) (ce_ed env) mnemonic pass of
                       Inl e \<Rightarrow> (d, Fatal (ImportFailed e))
                     | Inr w \<Rightarrow>
                         (let out = str_flag fl ''output'' in
                          case saveWallet env (wallet_info_of w) out d of
                            None \<Rightarrow> (d, Fatal (SaveFailed out))
                          | Some d' \<Rightarrow> (d', Finished (Imported out (GetAddressString w) (GetPublicHex (w_Keypair w)))))))))"

subsection \<open>Reading wallets\<close>

definition HasSuffix :: "string \<Rightarrow> string \<Rightarrow> bool" where
  "HasSuffix s t \<longleftrightarrow> length t \<le> length s \<and> drop (length s - length t) s = t"

definition wallet_name :: "string \<Rightarrow> bool" where
  "wallet_name name \<longleftrightarrow> HasPrefix name ''wallet'' \<and> HasSuffix name ''.json''"

definition handleList :: "'f cli_env \<Rightarrow> string list \<Rightarrow> 'f dir \<Rightarrow> outcome" where
  "handleList env args d =
     (case flag_Parse Map.empty args of
        Inl e \<Rightarrow> FlagExit (flag_exit e)
      | Inr _ \<Rightarrow>
          (let files = filter (\<lambda>name. d name \<noteq> Some SubDir \<and> wallet_name name) (ce_ReadDir env)
           in if files = [] then Finished NothingFound
              else Finished (Listed (map (\<lambda>name. (name, loadWallet env name d)) files))))"

definition export_flags :: "string \<rightharpoonup> flag_value" where
  "export_flags = [''input'' \<mapsto> FString ''wallet.json'', ''private'' \<mapsto> FBool False]"

definition handleExport :: "'f cli_env \<Rightarrow> string list \<Rightarrow> 'f dir \<Rightarrow> outcome" where
  "handleExport env args d =
     (case flag_Parse export_flags args of
        Inl e \<Rightarrow> FlagExit (flag_exit e)
      | Inr fl \<Rightarrow>
          (case loadWallet env (str_flag fl ''input'') d of
             None \<Rightarrow> Fatal (LoadFailed (str_flag fl ''input''))
           | Some info \<Rightarrow>
               (let exportData = [(''address'', wi_Address info), (''publicKey'', wi_PublicKey info),
                      (''mnemonic'', wi_Mnemonic info)]
                in Finished (Exported (if bool_flag fl ''private''
                     then exportData @ [(''privateKey'', wi_PrivateKey info)] else exportData)))))"

definition info_flags :: "string \<rightharpoonup> flag_value" where
  "info_flags = [''input'' \<mapsto> FString ''wallet.json'']"

definition handleInfo :: "'f cli_env \<Rightarrow> string list \<Rightarrow> 'f dir \<Rightarrow> outcome" where
  "handleInfo env args d =
     (case flag_Parse info_flags args of
        Inl e \<Rightarrow> FlagExit (flag_exit e)
      | Inr fl \<Rightarrow>
          (case loadWallet env (str_flag fl ''input'') d of
             None \<Rightarrow> Fatal (LoadFailed (str_flag fl ''input''))
           | Some info \<Rightarrow> Finished (Info info)))"

subsection \<open>Balances and transfers\<close>

definition balance_request :: "string \<Rightarrow> client_request" where
  "balance_request address =
     \<lparr>cq_Method = ''getBalance'', cq_Params = VObj [(''address'', VStr address)], cq_ID = 1\<rparr>"

definition queryBalance :: "'f cli_env \<Rightarrow> string \<Rightarrow> string \<Rightarrow> query_error + u64" where
  "queryBalance env rpcURL address =
     (case ce_post env rpcURL (balance_request address) of
        Inl e \<Rightarrow> Inl e
      | Inr resp \<Rightarrow>
          (case cr_Error resp of
             Some e \<Rightarrow> Inl (RpcFailed (re_Message e))
           | None \<Rightarrow>
               (case as_num (Some (cr_Result resp)) of
                  None \<Rightarrow> Inl BadBalance
                | Some balance \<Rightarrow> Inr (u64_of_f64 (ce_platform env) balance))))"

definition default_rpc :: string where
  "default_rpc = ''http://localhost:16314''"

definition balance_flags :: "string \<rightharpoonup> flag_value" where
  "balance_flags = [''address'' \<mapsto> FString [], ''rpc'' \<mapsto> FString default_rpc]"

definition handleBalance :: "'f cli_env \<Rightarrow> wallet option \<Rightarrow> string list \<Rightarrow> outcome" where
  "handleBalance env wm args =
     (case flag_Parse balance_flags args of
        Inl e \<Rightarrow> FlagExit (flag_exit e)
      | Inr fl \<Rightarrow>
          (case (if str_flag fl ''address'' \<noteq> [] then Some (str_flag fl ''address'')
                 else map_option GetAddressString wm) of
             None \<Rightarrow> Fatal NoAddress
           | Some targetAddress \<Rightarrow>
               (case queryBalance env (str_flag fl ''rpc'') targetAddress of
                  Inl e \<Rightarrow> Fatal (BalanceFailed e)
                | Inr balance \<Rightarrow> Finished (Balance targetAddress balance))))"

text \<open>No request is made.\<close>

definition sendTransaction :: "string \<Rightarrow> tx_request \<Rightarrow> tx_response" where
  "sendTransaction rpcURL q =
     \<lparr>tr_Hash = ''0x'' @ hex_encode (str_bytes ''mock_tx_hash''), tr_From = tq_From q, tr_To = tq_To q,
      tr_Amount = tq_Amount q, tr_Fee = tq_Fee q, tr_Nonce = 1, tr_Success = True\<rparr>"

definition send_flags :: "string \<rightharpoonup> flag_value" where
  "send_flags = [''to'' \<mapsto> FString [], ''amount'' \<mapsto> FUint64 0, ''fee'' \<mapsto> FUint64 1000000, ''rpc'' \<mapsto> FString default_rpc]"

definition handleSend :: "wallet option \<Rightarrow> string list \<Rightarrow> outcome" where
  "handleSend wm args =
     (case flag_Parse send_flags args of
        Inl e \<Rightarrow> FlagExit (flag_exit e)
      | Inr fl \<Rightarrow>
          if str_flag fl ''to'' = [] \<or> uint_flag fl ''amount'' = 0 then Fatal MissingRecipient
          else
            (case wm of
               None \<Rightarrow> Fatal NoWalletLoaded
             | Some w \<Rightarrow>
                 Finished (Sent (sendTransaction (str_flag fl ''rpc'')
                   \<lparr>tq_From = GetAddressString w, tq_To = str_flag fl ''to'', tq_Amount = of_nat (uint_flag fl ''amount''),
                    tq_Fee = of_nat (uint_flag fl ''fee''), tq_Data = []\<rparr>))))"

subsection \<open>The program\<close>

text \<open>Each run starts without a wallet.\<close>

definition wallet_main :: "'f cli_env \<Rightarrow> string list \<Rightarrow> string list \<Rightarrow> 'f dir \<Rightarrow> 'f dir \<times> outcome" where
  "wallet_main env argv stdin d =
     (case argv of
        [] \<Rightarrow> (d, UsageError)
      | command # args \<Rightarrow>
          if command = ''create'' then handleCreate env args stdin d
          else if command = ''import'' then handleImport env args stdin d
          else if command = ''list'' then (d, handleList env args d)
          else if command = ''export'' then (d, handleExport env args d)
          else if command = ''balance'' then (d, handleBalance env None args)
          else if command = ''send'' then (d, handleSend None args)
          else if command = ''info'' then (d, handleInfo env args d)
          else if command = ''help'' then (d, Finished Usage)
          else (d, UsageError))"

definition exit_code :: "outcome \<Rightarrow> int" where
  "exit_code r = (case r of Finished _ \<Rightarrow> 0 | Fatal _ \<Rightarrow> 1 | UsageError \<Rightarrow> 1 | FlagExit i \<Rightarrow> i)"

subsection \<open>Flags of the commands\<close>

lemma create_args:
  "flag_Parse create_flags [''--name'', n, ''--passphrase'', pass] =
     Inr (create_flags(''name'' \<mapsto> FString n, ''passphrase'' \<mapsto> FString pass))"
  using flag_Parse_str [of create_flags "''name''" "[]" n "[''--passphrase'', pass]"]
    flag_Parse_str [of "create_flags(''name'' \<mapsto> FString n)" "''passphrase''" "[]" pass "[]"]
  by (simp add: create_flags_def)

lemma import_args:
  "flag_Parse import_flags [''--mnemonic'', m, ''--passphrase'', pass, ''--output'', out] =
     Inr (import_flags(''mnemonic'' \<mapsto> FString m, ''passphrase'' \<mapsto> FString pass, ''output'' \<mapsto> FString out))"
  using flag_Parse_str [of import_flags "''mnemonic''" "[]" m "[''--passphrase'', pass, ''--output'', out]"]
    flag_Parse_str [of "import_flags(''mnemonic'' \<mapsto> FString m)" "''passphrase''" "[]" pass "[''--output'', out]"]
    flag_Parse_str [of "import_flags(''mnemonic'' \<mapsto> FString m, ''passphrase'' \<mapsto> FString pass)" "''output''"
      "''wallet.json''" out "[]"]
  by (simp add: import_flags_def)

lemma balance_args:
  "flag_Parse balance_flags [''--address'', a, ''--rpc'', url] =
     Inr (balance_flags(''address'' \<mapsto> FString a, ''rpc'' \<mapsto> FString url))"
  using flag_Parse_str [of balance_flags "''address''" "[]" a "[''--rpc'', url]"]
    flag_Parse_str [of "balance_flags(''address'' \<mapsto> FString a)" "''rpc''" default_rpc url "[]"]
  by (simp add: balance_flags_def)

lemma flag_defaults [simp]:
  "str_flag create_flags k = []" "str_flag import_flags ''mnemonic'' = []" "str_flag import_flags ''passphrase'' = []"
  "str_flag import_flags ''output'' = ''wallet.json''"
  by (simp_all add: create_flags_def import_flags_def str_flag_def)

subsection \<open>Files of wallets\<close>

definition keeps_ascii :: "'f wallet_codec \<Rightarrow> bool" where
  "keeps_ascii codec \<longleftrightarrow>
     (\<forall>info. is_ascii (wi_Address info) \<and> is_ascii (wi_PublicKey info) \<and> is_ascii (wi_PrivateKey info) \<and>
        is_ascii (wi_Mnemonic info) \<longrightarrow> wc_Unmarshal codec (wc_MarshalIndent codec info) = Some info)"

lemma hex_is_ascii [simp]: "is_ascii (hex_encode bs)"
  using set_hex_encode hex_not_space by (fastforce simp: is_ascii_def)

lemma wallet_info_read:
  assumes "keeps_ascii codec" and "is_ascii (w_Mnemonic w)"
  shows "wc_Unmarshal codec (wc_MarshalIndent codec (wallet_info_of w)) = Some (wallet_info_of w)"
  using assms by (simp add: keeps_ascii_def wallet_info_of_def GetAddressString_def GetPublicHex_def)

lemma NewWallet_mnemonic:
  assumes "NewWallet bip ed rand pass = Inr w"
  shows "CreateWalletFromMnemonic bip ed (w_Mnemonic w) pass = Inr w"
  using assms by (auto simp: NewWallet_def CreateWalletFromMnemonic_def rbind_eq_Inr)

lemma saveWallet_Some:
  "saveWallet env info f d = Some d' \<Longrightarrow> d' = d(f \<mapsto> RegularFile (wc_MarshalIndent (ce_codec env) info))"
  by (simp add: saveWallet_def split: if_splits)

text \<open>What a run that creates or imports did.\<close>

definition wrote :: "'f cli_env \<Rightarrow> string \<Rightarrow> wallet \<Rightarrow> 'f dir \<Rightarrow> 'f dir \<Rightarrow> bool" where
  "wrote env f w d d' \<longleftrightarrow> d' = d(f \<mapsto> RegularFile (wc_MarshalIndent (ce_codec env) (wallet_info_of w)))"

lemma handleCreate_kept:
  assumes "handleCreate env args stdin d = (d', r)" and "\<forall>f a p m. r \<noteq> Finished (Created f a p m)"
  shows "d' = d"
  using assms unfolding handleCreate_def by (simp split: sum.splits option.splits if_splits prod.splits) (auto split: if_splits)

lemma handleCreate_saved:
  assumes "handleCreate env args stdin d = (d', Finished (Created f a p m))"
  shows "\<exists>pass w. d f = None \<and> wrote env f w d d' \<and> a = GetAddressString w \<and> p = GetPublicHex (w_Keypair w) \<and>
    m = w_Mnemonic w \<and> NewWallet (ce_bip env) (ce_ed env) (ce_rand env) pass = Inr w"
  using assms unfolding handleCreate_def wrote_def
  by (simp split: sum.splits option.splits prod.splits split del: if_split)
    (auto split: if_splits dest!: saveWallet_Some)

lemma handleImport_kept:
  assumes "handleImport env args stdin d = (d', r)" and "\<forall>f a p. r \<noteq> Finished (Imported f a p)"
  shows "d' = d"
  using assms unfolding handleImport_def Let_def by (simp split: sum.splits option.splits prod.splits) auto

lemma handleImport_saved:
  assumes "handleImport env args stdin d = (d', Finished (Imported f a p))"
  shows "\<exists>w. wrote env f w d d' \<and> a = GetAddressString w \<and> p = GetPublicHex (w_Keypair w)"
  using assms unfolding handleImport_def Let_def wrote_def
  by (simp split: sum.splits option.splits prod.splits) (auto dest!: saveWallet_Some)

text \<open>The runs of the program in one directory, each with its own surroundings and input.\<close>

primrec sessions ::
  "('f cli_env \<times> string list \<times> string list) list \<Rightarrow> 'f dir \<Rightarrow> 'f dir \<times> outcome list" where
  "sessions [] d = (d, [])"
| "sessions (s # ss) d =
     (case s of
        (env, argv, stdin) \<Rightarrow>
          (case wallet_main env argv stdin d of
             (d', r) \<Rightarrow> (case sessions ss d' of (d'', rs) \<Rightarrow> (d'', r # rs))))"

lemma handleImport_other:
  assumes "handleImport env args stdin d = (d', r)" and "\<forall>a p. r \<noteq> Finished (Imported f a p)"
  shows "d' f = d f"
proof (cases "\<exists>f' a p. r = Finished (Imported f' a p)")
  case True
  then obtain f' a p where r: "r = Finished (Imported f' a p)" by blast
  with assms(2) have "f' \<noteq> f" by blast
  with handleImport_saved assms(1) show ?thesis unfolding r by (fastforce simp: wrote_def)
next
  case False
  with handleImport_kept [OF assms(1)] show ?thesis by blast
qed

lemma handleCreate_other:
  assumes "handleCreate env args stdin d = (d', r)" and "d f \<noteq> None"
  shows "d' f = d f"
proof (cases "\<exists>f' a p m. r = Finished (Created f' a p m)")
  case True
  then obtain f' a p m where r: "r = Finished (Created f' a p m)" by blast
  with handleCreate_saved assms show ?thesis unfolding r by (fastforce simp: wrote_def)
next
  case False
  with handleCreate_kept [OF assms(1)] show ?thesis by blast
qed

lemma wallet_main_other:
  assumes "wallet_main env argv stdin d = (d', r)" and "d f \<noteq> None" and "\<forall>a p. r \<noteq> Finished (Imported f a p)"
  shows "d' f = d f"
  using assms handleCreate_other [of env _ stdin d d' r f] handleImport_other [of env _ stdin d d' r f]
  by (auto simp: wallet_main_def split: list.splits if_splits)

lemma sessions_keep:
  "d f \<noteq> None \<Longrightarrow> \<forall>a p. Finished (Imported f a p) \<notin> set (snd (sessions ss d)) \<Longrightarrow> fst (sessions ss d) f = d f"
proof (induction ss arbitrary: d)
  case (Cons s ss)
  obtain env argv stdin where s: "s = (env, argv, stdin)" by (cases s)
  obtain d' r where m: "wallet_main env argv stdin d = (d', r)" by (cases "wallet_main env argv stdin d")
  obtain d'' rs where t: "sessions ss d' = (d'', rs)" by (cases "sessions ss d'")
  have "d' f = d f"
    using Cons.prems by (intro wallet_main_other [OF m]) (auto simp: s m t)
  moreover from this have "d'' f = d' f"
    using Cons.IH [of d'] Cons.prems by (simp add: s m t)
  ultimately show ?case by (simp add: s m t)
qed simp

lemma handleImport_not_created: "handleImport env args stdin d \<noteq> (d', Finished (Created f a p m))"
  unfolding handleImport_def Let_def by (simp split: sum.splits option.splits prod.splits)

lemma handleCreate_not_imported: "handleCreate env args stdin d = (d', r) \<Longrightarrow> r \<noteq> Finished (Imported f a p)"
  unfolding handleCreate_def by (auto split: sum.splits option.splits prod.splits if_splits)

lemma wallet_main_created:
  assumes "wallet_main env argv stdin d = (d', Finished (Created f a p m))"
  shows "\<exists>pass w. d f = None \<and> wrote env f w d d' \<and> a = GetAddressString w \<and> p = GetPublicHex (w_Keypair w) \<and>
    m = w_Mnemonic w \<and> NewWallet (ce_bip env) (ce_ed env) (ce_rand env) pass = Inr w"
  using assms handleCreate_saved [of env _ stdin d d' f a p m] handleImport_not_created [of env _ stdin d d' f a p m]
  by (auto simp: wallet_main_def handleList_def handleExport_def handleBalance_def handleSend_def handleInfo_def Let_def
      split: list.splits if_splits sum.splits option.splits)

lemma handleCreate_passphrase:
  assumes "handleCreate env [''--name'', n, ''--passphrase'', pass] stdin d = (d', Finished (Created f a p m))" and "pass \<noteq> []"
  shows "\<exists>w. wrote env f w d d' \<and> a = GetAddressString w \<and> p = GetPublicHex (w_Keypair w) \<and>
    m = w_Mnemonic w \<and> NewWallet (ce_bip env) (ce_ed env) (ce_rand env) pass = Inr w"
  using assms unfolding handleCreate_def create_args wrote_def
  by (simp add: ask_passphrase_def split: sum.splits option.splits prod.splits split del: if_split)
    (auto split: if_splits dest!: saveWallet_Some)


text \<open>
  No run of the program but an import that names a file changes what stands under its name, in any
  sequence of runs; creating never does.
\<close>

theorem wallet_files_kept:
  assumes "d f \<noteq> None" and "\<forall>a p. Finished (Imported f a p) \<notin> set (snd (sessions ss d))"
  shows "fst (sessions ss d) f = d f"
  using assms by (rule sessions_keep)

lemma ask_mnemonic_chunk:
  assumes "newline \<notin> set m"
  shows "ask_mnemonic [] ((m @ newline # t) # cs) = Inr (TrimSpace (m @ [newline]), cs)"
  by (simp only: ask_mnemonic_def NewReader_def ReadString_chunk [OF assms] Let_def option.case prod.case if_True simp_thms)

lemma ask_passphrase_chunk:
  assumes "newline \<notin> set p"
  shows "ask_passphrase [] (NewReader ((p @ newline # t) # cs)) = Inr (TrimSpace (p @ [newline]))"
  by (simp only: ask_passphrase_def NewReader_def ReadString_chunk [OF assms] option.case fst_conv if_True simp_thms)

lemma create_output_lines:
  assumes "newline \<notin> set m"
  shows "create_output [] [] (NewReader [m @ newline # t]) =
      Inr (if TrimSpace (m @ [newline]) \<noteq> [] then wallet_file (TrimSpace (m @ [newline])) else ''wallet.json'', t, [])"
    and "create_output [] [] (NewReader [m @ [newline], t]) =
      Inr (if TrimSpace (m @ [newline]) \<noteq> [] then wallet_file (TrimSpace (m @ [newline])) else ''wallet.json'', [], [t])"
  by (simp_all only: create_output_def NewReader_def ReadString_chunk [OF assms] Let_def option.case prod.case if_True
      simp_thms)

lemma ask_passphrase_buffered:
  assumes "newline \<notin> set p"
  shows "ask_passphrase [] (p @ [newline], cs) = Inr (TrimSpace (p @ [newline]))"
    and "ask_passphrase [] ([], (p @ [newline]) # cs) = Inr (TrimSpace (p @ [newline]))"
  by (simp_all only: ask_passphrase_def ReadString_line [OF assms] ReadString_chunk [OF assms] option.case fst_conv if_True
      simp_thms)

text \<open>
  Mnemonic and passphrase arriving in one read, as from a pipe, fail to import: the reader of the
  mnemonic takes both and is thrown away. In two reads, as from a terminal, they are both found;
  creating a wallet keeps its reader and finds its two answers either way.
\<close>

theorem piped_import_fails:
  assumes "newline \<notin> set m" and "newline \<notin> set p"
  shows "wallet_main env [''import''] [m @ [newline] @ p @ [newline]] d = (d, Fatal ReadPassphraseFailed) \<and>
    (\<forall>e. CreateWalletFromMnemonic (ce_bip env) (ce_ed env) (TrimSpace (m @ [newline])) (TrimSpace (p @ [newline])) = Inl e \<longrightarrow>
       wallet_main env [''import''] [m @ [newline], p @ [newline]] d = (d, Fatal (ImportFailed e))) \<and>
    (\<forall>w. CreateWalletFromMnemonic (ce_bip env) (ce_ed env) (TrimSpace (m @ [newline])) (TrimSpace (p @ [newline])) = Inr w \<and>
         ce_writable env ''wallet.json'' \<and> d ''wallet.json'' \<noteq> Some SubDir \<longrightarrow>
       snd (wallet_main env [''import''] [m @ [newline], p @ [newline]] d) =
         Finished (Imported ''wallet.json'' (GetAddressString w) (GetPublicHex (w_Keypair w)))) \<and>
    wallet_main env [''create''] [m @ [newline] @ p @ [newline]] d =
      wallet_main env [''create''] [m @ [newline], p @ [newline]] d"
proof -
  have one: "ask_mnemonic [] [m @ [newline] @ p @ [newline]] = Inr (TrimSpace (m @ [newline]), [])"
    using ask_mnemonic_chunk [OF assms(1), of "p @ [newline]" "[]"] by simp
  have two: "ask_mnemonic [] [m @ [newline], p @ [newline]] = Inr (TrimSpace (m @ [newline]), [p @ [newline]])"
    using ask_mnemonic_chunk [OF assms(1), of "[]" "[p @ [newline]]"] by simp
  have pass: "ask_passphrase [] (NewReader [p @ [newline]]) = Inr (TrimSpace (p @ [newline]))"
    using ask_passphrase_chunk [OF assms(2), of "[]" "[]"] by simp
  have none: "ask_passphrase [] (NewReader []) = Inl ReadPassphraseFailed"
    by (simp add: ask_passphrase_def NewReader_def)
  have "wallet_main env [''create''] [m @ [newline] @ p @ [newline]] d =
      wallet_main env [''create''] [m @ [newline], p @ [newline]] d"
    by (simp add: wallet_main_def handleCreate_def
        create_output_lines [OF assms(1)] ask_passphrase_buffered [OF assms(2)])
  with one two pass none show ?thesis
    by (simp add: wallet_main_def handleImport_def saveWallet_def Let_def)
qed

subsection \<open>A balance from a node\<close>

text \<open>The answer of a node's handlers to a request of the wallet.\<close>

definition node_post ::
  "('s, 'e) persister \<Rightarrow> rpc_env \<Rightarrow> 's chain \<Rightarrow> client_request \<Rightarrow> query_error + client_response" where
  "node_post ps nenv c q =
     (case snd (node_call ps (\<lambda>_. nenv) q c) of Inl _ \<Rightarrow> Inl (RequestFailed []) | Inr resp \<Rightarrow> Inr resp)"

lemma queryBalance_node:
  assumes "ce_post env url = node_post ps nenv c"
  shows "queryBalance env url (GetAddressString w) =
    Inr (u64_of_f64 (ce_platform env) (f64_of_u64 (bc_GetBalance (ev_utxo_order nenv) (w_Address w) c)))"
proof -
  have "AddressFromString (GetAddressString w) = w_Address w"
    using AddressFromString_kalon1 [of "w_Address w"] by (simp add: GetAddressString_def Address_String_def)
  then show ?thesis
    using assms
    by (simp add: queryBalance_def node_post_def node_call_def as_request_def balance_request_def handleRPCMethod_def
        handleGetBalance_def rpc_ok_def as_answer_def)
qed

lemma handleBalance_node:
  assumes "ce_post env url = node_post ps nenv c"
  shows "wallet_main env [''balance'', ''--address'', GetAddressString w, ''--rpc'', url] stdin d =
    (d, Finished (Balance (GetAddressString w)
      (u64_of_f64 (ce_platform env) (f64_of_u64 (bc_GetBalance (ev_utxo_order nenv) (w_Address w) c)))))"
proof -
  have "GetAddressString w \<noteq> []" by (simp add: GetAddressString_def)
  then show ?thesis
    by (simp add: wallet_main_def handleBalance_def balance_args queryBalance_node [OF assms])
qed

text \<open>
  C25. The balance the wallet prints for its own address is what the node's ledger, replayed from its
  blocks, holds for that address, as long as it is below \<open>2 ^ 53\<close>.
\<close>

theorem wallet_shows_ledger_balance:
  assumes "reachable ps g st c" and "fresh_start ps st" and "range_order (ch_utxoSet c) (ev_utxo_order nenv)"
    and "ce_post env url = node_post ps nenv c"
    and "unat (coins_balance (ledger_of (ch_blocks c)) (w_Address w)) < 2 ^ 53"
  shows "wallet_main env [''balance'', ''--address'', GetAddressString w, ''--rpc'', url] stdin d =
    (d, Finished (Balance (GetAddressString w) (coins_balance (ledger_of (ch_blocks c)) (w_Address w))))"
proof -
  have "bc_GetBalance (ev_utxo_order nenv) (w_Address w) c = coins_balance (ledger_of (ch_blocks c)) (w_Address w)"
    using reachable_inv [OF assms(1,2)] GetBalance_coins [of "ch_utxoSet c" "ev_utxo_order nenv" "w_Address w"] assms(3)
    by (simp add: chain_inv_def bc_GetBalance_def)
  then show ?thesis
    using assms(5) by (simp add: handleBalance_node [OF assms(4)] u64_f64_roundtrip)
qed

lemma import_name_refused:
  "flag_Parse import_flags (''--mnemonic'' # m # ''--name'' # rest) = Inl FlagBad"
proof -
  have "flag_Parse import_flags (''--mnemonic'' # m # ''--name'' # rest) =
      flag_Parse (import_flags(''mnemonic'' \<mapsto> FString m)) (''--name'' # rest)"
    using flag_Parse_str [of import_flags "''mnemonic''" "[]" m "''--name'' # rest"] by (simp add: import_flags_def)
  also have "\<dots> = Inl FlagBad"
    by (subst flag_Parse.simps) (simp add: parseOne_def split_flag_def import_flags_def Let_def)
  finally show ?thesis .
qed

text \<open>
  The program never sends a transaction: whatever its arguments, \<^verbatim>\<open>send\<close> ends with a usage
  message or an error, because a run begins without a wallet; and \<^verbatim>\<open>import --name\<close>, which the
  usage message shows, is refused as an unknown flag.
\<close>

theorem send_never_sends:
  "\<exists>r. wallet_main env (''send'' # args) stdin d = (d, r) \<and>
     (r \<in> {Fatal MissingRecipient, Fatal NoWalletLoaded} \<or> (\<exists>i. r = FlagExit i)) \<and>
     wallet_main env (''import'' # ''--mnemonic'' # m # ''--name'' # rest) stdin d = (d, FlagExit 2)"
  by (auto simp: wallet_main_def handleSend_def handleImport_def import_name_refused split: sum.splits)

subsection \<open>Instances\<close>

text \<open>Files that hold the wallet itself, and no network.\<close>

definition sample_cli :: "wallet_info cli_env" where
  "sample_cli = \<lparr>ce_bip = toy_bip, ce_ed = toy_ed, ce_rand = (\<lambda>n. Inr (replicate n 65)),
     ce_codec = \<lparr>wc_MarshalIndent = id, wc_Unmarshal = Some\<rparr>, ce_writable = (\<lambda>_. True), ce_ReadDir = [],
     ce_platform = zero_platform, ce_post = (\<lambda>_ _. Inl (RequestFailed []))\<rparr>"

lemma sample_codec: "keeps_ascii (ce_codec sample_cli)"
  by (simp add: keeps_ascii_def sample_cli_def)

lemma sample_create:
  "\<exists>d' addr pub. wallet_main sample_cli [''create'', ''--name'', ''a'', ''--passphrase'', ''b''] [] Map.empty =
     (d', Finished (Created ''wallet-a.json'' addr pub (replicate 32 CHR ''A'')))"
proof -
  have "\<exists>w. NewWallet toy_bip toy_ed (\<lambda>n. Inr (replicate n 65)) ''b'' = Inr w \<and> w_Mnemonic w = replicate 32 CHR ''A''"
    by (simp add: NewWallet_def GenerateMnemonic_def generateEntropy_def NewBIP39Manager_def CreateWalletFromMnemonic_def
        MnemonicToKeypair_def MnemonicToSeed_def SeedToKeypair_def FromSeed_def toy_bip_def Let_def bytes_str_def
        replicate_eval char_byte_def) code_simp
  then show ?thesis
    by (auto simp: wallet_main_def handleCreate_def create_args create_output_def ask_passphrase_def
        sample_cli_def saveWallet_def wallet_file_def NewReader_def)
qed

definition owner_99 :: wallet where
  "owner_99 = \<lparr>w_Mnemonic = [], w_Passphrase = [], w_Keypair = \<lparr>kp_Private = [], kp_Public = []\<rparr>, w_Address = 99\<rparr>"


theorem wallet_files_kept_witness:
  "fst (sessions [(sample_cli, [''create'', ''--name'', ''a'', ''--passphrase'', ''b''], []), (sample_cli, [''list''], [])]
     [''wallet-a.json'' \<mapsto> RegularFile (wallet_info_of owner_99)]) ''wallet-a.json'' =
     Some (RegularFile (wallet_info_of owner_99))"
proof -
  let ?ss = "[(sample_cli, [''create'', ''--name'', ''a'', ''--passphrase'', ''b''], []), (sample_cli, [''list''], [])]"
  obtain d1 r1 where c: "wallet_main sample_cli [''create'', ''--name'', ''a'', ''--passphrase'', ''b''] []
      [''wallet-a.json'' \<mapsto> RegularFile (wallet_info_of owner_99)] = (d1, r1)"
    by (cases "wallet_main sample_cli [''create'', ''--name'', ''a'', ''--passphrase'', ''b''] []
      [''wallet-a.json'' \<mapsto> RegularFile (wallet_info_of owner_99)]")
  have "r1 \<noteq> Finished (Imported f a p)" for f a p
    using c unfolding wallet_main_def by (simp add: handleCreate_not_imported)
  moreover have "wallet_main sample_cli [''list''] [] d1 = (d1, Finished NothingFound)"
    by (simp add: wallet_main_def handleList_def sample_cli_def)
  ultimately have "\<forall>a p. Finished (Imported ''wallet-a.json'' a p) \<notin>
      set (snd (sessions ?ss [''wallet-a.json'' \<mapsto> RegularFile (wallet_info_of owner_99)]))"
    by (simp add: c) metis
  with wallet_files_kept [of "[''wallet-a.json'' \<mapsto> RegularFile (wallet_info_of owner_99)]" "''wallet-a.json''" ?ss] show ?thesis by simp
qed

theorem piped_import_fails_witness:
  "wallet_main sample_cli [''import''] [''w'' @ [newline] @ ''p'' @ [newline]] Map.empty = (Map.empty, Fatal ReadPassphraseFailed)"
  using piped_import_fails [of "''w''" "''p''" sample_cli Map.empty] by simp

theorem wallet_shows_ledger_balance_witness:
  "\<exists>env :: wallet_info cli_env. wallet_main env [''balance'', ''--address'', GetAddressString owner_99, ''--rpc'', ''node''] [] Map.empty =
     (Map.empty, Finished (Balance (GetAddressString owner_99) 5000000))"
proof -
  let ?k = "getKey (tx_Hash (createBlockRewardTransaction 1700000000000000000 99 5000000)) 0"
  define nenv where "nenv = sample_env\<lparr>ev_utxo_order := [?k]\<rparr>"
  define env where "env = sample_cli\<lparr>ce_post := (\<lambda>_. node_post no_persister nenv short_chain)\<rparr>"
  have r: "range_order (ch_utxoSet short_chain) (ev_utxo_order nenv)"
    by (simp add: range_order_def ch_utxoSet_short_chain AddUTXO_def NewUTXOSet_def nenv_def)
  have "bc_GetBalance [?k] 99 short_chain = 5000000"
    by (simp add: bc_GetBalance_def GetBalance_def GetUTXOs_def sum_amounts_def ch_utxoSet_short_chain
        AddUTXO_def NewUTXOSet_def)
  then have b: "coins_balance (ledger_of (ch_blocks short_chain)) (w_Address owner_99) = 5000000"
    using reachable_inv [OF reachable_short_chain fresh_None] GetBalance_coins [of "ch_utxoSet short_chain" "[?k]" 99] r
    by (simp add: chain_inv_def bc_GetBalance_def nenv_def owner_99_def)
  have "ce_post env ''node'' = node_post no_persister nenv short_chain" by (simp add: env_def)
  from wallet_shows_ledger_balance [OF reachable_short_chain fresh_None r this, of owner_99 "[]" Map.empty] b
  show ?thesis by auto
qed

end
