(* ===== verification/Explorer.thy ===== *)
theory Explorer
  imports WalletCli RpcServer
begin

text \<open>
  \<^verbatim>\<open>explorer/api/main.go\<close>: the explorer, an HTTP server that asks a node over JSON-RPC for blocks and
  height and answers the rest with fixed data. The router it uses is not part of the program and is
  an argument; so are the answers to its requests and its clock.
\<close>

subsection \<open>Data\<close>

record xp_api =
  xp_rpcURL :: string
  xp_port :: string

record xp_transaction =
  xt_Hash :: string
  xt_From :: string
  xt_To :: string
  xt_Amount :: u64
  xt_Nonce :: u64
  xt_Fee :: u64
  xt_GasUsed :: u64
  xt_GasPrice :: u64
  xt_Data :: string
  xt_Timestamp :: gotime
  xt_BlockHash :: string
  xt_BlockNumber :: u64
  xt_Status :: string

record xp_block =
  xb_Hash :: string
  xb_Number :: u64
  xb_ParentHash :: string
  xb_Timestamp :: gotime
  xb_Difficulty :: u64
  xb_Miner :: string
  xb_Nonce :: u64
  xb_MerkleRoot :: string
  xb_TxCount :: u32
  xb_NetworkFee :: u64
  xb_TreasuryFee :: u64
  xb_Size :: int
  xb_GasUsed :: u64
  xb_GasLimit :: u64
  xb_Transactions :: "xp_transaction list"

record xp_address =
  xa_Address :: string
  xa_Balance :: u64
  xa_TxCount :: u64
  xa_FirstSeen :: gotime
  xa_LastSeen :: gotime
  xa_IsContract :: bool

record xp_treasury =
  xy_Address :: string
  xy_Balance :: u64
  xy_BlockFees :: u64
  xy_TxFees :: u64
  xy_TotalIncome :: u64
  xy_LastUpdate :: gotime

record xp_stats =
  xs_BlockHeight :: u64
  xs_TotalBlocks :: u64
  xs_TotalTxs :: u64
  xs_TotalAddresses :: u64
  xs_NetworkHashRate :: f64
  xs_Difficulty :: u64
  xs_BlockTime :: f64
  xs_LastBlockTime :: gotime
  xs_Peers :: int
  xs_MempoolSize :: int

record xp_mempool_tx =
  xm_Hash :: string
  xm_From :: string
  xm_To :: string
  xm_Amount :: u64
  xm_Fee :: u64
  xm_GasPrice :: u64
  xm_Timestamp :: gotime
  xm_Priority :: int

text \<open>What a handler puts into \<^verbatim>\<open>Data\<close>, by its Go type; a map is given by its entries.\<close>

datatype xp_data =
  NoXData | XHealth string gotime string | XBlocks "xp_block list" | XBlock xp_block | XTransactions "xp_transaction list"
| XTransaction xp_transaction | XPending "xp_mempool_tx list" | XAddress xp_address | XTreasury xp_treasury
| XStats xp_stats | XMap "(string \<times> rpc_value) list" | XMaps "(string \<times> rpc_value) list list"

text \<open>The pagination field \<^verbatim>\<open>Meta\<close> is never set.\<close>

record xp_response =
  xr_Success :: bool
  xr_Data :: xp_data
  xr_Error :: string

datatype xp_reply = XReply int xp_response | XPanic go_panic

text \<open>What a handler finds: the variables of its route, the query, its clock, and the node.\<close>

record xp_env =
  xe_vars :: "string \<Rightarrow> string"
  xe_query :: "string \<Rightarrow> string"
  xe_now :: gotime
  xe_platform :: platform
  xe_post :: "string \<Rightarrow> client_request \<Rightarrow> string + (string \<times> gojson) list option"

definition NewExplorerAPI :: "string \<Rightarrow> string \<Rightarrow> xp_api" where
  "NewExplorerAPI rpcURL port = \<lparr>xp_rpcURL = rpcURL, xp_port = port\<rparr>"

definition explorer_config :: "(string \<Rightarrow> string) \<Rightarrow> xp_api" where
  "explorer_config getenv =
     (let rpcURL = getenv ''KALON_RPC_URL''; rpcURL = (if rpcURL = [] then ''http://localhost:16316'' else rpcURL);
          port = getenv ''KALON_API_ADDR''; port = (if port = [] then ''8081'' else port)
      in NewExplorerAPI rpcURL port)"

definition reply_ok :: "xp_data \<Rightarrow> xp_reply" where
  "reply_ok data = XReply 200 \<lparr>xr_Success = True, xr_Data = data, xr_Error = []\<rparr>"

definition xp_writeError :: "int \<Rightarrow> string \<Rightarrow> xp_reply" where
  "xp_writeError status message = XReply status \<lparr>xr_Success = False, xr_Data = NoXData, xr_Error = message\<rparr>"

text \<open>The reply's JSON object, \<open>None\<close> for null; a request without parameters has no \<^verbatim>\<open>params\<close>.\<close>

definition xp_callRPC ::
  "xp_api \<Rightarrow> xp_env \<Rightarrow> string \<Rightarrow> (string \<times> rpc_value) list option \<Rightarrow> string + (string \<times> gojson) list option" where
  "xp_callRPC api env method params =
     xe_post env (xp_rpcURL api @ ''/rpc'')
       \<lparr>cq_Method = method, cq_Params = (case params of Some m \<Rightarrow> VObj m | None \<Rightarrow> VNil), cq_ID = 1\<rparr>"

definition result_of :: "(string \<times> gojson) list option \<Rightarrow> gojson option" where
  "result_of rpcResp = (case rpcResp of Some m \<Rightarrow> map_of m ''result'' | None \<Rightarrow> None)"

subsection \<open>Blocks\<close>

definition blank_block :: xp_block where
  "blank_block = \<lparr>xb_Hash = [], xb_Number = 0, xb_ParentHash = [], xb_Timestamp = zero_time, xb_Difficulty = 0,
     xb_Miner = [], xb_Nonce = 0, xb_MerkleRoot = [], xb_TxCount = 0, xb_NetworkFee = 0, xb_TreasuryFee = 0,
     xb_Size = 0, xb_GasUsed = 0, xb_GasLimit = 0, xb_Transactions = []\<rparr>"

definition text_field :: "(string \<times> gojson) list \<Rightarrow> string \<Rightarrow> string" where
  "text_field m k = (case as_str (map_of m k) of Some s \<Rightarrow> s | None \<Rightarrow> [])"

text \<open>The one assertion without a check, on \<^verbatim>\<open>number\<close>, panics where it fails.\<close>

definition convert_block :: "platform \<Rightarrow> (string \<times> gojson) list \<Rightarrow> xp_block option" where
  "convert_block pl bd =
     (case as_num (map_of bd ''number'') of
        None \<Rightarrow> None
      | Some n \<Rightarrow>
          Some (blank_block\<lparr>xb_Number := u64_of_f64 pl n, xb_Hash := text_field bd ''hash'',
            xb_ParentHash := text_field bd ''parentHash'', xb_Miner := text_field bd ''miner'',
            xb_Nonce := num_field pl bd ''nonce'', xb_Difficulty := num_field pl bd ''difficulty'',
            xb_TxCount := (case as_num (map_of bd ''txCount'') of Some x \<Rightarrow> u32_of_f64 pl x | None \<Rightarrow> 0),
            xb_NetworkFee := num_field pl bd ''networkFee'', xb_TreasuryFee := num_field pl bd ''treasuryFee'',
            xb_Timestamp := (case as_num (map_of bd ''timestamp'') of
              Some x \<Rightarrow> int_of_f64 pl x * 1000000000 | None \<Rightarrow> zero_time)\<rparr>))"

fun convert_blocks :: "platform \<Rightarrow> gojson list \<Rightarrow> xp_block list option" where
  "convert_blocks pl [] = Some []"
| "convert_blocks pl (blockData # rest) =
     (case as_obj (Some blockData) of
        None \<Rightarrow> convert_blocks pl rest
      | Some bd \<Rightarrow>
          (case convert_block pl bd of
             None \<Rightarrow> None
           | Some b \<Rightarrow> map_option ((#) b) (convert_blocks pl rest)))"

definition page_limit :: "string \<Rightarrow> int" where
  "page_limit s = (let limit = snd (Atoi s) in if limit \<le> 0 \<or> 100 < limit then 20 else limit)"

definition xp_handleHealth :: "xp_env \<Rightarrow> xp_reply" where
  "xp_handleHealth env = reply_ok (XHealth ''healthy'' (xe_now env) ''1.0.2'')"

definition handleGetBlocks :: "xp_api \<Rightarrow> xp_env \<Rightarrow> xp_reply" where
  "handleGetBlocks api env =
     (let limit = page_limit (xe_query env ''limit'') in
      case xp_callRPC api env ''getRecentBlocks'' (Some [(''limit'', VI64 limit)]) of
        Inl _ \<Rightarrow> reply_ok (XBlocks [])
      | Inr None \<Rightarrow> reply_ok (XBlocks [])
      | Inr rpcResp \<Rightarrow>
          (case as_arr (result_of rpcResp) of
             None \<Rightarrow> reply_ok (XBlocks [])
           | Some rpcBlocks \<Rightarrow>
               if length rpcBlocks = 0 then reply_ok (XBlocks [])
               else
                 (case convert_blocks (xe_platform env) rpcBlocks of
                    None \<Rightarrow> XPanic TypeAssertion
                  | Some blocks \<Rightarrow> reply_ok (XBlocks blocks))))"

definition handleGetLatestBlock :: "xp_api \<Rightarrow> xp_env \<Rightarrow> xp_reply" where
  "handleGetLatestBlock api env =
     (case xp_callRPC api env ''getBestBlock'' None of
        Inl _ \<Rightarrow> xp_writeError 500 ''Failed to fetch block''
      | Inr rpcResp \<Rightarrow>
          (case as_obj (result_of rpcResp) of
             None \<Rightarrow> xp_writeError 500 ''Invalid block data''
           | Some result \<Rightarrow>
               (let height = (case as_num (map_of result ''number'') of Some x \<Rightarrow> x | None \<Rightarrow> f64_of_nat 0);
                    hash = text_field result ''hash''
                in reply_ok (XBlock (blank_block\<lparr>xb_Hash := hash, xb_Number := u64_of_f64 (xe_platform env) height,
                     xb_Timestamp := xe_now env, xb_TxCount := 1\<rparr>)))))"

definition hours :: "int \<Rightarrow> int" where
  "hours n = n * 3600 * 1000000000"

definition mock_block :: "gotime \<Rightarrow> xp_block" where
  "mock_block now = blank_block\<lparr>xb_Number := 1, xb_ParentHash := ''0x0000000000000000'', xb_Timestamp := now - hours 1,
     xb_Difficulty := 1000, xb_Miner := ''kalon1miner123456789'', xb_Nonce := 12345, xb_MerkleRoot := ''0xabcdef1234567890'',
     xb_TxCount := 5, xb_NetworkFee := 250000, xb_TreasuryFee := 250000, xb_Size := 1024, xb_GasUsed := 21000,
     xb_GasLimit := 1000000\<rparr>"

definition handleGetBlockByHash :: "xp_env \<Rightarrow> xp_reply" where
  "handleGetBlockByHash env = reply_ok (XBlock ((mock_block (xe_now env))\<lparr>xb_Hash := xe_vars env ''hash''\<rparr>))"

definition handleGetBlockByHeight :: "xp_env \<Rightarrow> xp_reply" where
  "handleGetBlockByHeight env =
     (case ParseUint10 (xe_vars env ''height'') of
        Inl _ \<Rightarrow> xp_writeError 400 ''Invalid height''
      | Inr height \<Rightarrow>
          reply_ok (XBlock ((mock_block (xe_now env))\<lparr>xb_Hash := ''0x1234567890abcdef'', xb_Number := of_nat height\<rparr>)))"

subsection \<open>Transactions\<close>

definition mock_transaction :: "gotime \<Rightarrow> xp_transaction" where
  "mock_transaction now = \<lparr>xt_Hash = ''0xtx1234567890abcdef'', xt_From = ''kalon1sender123456789'',
     xt_To = ''kalon1receiver123456789'', xt_Amount = 1000000, xt_Nonce = 1, xt_Fee = 10000, xt_GasUsed = 21000,
     xt_GasPrice = 1000, xt_Data = ''0x'', xt_Timestamp = now - hours 1 div 2, xt_BlockHash = ''0x1234567890abcdef'',
     xt_BlockNumber = 1, xt_Status = ''confirmed''\<rparr>"

definition handleGetTransactions :: "xp_env \<Rightarrow> xp_reply" where
  "handleGetTransactions env = reply_ok (XTransactions [mock_transaction (xe_now env)])"

definition handleGetTransaction :: "xp_env \<Rightarrow> xp_reply" where
  "handleGetTransaction env =
     reply_ok (XTransaction ((mock_transaction (xe_now env))\<lparr>xt_Hash := xe_vars env ''hash''\<rparr>))"

definition handleGetPendingTransactions :: "xp_env \<Rightarrow> xp_reply" where
  "handleGetPendingTransactions env =
     reply_ok (XPending [\<lparr>xm_Hash = ''0xtx1234567890abcdef'', xm_From = ''kalon1sender123456789'',
       xm_To = ''kalon1receiver123456789'', xm_Amount = 1000000, xm_Fee = 10000, xm_GasPrice = 1000,
       xm_Timestamp = xe_now env, xm_Priority = 1\<rparr>])"

subsection \<open>Addresses, treasury and network\<close>

definition handleGetAddress :: "xp_env \<Rightarrow> xp_reply" where
  "handleGetAddress env =
     reply_ok (XAddress \<lparr>xa_Address = xe_vars env ''address'', xa_Balance = 1000000000, xa_TxCount = 25,
       xa_FirstSeen = xe_now env - hours 24, xa_LastSeen = xe_now env - hours 1, xa_IsContract = False\<rparr>)"

definition handleGetAddressTransactions :: "xp_env \<Rightarrow> xp_reply" where
  "handleGetAddressTransactions env =
     reply_ok (XTransactions [(mock_transaction (xe_now env))\<lparr>xt_From := xe_vars env ''address''\<rparr>])"

definition handleGetAddressBalance :: "xp_env \<Rightarrow> xp_reply" where
  "handleGetAddressBalance env =
     reply_ok (XMap [(''address'', VStr (xe_vars env ''address'')), (''balance'', VI64 1000000000),
       (''unit'', VStr ''micro-KALON'')])"

definition handleGetTreasury :: "xp_env \<Rightarrow> xp_reply" where
  "handleGetTreasury env =
     reply_ok (XTreasury \<lparr>xy_Address = ''kalon1treasury00000000000000000000000'', xy_Balance = 5000000000,
       xy_BlockFees = 2500000000, xy_TxFees = 2500000000, xy_TotalIncome = 5000000000, xy_LastUpdate = xe_now env\<rparr>)"

definition handleGetNetworkStats :: "xp_api \<Rightarrow> xp_env \<Rightarrow> xp_reply" where
  "handleGetNetworkStats api env =
     (let height = (case xp_callRPC api env ''getHeight'' None of
            Inl _ \<Rightarrow> 0
          | Inr rpcResp \<Rightarrow>
              (case as_num (result_of rpcResp) of Some x \<Rightarrow> u64_of_f64 (xe_platform env) x | None \<Rightarrow> 0))
      in reply_ok (XStats \<lparr>xs_BlockHeight = height, xs_TotalBlocks = height, xs_TotalTxs = 5, xs_TotalAddresses = 10,
           xs_NetworkHashRate = f64_of_nat 1000, xs_Difficulty = 1000, xs_BlockTime = f64_of_nat 30,
           xs_LastBlockTime = xe_now env - hours 1, xs_Peers = 5, xs_MempoolSize = 3\<rparr>))"

definition mock_peer :: "string \<Rightarrow> string \<Rightarrow> int \<Rightarrow> (string \<times> rpc_value) list" where
  "mock_peer i address latency =
     [(''id'', VStr i), (''address'', VStr address), (''version'', VStr ''1.0.2''), (''height'', VI64 1),
      (''latency'', VI64 latency)]"

definition handleGetPeers :: xp_reply where
  "handleGetPeers =
     reply_ok (XMaps [mock_peer ''peer1'' ''192.168.1.100:17333'' 50, mock_peer ''peer2'' ''192.168.1.101:17333'' 75])"

subsection \<open>Search and statistics\<close>

definition search_result :: "string \<Rightarrow> string \<times> rpc_value" where
  "search_result query =
     (if length query = 64 \<and> take 2 query = ''0x'' then (''block'', VObj [(''hash'', VStr query)])
      else if length query = 40 \<and> take 5 query = ''kalon'' then (''address'', VObj [(''address'', VStr query)])
      else if length query = 66 \<and> take 2 query = ''0x'' then (''transaction'', VObj [(''hash'', VStr query)])
      else (''unknown'', VNil))"

definition handleSearch :: "xp_env \<Rightarrow> xp_reply" where
  "handleSearch env =
     (let query = xe_query env ''q'' in
      if query = [] then xp_writeError 400 ''Query parameter 'q' is required''
      else
        (case search_result query of
           (kind, data) \<Rightarrow> reply_ok (XMap [(''query'', VStr query), (''type'', VStr kind), (''data'', data)])))"

definition handleGetStats :: xp_reply where
  "handleGetStats =
     reply_ok (XMap
       [(''blocks'', VObj [(''total'', VI64 1), (''latest'', VI64 1), (''pending'', VI64 0)]),
        (''transactions'', VObj [(''total'', VI64 5), (''pending'', VI64 3), (''confirmed'', VI64 2)]),
        (''addresses'', VObj [(''total'', VI64 10), (''active'', VI64 8)]),
        (''network'', VObj [(''hashRate'', VF64 (f64_of_nat 1000)), (''difficulty'', VI64 1000),
          (''blockTime'', VF64 (f64_of_nat 30)), (''peers'', VI64 5)]),
        (''treasury'', VObj [(''balance'', VI64 5000000000), (''blockFees'', VI64 2500000000),
          (''txFees'', VI64 2500000000)])])"

subsection \<open>Routes\<close>

datatype xp_route =
  RHealth | RBlocks | RLatest | RByHash | RByHeight | RTransactions | RTransaction | RPending | RAddress
| RAddressTransactions | RAddressBalance | RTreasury | RNetworkStats | RPeers | RSearch | RStats

text \<open>In the order of their registration, all of them for \<^verbatim>\<open>GET\<close>.\<close>

definition api_routes :: "(string \<times> xp_route) list" where
  "api_routes =
     [(''/health'', RHealth), (''/blocks'', RBlocks), (''/blocks/latest'', RLatest), (''/blocks/{hash}'', RByHash),
      (''/blocks/height/{height}'', RByHeight), (''/transactions'', RTransactions), (''/transactions/{hash}'', RTransaction),
      (''/transactions/pending'', RPending), (''/addresses/{address}'', RAddress),
      (''/addresses/{address}/transactions'', RAddressTransactions), (''/addresses/{address}/balance'', RAddressBalance),
      (''/treasury'', RTreasury), (''/network/stats'', RNetworkStats), (''/network/peers'', RPeers), (''/search'', RSearch),
      (''/stats'', RStats)]"

definition registered :: "(string \<times> string) list" where
  "registered = map (\<lambda>r. (fst r, ''GET'')) api_routes"

fun run_handler :: "xp_api \<Rightarrow> xp_env \<Rightarrow> xp_route \<Rightarrow> xp_reply" where
  "run_handler api env RHealth = xp_handleHealth env"
| "run_handler api env RBlocks = handleGetBlocks api env"
| "run_handler api env RLatest = handleGetLatestBlock api env"
| "run_handler api env RByHash = handleGetBlockByHash env"
| "run_handler api env RByHeight = handleGetBlockByHeight env"
| "run_handler api env RTransactions = handleGetTransactions env"
| "run_handler api env RTransaction = handleGetTransaction env"
| "run_handler api env RPending = handleGetPendingTransactions env"
| "run_handler api env RAddress = handleGetAddress env"
| "run_handler api env RAddressTransactions = handleGetAddressTransactions env"
| "run_handler api env RAddressBalance = handleGetAddressBalance env"
| "run_handler api env RTreasury = handleGetTreasury env"
| "run_handler api env RNetworkStats = handleGetNetworkStats api env"
| "run_handler api env RPeers = handleGetPeers"
| "run_handler api env RSearch = handleSearch env"
| "run_handler api env RStats = handleGetStats"

text \<open>
  The router: a template against a path, with the variables it binds, and the dispatch over
  registered templates and methods.
\<close>

datatype dispatch = NotFound | MethodNotAllowed | Matched nat "string \<Rightarrow> string"

record mux =
  mx_template :: "string \<Rightarrow> string \<Rightarrow> (string \<Rightarrow> string) option"
  mx_dispatch :: "(string \<times> string) list \<Rightarrow> string \<Rightarrow> string \<Rightarrow> dispatch"

text \<open>The middleware runs around the handler of a matched route only.\<close>

datatype served = Unrouted int | Preflight | Handled xp_reply

definition corsMiddleware :: "string \<Rightarrow> xp_reply \<Rightarrow> served" where
  "corsMiddleware meth reply = (if meth = ''OPTIONS'' then Preflight else Handled reply)"

definition explorer_serve :: "mux \<Rightarrow> xp_api \<Rightarrow> xp_env \<Rightarrow> string \<Rightarrow> string \<Rightarrow> served" where
  "explorer_serve mx api env meth path =
     (case mx_dispatch mx registered meth path of
        NotFound \<Rightarrow> Unrouted 404
      | MethodNotAllowed \<Rightarrow> Unrouted 405
      | Matched i vars \<Rightarrow> corsMiddleware meth (run_handler api (env\<lparr>xe_vars := vars\<rparr>) (snd (api_routes ! i))))"

text \<open>
  What the router documents: a route matches by its method and template, and of several the one
  registered first is taken; a template without a variable matches itself, and one that ends in a
  variable binds it to one nonempty segment.
\<close>

definition mux_documented :: "mux \<Rightarrow> bool" where
  "mux_documented mx \<longleftrightarrow>
     (\<forall>routes meth path i vars. i < length routes \<and> snd (routes ! i) = meth \<and>
        mx_template mx (fst (routes ! i)) path = Some vars \<and>
        (\<forall>j<i. snd (routes ! j) \<noteq> meth \<or> mx_template mx (fst (routes ! j)) path = None) \<longrightarrow>
        mx_dispatch mx routes meth path = Matched i vars) \<and>
     (\<forall>routes meth path i vars. mx_dispatch mx routes meth path = Matched i vars \<longrightarrow>
        i < length routes \<and> snd (routes ! i) = meth \<and> mx_template mx (fst (routes ! i)) path = Some vars) \<and>
     (\<forall>t path. CHR ''{'' \<notin> set t \<longrightarrow> mx_template mx t path = (if path = t then Some (\<lambda>_. []) else None)) \<and>
     (\<forall>pre name path. CHR ''{'' \<notin> set pre \<and> CHR ''{'' \<notin> set name \<and> CHR ''}'' \<notin> set name \<longrightarrow>
        mx_template mx (pre @ ''{'' @ name @ ''}'') path =
          (if HasPrefix path pre \<and> drop (length pre) path \<noteq> [] \<and> CHR ''/'' \<notin> set (drop (length pre) path)
           then Some ((\<lambda>_. [])(name := drop (length pre) path)) else None))"

lemma mux_first:
  "mux_documented mx \<Longrightarrow> i < length routes \<Longrightarrow> snd (routes ! i) = meth \<Longrightarrow>
     mx_template mx (fst (routes ! i)) path = Some vars \<Longrightarrow>
     (\<And>j. j < i \<Longrightarrow> mx_template mx (fst (routes ! j)) path = None) \<Longrightarrow>
     mx_dispatch mx routes meth path = Matched i vars"
  by (rule mux_documented_def [THEN iffD1, THEN conjunct1, rule_format]) auto

lemma mux_matched:
  "mux_documented mx \<Longrightarrow> mx_dispatch mx routes meth path = Matched i vars \<Longrightarrow>
     i < length routes \<and> snd (routes ! i) = meth \<and> mx_template mx (fst (routes ! i)) path = Some vars"
  unfolding mux_documented_def by blast

lemma mux_literal:
  "mux_documented mx \<Longrightarrow> CHR ''{'' \<notin> set t \<Longrightarrow>
     mx_template mx t path = (if path = t then Some (\<lambda>_. []) else None)"
  unfolding mux_documented_def by blast

lemma mux_variable:
  assumes "mux_documented mx" and "t = pre @ ''{'' @ name @ ''}''" and "CHR ''{'' \<notin> set pre"
    and "CHR ''{'' \<notin> set name" and "CHR ''}'' \<notin> set name"
  shows "mx_template mx t path =
    (if HasPrefix path pre \<and> drop (length pre) path \<noteq> [] \<and> CHR ''/'' \<notin> set (drop (length pre) path)
     then Some ((\<lambda>_. [])(name := drop (length pre) path)) else None)"
  using assms unfolding mux_documented_def by blast

lemma pending_dispatch:
  assumes "mux_documented mx"
  shows "mx_dispatch mx registered ''GET'' ''/transactions/pending'' = Matched 6 ((\<lambda>_. [])(''hash'' := ''pending''))"
proof (rule mux_first [OF assms])
  show "mx_template mx (fst (registered ! 6)) ''/transactions/pending'' = Some ((\<lambda>_. [])(''hash'' := ''pending''))"
    using mux_variable [OF assms, of "''/transactions/{hash}''" "''/transactions/''" "''hash''" "''/transactions/pending''"]
    by (simp add: registered_def api_routes_def HasPrefix_def)
  fix j :: nat
  assume "j < 6"
  then have "j \<in> {0, 1, 2, 3, 4, 5}" by auto
  then show "mx_template mx (fst (registered ! j)) ''/transactions/pending'' = None"
    using mux_literal [OF assms, of "''/health''"] mux_literal [OF assms, of "''/blocks''"]
      mux_literal [OF assms, of "''/blocks/latest''"] mux_literal [OF assms, of "''/transactions''"]
      mux_variable [OF assms, of "''/blocks/{hash}''" "''/blocks/''" "''hash''" "''/transactions/pending''"]
      mux_variable [OF assms, of "''/blocks/height/{height}''" "''/blocks/height/''" "''height''" "''/transactions/pending''"]
    by (elim insertE) (simp_all add: registered_def api_routes_def HasPrefix_def)
qed (simp_all add: registered_def api_routes_def)

text \<open>
  The route of the pending transactions is never taken: the route of single transactions, which was
  registered before it, answers for it, with the hash \<^verbatim>\<open>pending\<close>; and no preflight request
  reaches the middleware that would answer it, since every route is registered for \<^verbatim>\<open>GET\<close> only.
\<close>

theorem explorer_dead_routes:
  assumes "mux_documented mx"
  shows "explorer_serve mx api env ''GET'' ''/transactions/pending'' =
      Handled (handleGetTransaction (env\<lparr>xe_vars := (\<lambda>_. [])(''hash'' := ''pending'')\<rparr>)) \<and>
    (mx_dispatch mx registered meth path = Matched i vars \<longrightarrow> snd (api_routes ! i) \<noteq> RPending) \<and>
    explorer_serve mx api env meth path \<noteq> Preflight"
proof (intro conjI impI)
  show "explorer_serve mx api env ''GET'' ''/transactions/pending'' =
      Handled (handleGetTransaction (env\<lparr>xe_vars := (\<lambda>_. [])(''hash'' := ''pending'')\<rparr>))"
    by (simp add: explorer_serve_def pending_dispatch [OF assms] corsMiddleware_def api_routes_def)
next
  assume m: "mx_dispatch mx registered meth path = Matched i vars"
  note d = mux_matched [OF assms m]
  show "snd (api_routes ! i) \<noteq> RPending"
  proof
    assume r: "snd (api_routes ! i) = RPending"
    have "i < 16" using d by (simp add: registered_def api_routes_def)
    then have "i \<in> {0, 1, 2, 3, 4, 5, 6, 7, 8, 9, 10, 11, 12, 13, 14, 15}" by (simp, presburger)
    with r have i: "i = 7" by (elim insertE) (simp_all add: api_routes_def)
    have "path = ''/transactions/pending''"
      using d mux_literal [OF assms, of "''/transactions/pending''" path]
      by (simp add: i registered_def api_routes_def split: if_splits)
    moreover have "meth = ''GET''" using d by (simp add: i registered_def api_routes_def)
    ultimately show False using m pending_dispatch [OF assms] by (simp add: i)
  qed
next
  show "explorer_serve mx api env meth path \<noteq> Preflight"
  proof (cases "mx_dispatch mx registered meth path")
    case (Matched i vars)
    have "snd (registered ! i) = ''GET''"
      using mux_matched [OF assms Matched] by (simp add: registered_def)
    with mux_matched [OF assms Matched] have "meth = ''GET''" by simp
    with Matched show ?thesis by (simp add: explorer_serve_def corsMiddleware_def)
  qed (simp_all add: explorer_serve_def)
qed

text \<open>A router for templates with at most one variable, at the end.\<close>

definition simple_template :: "string \<Rightarrow> string \<Rightarrow> (string \<Rightarrow> string) option" where
  "simple_template t path =
     (let pre = takeWhile (\<lambda>c. c \<noteq> CHR ''{'') t; name = takeWhile (\<lambda>c. c \<noteq> CHR ''}'') (drop (length pre + 1) t);
          rest = drop (length pre) path
      in if pre = t then (if path = t then Some (\<lambda>_. []) else None)
         else if HasPrefix path pre \<and> rest \<noteq> [] \<and> CHR ''/'' \<notin> set rest then Some ((\<lambda>_. [])(name := rest)) else None)"

primrec simple_dispatch :: "(string \<times> string) list \<Rightarrow> string \<Rightarrow> string \<Rightarrow> dispatch" where
  "simple_dispatch [] meth path = NotFound"
| "simple_dispatch (r # rs) meth path =
     (case (if snd r = meth then simple_template (fst r) path else None) of
        Some vars \<Rightarrow> Matched 0 vars
      | None \<Rightarrow> (case simple_dispatch rs meth path of Matched i vars \<Rightarrow> Matched (Suc i) vars | d \<Rightarrow> d))"

lemma simple_dispatch_sound:
  "simple_dispatch rs meth path = Matched i vars \<Longrightarrow>
     i < length rs \<and> snd (rs ! i) = meth \<and> simple_template (fst (rs ! i)) path = Some vars"
  by (induction rs arbitrary: i) (auto split: option.splits if_splits dispatch.splits)

lemma simple_dispatch_first:
  "i < length rs \<Longrightarrow> snd (rs ! i) = meth \<Longrightarrow> simple_template (fst (rs ! i)) path = Some vars \<Longrightarrow>
     \<forall>j<i. snd (rs ! j) \<noteq> meth \<or> simple_template (fst (rs ! j)) path = None \<Longrightarrow>
     simple_dispatch rs meth path = Matched i vars"
proof (induction rs arbitrary: i)
  case (Cons r rs)
  show ?case
  proof (cases i)
    case (Suc k)
    have "simple_dispatch rs meth path = Matched k vars"
      using Cons.prems unfolding Suc by (intro Cons.IH) auto
    moreover have "snd r \<noteq> meth \<or> simple_template (fst r) path = None"
      using Cons.prems(4) unfolding Suc by (metis nth_Cons_0 zero_less_Suc)
    ultimately show ?thesis by (auto simp: Suc)
  qed (use Cons.prems in simp)
qed simp

lemma simple_mux: "mux_documented \<lparr>mx_template = simple_template, mx_dispatch = simple_dispatch\<rparr>"
proof -
  have lit: "simple_template t path = (if path = t then Some (\<lambda>_. []) else None)" if "CHR ''{'' \<notin> set t" for t path
  proof -
    have "takeWhile (\<lambda>c. c \<noteq> CHR ''{'') t = t" using that by (auto simp: takeWhile_eq_all_conv)
    then show ?thesis by (simp add: simple_template_def Let_def)
  qed
  have var: "simple_template (pre @ ''{'' @ name @ ''}'') path =
      (if HasPrefix path pre \<and> drop (length pre) path \<noteq> [] \<and> CHR ''/'' \<notin> set (drop (length pre) path)
       then Some ((\<lambda>_. [])(name := drop (length pre) path)) else None)"
    if "CHR ''{'' \<notin> set pre" "CHR ''}'' \<notin> set name" for pre name path
  proof -
    have "takeWhile (\<lambda>c. c \<noteq> CHR ''{'') (pre @ ''{'' @ name @ ''}'') = pre"
      using that(1) by (induction pre) auto
    moreover have "takeWhile (\<lambda>c. c \<noteq> CHR ''}'') (name @ ''}'') = name"
      using that(2) by (induction name) auto
    ultimately show ?thesis by (simp add: simple_template_def Let_def)
  qed
  have c1: "\<forall>routes meth path i vars. i < length routes \<and> snd (routes ! i) = meth \<and>
        simple_template (fst (routes ! i)) path = Some vars \<and>
        (\<forall>j<i. snd (routes ! j) \<noteq> meth \<or> simple_template (fst (routes ! j)) path = None) \<longrightarrow>
        simple_dispatch routes meth path = Matched i vars"
    by (intro allI impI, elim conjE, rule simple_dispatch_first)
  have c2: "\<forall>routes meth path i vars. simple_dispatch routes meth path = Matched i vars \<longrightarrow>
        i < length routes \<and> snd (routes ! i) = meth \<and> simple_template (fst (routes ! i)) path = Some vars"
    by (intro allI impI, rule simple_dispatch_sound)
  have c3: "\<forall>t path. CHR ''{'' \<notin> set t \<longrightarrow> simple_template t path = (if path = t then Some (\<lambda>_. []) else None)"
    by (intro allI impI, rule lit)
  have c4: "\<forall>pre name path. CHR ''{'' \<notin> set pre \<and> CHR ''{'' \<notin> set name \<and> CHR ''}'' \<notin> set name \<longrightarrow>
      simple_template (pre @ ''{'' @ name @ ''}'') path =
        (if HasPrefix path pre \<and> drop (length pre) path \<noteq> [] \<and> CHR ''/'' \<notin> set (drop (length pre) path)
         then Some ((\<lambda>_. [])(name := drop (length pre) path)) else None)"
    by (intro allI impI, elim conjE, rule var)
  show ?thesis
    unfolding mux_documented_def mux.simps by (intro conjI c1 c2 c3 c4)
qed

definition sample_xp :: xp_env where
  "sample_xp = \<lparr>xe_vars = (\<lambda>_. []), xe_query = (\<lambda>_. []), xe_now = 0, xe_platform = zero_platform,
     xe_post = (\<lambda>_ _. Inl ''refused'')\<rparr>"

theorem explorer_dead_routes_witness:
  "\<exists>tx. explorer_serve \<lparr>mx_template = simple_template, mx_dispatch = simple_dispatch\<rparr> (explorer_config (\<lambda>_. [])) sample_xp
     ''GET'' ''/transactions/pending'' = Handled (reply_ok (XTransaction tx)) \<and> xt_Hash tx = ''pending''"
proof (intro exI conjI)
  show "explorer_serve \<lparr>mx_template = simple_template, mx_dispatch = simple_dispatch\<rparr> (explorer_config (\<lambda>_. [])) sample_xp
     ''GET'' ''/transactions/pending'' = Handled (reply_ok (XTransaction ((mock_transaction 0)\<lparr>xt_Hash := ''pending''\<rparr>)))"
    using explorer_dead_routes [OF simple_mux, of "explorer_config (\<lambda>_. [])" sample_xp, THEN conjunct1]
    by (simp add: handleGetTransaction_def sample_xp_def)
qed simp

subsection \<open>Searching\<close>

lemma length_hash_text: "length (hex_encode (hash_bytes h)) = 64" "length (hex_encode (addr_bytes a)) = 40"
  by simp_all

text \<open>
  No text the program writes for a thing is found as that thing: the address of a wallet is unknown
  to the search, so is the hash of a block or transaction as the node and the explorer write it, and
  with \<^verbatim>\<open>0x\<close> before it the hash of a block is taken for that of a transaction.
\<close>

theorem search_recognises_nothing:
  "search_result (GetAddressString w) = (''unknown'', VNil) \<and>
   search_result (hex_encode (hash_bytes h)) = (''unknown'', VNil) \<and>
   search_result (''0x'' @ hex_encode (hash_bytes h)) = (''transaction'', VObj [(''hash'', VStr (''0x'' @ hex_encode (hash_bytes h)))])"
proof -
  have "take 2 (hex_encode (hash_bytes h)) \<noteq> ''0x''"
  proof
    assume "take 2 (hex_encode (hash_bytes h)) = ''0x''"
    then have "CHR ''x'' \<in> set (hex_encode (hash_bytes h))"
      by (metis in_set_takeD list.set_intros)
    then show False using set_hex_encode [of "hash_bytes h"] by (auto simp: hex_alphabet_def)
  qed
  then show ?thesis
    by (simp add: search_result_def GetAddressString_def length_hash_text)
qed

subsection \<open>The explorer against a node\<close>

text \<open>The JSON object of a reply of \<^verbatim>\<open>rpc/server_v2.go\<close>; fields that are nil are left out.\<close>

definition reply_entries :: "rpc_response \<Rightarrow> (string \<times> gojson) list" where
  "reply_entries r =
     [(''jsonrpc'', JStr (rs_JSONRPC r))] @
     (case rs_Result r of Some v \<Rightarrow> [(''result'', wire v)] | None \<Rightarrow> []) @
     (case rs_Error r of
        Some e \<Rightarrow> [(''error'', JObj [(''code'', JNum (f64_of_int (re_Code e))), (''message'', JStr (re_Message e))])]
      | None \<Rightarrow> []) @ [(''id'', rs_ID r)]"

definition node_answers ::
  "('s, 'e) persister \<Rightarrow> rpc_env \<Rightarrow> 's chain \<Rightarrow> client_request \<Rightarrow> string + (string \<times> gojson) list option" where
  "node_answers ps nenv c q =
     Inr (Some (reply_entries (case snd (handleRPCMethod ps nenv (as_request q) c) of
        Inl p \<Rightarrow> panic_reply p | Inr r \<Rightarrow> r)))"

lemma result_of_entries [simp]: "result_of (Some (reply_entries r)) = map_option wire (rs_Result r)"
  by (auto simp: result_of_def reply_entries_def split: option.splits)

text \<open>A block as the explorer shows it.\<close>

definition shown_block :: "block \<Rightarrow> xp_block" where
  "shown_block b =
     (let h = blk_Header b in
      blank_block\<lparr>xb_Number := bh_Number h, xb_Hash := hex_encode (hash_bytes (blk_Hash b)),
        xb_ParentHash := hex_encode (hash_bytes (bh_ParentHash h)),
        xb_Miner := (if bh_Miner h = 0 then [] else Address_String (bh_Miner h)), xb_Nonce := bh_Nonce h,
        xb_Difficulty := bh_Difficulty h, xb_TxCount := of_nat (length (blk_Txs b)), xb_NetworkFee := bh_NetworkFee h,
        xb_TreasuryFee := bh_TreasuryFee h, xb_Timestamp := bh_Timestamp h div 1000000000 * 1000000000\<rparr>)"

definition header_small :: "block \<Rightarrow> bool" where
  "header_small b \<longleftrightarrow>
     (let h = blk_Header b in
      unat (bh_Number h) < 2 ^ 53 \<and> unat (bh_Nonce h) < 2 ^ 53 \<and> unat (bh_Difficulty h) < 2 ^ 53 \<and>
      unat (bh_NetworkFee h) < 2 ^ 53 \<and> unat (bh_TreasuryFee h) < 2 ^ 53 \<and>
      0 \<le> bh_Timestamp h \<and> bh_Timestamp h div 1000000000 < 2 ^ 53)"

lemma shown_seconds:
  assumes "0 \<le> t" and "t div 1000000000 < 2 ^ 53"
  shows "int_of_f64 pl (f64_of_int (sint (word_of_int (t div 1000000000) :: 64 word))) = t div 1000000000"
proof -
  have "0 \<le> t div 1000000000" using assms(1) by (simp add: pos_imp_zdiv_nonneg_iff)
  then obtain n where n: "t div 1000000000 = int n" by (cases "t div 1000000000" rule: int_cases2) auto
  with assms(2) have "n < 2 ^ 53" by simp
  moreover have "sint (word_of_int (int n) :: 64 word) = int n"
    using \<open>n < 2 ^ 53\<close> by (simp add: signed_of_nat signed_take_bit_int_eq_self)
  ultimately show ?thesis unfolding n using int_of_wire [of n pl] by simp
qed

lemma reply_ok_inject [simp]: "reply_ok d = reply_ok d' \<longleftrightarrow> d = d'"
  by (simp add: reply_ok_def)

lemma convert_recent:
  assumes "header_small b"
  shows "\<exists>m. as_obj (Some (wire (recent_json b))) = Some m \<and> convert_block pl m = Some (shown_block b)"
proof -
  obtain m where m: "wire (recent_json b) = JObj m"
    by (auto simp: recent_json_def Let_def)
  have "convert_block pl m = Some (shown_block b)"
    using m assms
    by (auto simp: recent_json_def Let_def convert_block_def shown_block_def text_field_def num_field_def header_small_def
        u64_f64_roundtrip u32_of_wire shown_seconds split: if_splits)
  then show ?thesis using m by auto
qed

lemma convert_recents:
  "\<forall>b\<in>set bs. header_small b \<Longrightarrow>
     convert_blocks pl (map (\<lambda>b. wire (recent_json b)) bs) = Some (map shown_block bs)"
proof (induction bs)
  case (Cons b bs)
  obtain m where "as_obj (Some (wire (recent_json b))) = Some m" "convert_block pl m = Some (shown_block b)"
    using convert_recent [of b pl] Cons.prems by auto
  with Cons show ?case by simp
qed simp

lemma page_limit_range: "1 \<le> page_limit s \<and> page_limit s \<le> 100"
  by (simp add: page_limit_def Let_def)

lemma page_limit_arrives:
  "recent_limit pl (wire (VObj [(''limit'', VI64 (page_limit s))])) = page_limit s"
proof -
  obtain n where n: "page_limit s = int n" "1 \<le> n" "n \<le> 100"
    using page_limit_range [of s] by (cases "page_limit s" rule: int_cases2) auto
  then have "int_of_f64 pl (f64_of_int (int n)) = int n" by (intro int_of_wire) simp
  with n show ?thesis by (simp add: recent_limit_def)
qed

text \<open>
  C26. The explorer's block list against a node is the newest blocks of the node's chain, newest first,
  as many as the query asks for (20 where it asks for less than one, more than 100 or nothing that
  is a number), with number, hash, parent, miner, nonce, difficulty, fees, second and count of
  transactions of each; and it never panics there.
\<close>

theorem explorer_shows_chain:
  assumes "xe_post env (xp_rpcURL api @ ''/rpc'') = node_answers ps nenv c" and "ch_blocks c \<noteq> []"
    and "\<forall>b\<in>set (ch_blocks c). header_small b"
  shows "handleGetBlocks api env =
    reply_ok (XBlocks (map shown_block (take (nat (page_limit (xe_query env ''limit''))) (rev (ch_blocks c)))))"
proof -
  let ?l = "page_limit (xe_query env ''limit'')"
  let ?q = "as_request \<lparr>cq_Method = ''getRecentBlocks'', cq_Params = VObj [(''limit'', VI64 ?l)], cq_ID = 1\<rparr>"
  define bs where "bs = take (nat ?l) (rev (ch_blocks c))"
  have l: "1 \<le> ?l" using page_limit_range by blast
  then have ne: "bs \<noteq> []" using assms(2) by (simp add: bs_def)
  have recent: "GetRecentBlocks ?l c = Inr bs"
    using GetRecentBlocks_newest_first [of ?l c] assms(2) l by (simp add: bs_def)
  have "recent_limit (ev_platform nenv) (rq_Params ?q) = ?l"
    using page_limit_arrives by (simp only: as_request_def rpc_request.simps client_request.simps)
  then have "handleGetRecentBlocks nenv ?q c = Inr (rpc_ok ?q (VArr (map recent_json bs)))"
    using ne by (simp add: handleGetRecentBlocks_def recent)
  moreover have "\<forall>b\<in>set bs. header_small b"
    using assms(3) by (auto simp: bs_def dest: in_set_takeD)
  ultimately show ?thesis
    using ne convert_recents [of bs "xe_platform env"] assms(1)
    by (simp add: handleGetBlocks_def xp_callRPC_def node_answers_def handleRPCMethod_def Let_def rpc_ok_def o_def
        as_request_def flip: bs_def)
qed

text \<open>
  The height in the explorer's statistics against a node is the number of the last block of its
  chain, and the latest block it shows carries that block's hash and number, but always one
  transaction and the time of the request.
\<close>

theorem explorer_height:
  assumes "reachable ps g st c" and "fresh_start ps st" and "unat (bh_Number (blk_Header (last (ch_blocks c)))) < 2 ^ 53"
    and "xe_post env (xp_rpcURL api @ ''/rpc'') = node_answers ps nenv c"
  shows "(\<exists>s. handleGetNetworkStats api env = reply_ok (XStats s) \<and>
      xs_BlockHeight s = bh_Number (blk_Header (last (ch_blocks c)))) \<and>
    handleGetLatestBlock api env = reply_ok (XBlock (blank_block\<lparr>
      xb_Hash := hex_encode (hash_bytes (blk_Hash (last (ch_blocks c)))),
      xb_Number := bh_Number (blk_Header (last (ch_blocks c))), xb_Timestamp := xe_now env, xb_TxCount := 1\<rparr>))"
proof -
  have "GetBestBlock c = Some (last (ch_blocks c))" "GetHeight c = bh_Number (blk_Header (last (ch_blocks c)))"
    using reachable_inv [OF assms(1,2)] by (simp_all add: chain_inv_def GetBestBlock_def GetHeight_def)
  with assms(3,4) show ?thesis
    by (simp add: handleGetNetworkStats_def handleGetLatestBlock_def xp_callRPC_def node_answers_def handleRPCMethod_def
        handleGetHeight_def handleGetBestBlock_def rpc_ok_def as_request_def text_field_def u64_f64_roundtrip Let_def)
qed

subsection \<open>Instances\<close>

definition node_xp :: xp_env where
  "node_xp = sample_xp\<lparr>xe_post := (\<lambda>_. node_answers no_persister sample_env short_chain)\<rparr>"

theorem explorer_shows_chain_witness:
  "handleGetBlocks (explorer_config (\<lambda>_. [])) node_xp =
     reply_ok (XBlocks [shown_block first_block, shown_block (createGenesisBlockV2 testnet_genesis)])"
proof -
  have p: "page_limit (xe_query node_xp ''limit'') = 20"
    by (simp add: node_xp_def sample_xp_def page_limit_def Atoi_def ParseUint10_def)
  have "\<forall>b\<in>set (ch_blocks short_chain). header_small b"
    by (simp add: ch_blocks_short_chain header_small_def first_block_def createGenesisBlockV2_def zero_block_def
        zero_header_def testnet_genesis_def Let_def)
  from explorer_shows_chain [of node_xp "explorer_config (\<lambda>_. [])" no_persister sample_env short_chain, OF _ _ this]
  show ?thesis unfolding p by (simp add: node_xp_def ch_blocks_short_chain)
qed

theorem explorer_height_witness:
  "\<exists>s. handleGetNetworkStats (explorer_config (\<lambda>_. [])) node_xp = reply_ok (XStats s) \<and> xs_BlockHeight s = 1"
  using explorer_height [OF reachable_short_chain fresh_None, of node_xp "explorer_config (\<lambda>_. [])" sample_env]
  by (simp add: node_xp_def ch_blocks_short_chain first_block_def)

end
