(* ===== verification/Config.thy ===== *)
theory Config
  imports CoreTypes GoArgs
begin

text \<open>
  \<^verbatim>\<open>core/network.go\<close>, \<^verbatim>\<open>core/logger.go\<close> and the JSON form of outputs in \<^verbatim>\<open>core/types.go\<close>: the named
  networks and their settings, the level filter of the logger, and outputs as objects of an address
  text and an amount.
\<close>

subsection \<open>Networks\<close>

datatype network_type = CommunityTestnet | Testnet | Mainnet | OtherNetwork string

record network_config =
  net_Type :: network_type
  net_GenesisFile :: string
  net_DataDir :: string
  net_RPCAddr :: string
  net_P2PAddr :: string
  net_TokenSymbol :: string
  net_AddressHRP :: string

definition GetNetworkConfig :: "network_type \<Rightarrow> network_config option" where
  "GetNetworkConfig networkType =
     (case networkType of
        CommunityTestnet \<Rightarrow> Some \<lparr>net_Type = CommunityTestnet, net_GenesisFile = ''genesis/community-testnet.json'',
          net_DataDir = ''./data-community-testnet'', net_RPCAddr = ''localhost:16315'', net_P2PAddr = ''localhost:17334'',
          net_TokenSymbol = ''tKALON'', net_AddressHRP = ''tkalon''\<rparr>
      | Testnet \<Rightarrow> Some \<lparr>net_Type = Testnet, net_GenesisFile = ''genesis/testnet.json'', net_DataDir = ''./data-testnet'',
          net_RPCAddr = ''localhost:16316'', net_P2PAddr = ''localhost:17335'', net_TokenSymbol = ''tKALON'',
          net_AddressHRP = ''tkalon''\<rparr>
      | Mainnet \<Rightarrow> Some \<lparr>net_Type = Mainnet, net_GenesisFile = ''genesis/mainnet.json'', net_DataDir = ''./data-mainnet'',
          net_RPCAddr = ''localhost:16314'', net_P2PAddr = ''localhost:17333'', net_TokenSymbol = ''KALON'',
          net_AddressHRP = ''kalon''\<rparr>
      | OtherNetwork _ \<Rightarrow> None)"

definition GetNetworkTypeFromString :: "string \<Rightarrow> network_type option" where
  "GetNetworkTypeFromString s =
     (if s \<in> {''community-testnet'', ''community'', ''ct''} then Some CommunityTestnet
      else if s \<in> {''testnet'', ''test'', ''t''} then Some Testnet
      else if s \<in> {''mainnet'', ''main'', ''m''} then Some Mainnet else None)"

definition IsTestnet :: "network_config \<Rightarrow> bool" where
  "IsTestnet nc \<longleftrightarrow> net_Type nc = CommunityTestnet \<or> net_Type nc = Testnet"

definition IsMainnet :: "network_config \<Rightarrow> bool" where
  "IsMainnet nc \<longleftrightarrow> net_Type nc = Mainnet"

text \<open>\<^verbatim>\<open>os.MkdirAll\<close> and \<^verbatim>\<open>filepath.Abs\<close> are arguments; an error of the second is dropped.\<close>

definition SetupNetworkDirectory :: "(string \<Rightarrow> string option) \<Rightarrow> network_config \<Rightarrow> string option" where
  "SetupNetworkDirectory mkdir_all nc = mkdir_all (net_DataDir nc)"

definition GetGenesisPath :: "network_config \<Rightarrow> string" where
  "GetGenesisPath nc = net_GenesisFile nc"

definition GetDataPath :: "(string \<Rightarrow> string \<times> string option) \<Rightarrow> network_config \<Rightarrow> string" where
  "GetDataPath abs_path nc = fst (abs_path (net_DataDir nc))"

definition GetTokenSymbol :: "network_config \<Rightarrow> string" where
  "GetTokenSymbol nc = net_TokenSymbol nc"

definition GetAddressHRP :: "network_config \<Rightarrow> string" where
  "GetAddressHRP nc = net_AddressHRP nc"

text \<open>
  Every name of a network has a configuration, two networks share no file, directory or address, and
  a network is a test network exactly if its addresses have the prefix of one.
\<close>

lemma network_names:
  assumes "GetNetworkTypeFromString s = Some t" and "GetNetworkTypeFromString s' = Some t'"
  shows "\<exists>a b. GetNetworkConfig t = Some a \<and> GetNetworkConfig t' = Some b \<and>
    (t \<noteq> t' \<longrightarrow> net_GenesisFile a \<noteq> net_GenesisFile b \<and> net_DataDir a \<noteq> net_DataDir b \<and> net_RPCAddr a \<noteq> net_RPCAddr b \<and>
       net_P2PAddr a \<noteq> net_P2PAddr b) \<and>
    (IsTestnet a \<longleftrightarrow> net_AddressHRP a = ''tkalon'') \<and> (IsMainnet a \<longleftrightarrow> \<not> IsTestnet a)"
  using assms
  by (auto simp: GetNetworkTypeFromString_def GetNetworkConfig_def IsTestnet_def IsMainnet_def split: if_splits)

subsection \<open>The logger\<close>

text \<open>Levels are the integers of the Go constants.\<close>

definition level_DEBUG :: int where "level_DEBUG = 0"
definition level_INFO :: int where "level_INFO = 1"
definition level_WARN :: int where "level_WARN = 2"
definition level_ERROR :: int where "level_ERROR = 3"

lemmas level_defs = level_DEBUG_def level_INFO_def level_WARN_def level_ERROR_def

record logger =
  lo_level :: int
  lo_verbose :: bool

definition defaultLogger :: logger where
  "defaultLogger = \<lparr>lo_level = level_INFO, lo_verbose = False\<rparr>"

definition SetLogLevel :: "int \<Rightarrow> logger \<Rightarrow> logger" where
  "SetLogLevel level l = l\<lparr>lo_level := level\<rparr>"

definition SetVerbose :: "bool \<Rightarrow> logger \<Rightarrow> logger" where
  "SetVerbose enabled l = l\<lparr>lo_verbose := enabled\<rparr>"

definition level_of :: "string \<Rightarrow> int" where
  "level_of s =
     (if s = ''debug'' then level_DEBUG else if s = ''info'' then level_INFO
      else if s \<in> {''warn'', ''warning''} then level_WARN else if s = ''error'' then level_ERROR else level_INFO)"

text \<open>\<open>ToLower\<close> is \<^verbatim>\<open>strings.ToLower\<close>.\<close>

definition SetLogLevelString :: "(string \<Rightarrow> string) \<Rightarrow> string \<Rightarrow> logger \<Rightarrow> logger" where
  "SetLogLevelString ToLower level l = SetLogLevel (level_of (ToLower level)) l"

definition utf8 :: "nat list \<Rightarrow> string" where
  "utf8 bs = map char_of bs"

definition levelPrefix :: "int \<Rightarrow> string" where
  "levelPrefix level =
     (if level = level_DEBUG then utf8 [240, 159, 148, 141] @ '' DEBUG''
      else if level = level_INFO then utf8 [226, 156, 133] @ '' INFO''
      else if level = level_WARN then utf8 [226, 154, 160, 239, 184, 143] @ ''  WARN''
      else if level = level_ERROR then utf8 [226, 157, 140] @ '' ERROR''
      else utf8 [226, 132, 185, 239, 184, 143] @ ''  INFO'')"

definition GetLogLevel :: "logger \<Rightarrow> int" where
  "GetLogLevel l = lo_level l"

text \<open>What goes into a file in verbose mode: nothing.\<close>

definition logToFile :: "int \<Rightarrow> string \<Rightarrow> string list" where
  "logToFile level message = []"

text \<open>The lines that are printed, and those that go into a file.\<close>

definition logger_lines :: "int \<Rightarrow> string \<Rightarrow> logger \<Rightarrow> string list \<times> string list" where
  "logger_lines level message l =
     (if level < lo_level l then ([], [])
      else
        (let formatted = levelPrefix level @ '' '' @ message
         in ([formatted], if lo_verbose l then logToFile level formatted else [])))"

definition logger_log :: "int \<Rightarrow> string \<Rightarrow> logger \<Rightarrow> string option" where
  "logger_log level message l = (case fst (logger_lines level message l) of [] \<Rightarrow> None | x # _ \<Rightarrow> Some x)"

definition LogDebug :: "string \<Rightarrow> logger \<Rightarrow> string option" where
  "LogDebug message l = logger_log level_DEBUG message l"

definition LogInfo :: "string \<Rightarrow> logger \<Rightarrow> string option" where
  "LogInfo message l = logger_log level_INFO message l"

definition LogWarn :: "string \<Rightarrow> logger \<Rightarrow> string option" where
  "LogWarn message l = logger_log level_WARN message l"

definition LogError :: "string \<Rightarrow> logger \<Rightarrow> string option" where
  "LogError message l = logger_log level_ERROR message l"

text \<open>The logger of Go that prints them: where to, its prefix and its flags (\<open>3\<close> is \<^verbatim>\<open>LstdFlags\<close>).\<close>

record std_log =
  sl_stderr :: bool
  sl_prefix :: string
  sl_flags :: int

definition DisableDefaultLogging :: "std_log \<Rightarrow> std_log" where
  "DisableDefaultLogging sl = sl\<lparr>sl_stderr := True, sl_prefix := [], sl_flags := 0\<rparr>"

definition EnableDefaultLogging :: "std_log \<Rightarrow> std_log" where
  "EnableDefaultLogging sl = sl\<lparr>sl_flags := 3\<rparr>"

text \<open>Verbose mode changes nothing, and the output that was meant to be disabled goes on, to another stream.\<close>

lemma verbose_no_difference: "logger_lines level message (SetVerbose b l) = logger_lines level message l"
  by (simp add: logger_lines_def SetVerbose_def logToFile_def Let_def)

lemma LogDebug_default: "LogDebug message defaultLogger = None" "LogError message l \<noteq> None \<longleftrightarrow> lo_level l \<le> level_ERROR"
  by (simp_all add: LogDebug_def LogError_def logger_log_def logger_lines_def defaultLogger_def level_defs Let_def)

lemma log_levels:
  "logger_log level_ERROR message (SetLogLevelString f s l) \<noteq> None"
  "logger_log level_DEBUG message (SetLogLevelString f s l) \<noteq> None \<longleftrightarrow> f s = ''debug''"
  by (auto simp: logger_log_def logger_lines_def Let_def SetLogLevelString_def SetLogLevel_def level_of_def level_defs)

subsection \<open>Outputs in JSON\<close>

text \<open>An object with the fields \<^verbatim>\<open>address\<close> and \<^verbatim>\<open>amount\<close>, both read at their Go type.\<close>

record txout_json =
  oj_address :: string
  oj_amount :: u64

definition TxOutput_MarshalJSON :: "tx_output \<Rightarrow> txout_json" where
  "TxOutput_MarshalJSON out = \<lparr>oj_address = hex_encode (addr_bytes (out_Address out)), oj_amount = out_Amount out\<rparr>"

definition TxOutput_UnmarshalJSON :: "txout_json \<Rightarrow> tx_output" where
  "TxOutput_UnmarshalJSON aux =
     \<lparr>out_Address =
        (if length (oj_address aux) = 40 then
           (case hex20 (oj_address aux) of
              Some decoded \<Rightarrow> addr_of decoded
            | None \<Rightarrow> AddressFromString (oj_address aux))
         else AddressFromString (oj_address aux)),
      out_Amount = oj_amount aux\<rparr>"

lemma hex_decode_chars: "hex_decode s \<noteq> None \<Longrightarrow> c \<in> set s \<Longrightarrow> hex_value c \<noteq> None"
  by (induction s rule: hex_decode.induct) (auto split: option.splits)

lemma hex_value_plain:
  assumes "hex_value c \<noteq> None"
  shows "(of_char c :: nat) < 128 \<and> \<not> is_space_rune (of_char c) \<and> c \<noteq> CHR ''k'' \<and> c \<noteq> CHR ''x'' \<and> c \<noteq> CHR ''X''"
  using assms by (auto simp: hex_value_def Let_def is_space_rune_def split: if_splits)

lemma AddressFromString_digits:
  assumes "hex20 s = Some b"
  shows "AddressFromString s = addr_of b"
proof -
  have d: "hex_decode s = Some b" "length b = 20"
    using assms by (simp_all add: hex20_def split: option.splits if_splits)
  then have len: "length s = 40" using hex_decode_length [OF d(1)] by simp
  have plain: "(of_char c :: nat) < 128 \<and> \<not> is_space_rune (of_char c) \<and> c \<noteq> CHR ''k'' \<and> c \<noteq> CHR ''x'' \<and> c \<noteq> CHR ''X''"
    if "c \<in> set s" for c
    using hex_value_plain [OF hex_decode_chars [OF _ that]] d(1) by simp
  have "TrimSpace s = s" using plain by (intro TrimSpace_id) (auto simp: is_ascii_def)
  moreover have no: "\<not> HasPrefix s p" if "CHR ''k'' \<in> set p \<or> CHR ''x'' \<in> set p \<or> CHR ''X'' \<in> set p" for p
  proof
    assume "HasPrefix s p"
    then have "set p \<subseteq> set s" by (metis HasPrefix_def set_take_subset)
    with that plain show False by blast
  qed
  then have "\<not> HasPrefix s ''kalon1''" "\<not> HasPrefix s ''0x''" "\<not> HasPrefix s ''0X''" by simp_all
  ultimately show ?thesis
    using assms len by (simp add: AddressFromString_def strip_0x_def Let_def)
qed

text \<open>
  An output reads back from its JSON object as it was, and the address of any object is the one
  the address parser reads, so that the branch for 40 digits decides nothing.
\<close>

theorem output_json_reads_back:
  "TxOutput_UnmarshalJSON (TxOutput_MarshalJSON out) = out \<and>
   TxOutput_UnmarshalJSON aux = \<lparr>out_Address = AddressFromString (oj_address aux), out_Amount = oj_amount aux\<rparr>"
proof -
  have parse: "TxOutput_UnmarshalJSON aux = \<lparr>out_Address = AddressFromString (oj_address aux), out_Amount = oj_amount aux\<rparr>" for aux
    by (simp add: TxOutput_UnmarshalJSON_def AddressFromString_digits split: option.splits)
  have "AddressFromString (hex_encode (addr_bytes (out_Address out))) = out_Address out"
    using AddressFromString_hex [of "out_Address out"] by (simp add: Address_String_def)
  then show ?thesis unfolding parse by (simp add: TxOutput_MarshalJSON_def)
qed

end
