(* ===== verification/Clients.thy ===== *)
theory Clients
  imports Explorer
begin

text \<open>
  The clients of a node together: the miner, the wallet and the explorer send requests in any order.
  Requests that only read are invisible to the chain and to each other.
\<close>

subsection \<open>A service with readers\<close>

primrec serve_all :: "('q \<Rightarrow> 's \<Rightarrow> 's \<times> 'r) \<Rightarrow> 'q list \<Rightarrow> 's \<Rightarrow> 's \<times> 'r list" where
  "serve_all call [] s = (s, [])"
| "serve_all call (q # qs) s =
     (case call q s of (s', r) \<Rightarrow> (case serve_all call qs s' of (s'', rs) \<Rightarrow> (s'', r # rs)))"

locale reader_service =
  fixes call :: "'q \<Rightarrow> 's \<Rightarrow> 's \<times> 'r" and reads :: "'q \<Rightarrow> bool"
  assumes reads_keep: "reads q \<Longrightarrow> fst (call q s) = s"
begin

lemma serve_readers: "list_all reads qs \<Longrightarrow> serve_all call qs s = (s, map (\<lambda>q. snd (call q s)) qs)"
  by (induction qs) (simp_all add: reads_keep split_beta)

lemma serve_writers: "fst (serve_all call qs s) = fst (serve_all call (filter (\<lambda>q. \<not> reads q) qs) s)"
  by (induction qs arbitrary: s) (simp_all add: reads_keep split_beta)

lemma serve_append:
  "serve_all call (qs @ qs') s =
     (case serve_all call qs s of (s', rs) \<Rightarrow> (case serve_all call qs' s' of (s'', rs') \<Rightarrow> (s'', rs @ rs')))"
  by (induction qs arbitrary: s) (simp_all add: split_beta)

lemma reader_answer:
  assumes "reads q"
  shows "snd (serve_all call (qs @ q # qs') s) ! length qs =
    snd (call q (fst (serve_all call (filter (\<lambda>q. \<not> reads q) qs) s)))"
proof -
  have "length (snd (serve_all call qs s)) = length qs"
    by (induction qs arbitrary: s) (simp_all add: split_beta)
  then show ?thesis
    by (simp add: serve_append split_beta nth_append serve_writers [symmetric])
qed

end

subsection \<open>The node as such a service\<close>

definition writing_method :: "string \<Rightarrow> bool" where
  "writing_method m \<longleftrightarrow> m \<in> {''submitBlock'', ''sendTransaction''}"

lemma handleRPCMethod_reads: "\<not> writing_method (rq_Method req) \<Longrightarrow> fst (handleRPCMethod ps env req c) = c"
  by (simp add: handleRPCMethod_def writing_method_def)

lemma node_call_reads: "\<not> writing_method (cq_Method q) \<Longrightarrow> fst (node_call ps env q c) = c"
  using handleRPCMethod_reads [of "as_request q" ps "env q" c]
  by (auto simp: node_call_def as_request_def split: prod.splits sum.splits)

interpretation node_readers: reader_service "node_call ps env" "\<lambda>q. \<not> writing_method (cq_Method q)"
  for ps :: "('s, 'e) persister" and env
  by unfold_locales (rule node_call_reads)

text \<open>
  Whatever requests miners, wallets and explorers send, in whatever order, the chain is the one the
  submitted blocks and transactions among them make, and every request that reads, which are all but
  \<^verbatim>\<open>submitBlock\<close> and \<^verbatim>\<open>sendTransaction\<close>, is answered as if only those before it had come; the
  wallet and the miner's request for a template only read.
\<close>

theorem readers_invisible:
  "fst (serve_all (node_call ps env) qs c) =
     fst (serve_all (node_call ps env) (filter (\<lambda>q. writing_method (cq_Method q)) qs) c) \<and>
   (\<not> writing_method (cq_Method q) \<longrightarrow>
     snd (serve_all (node_call ps env) (qs @ q # qs') c) ! length qs =
       snd (node_call ps env q (fst (serve_all (node_call ps env) (filter (\<lambda>q. writing_method (cq_Method q)) qs) c)))) \<and>
   \<not> writing_method (cq_Method (balance_request a)) \<and> \<not> writing_method (cq_Method (template_request w))"
  using node_readers.serve_writers [of ps env qs c] node_readers.reader_answer [of q ps env qs qs' c]
  by (simp add: writing_method_def balance_request_def template_request_def)

theorem readers_invisible_witness:
  "fst (serve_all (node_call no_persister (\<lambda>_. sample_env)) [balance_request ''x'', template_request ''y''] short_chain) = short_chain"
  using readers_invisible [of no_persister "\<lambda>_. sample_env" "[balance_request ''x'', template_request ''y'']" short_chain
      "balance_request ''x''" "[]"]
  by (simp add: writing_method_def balance_request_def template_request_def)

end
