(* ===== verification/Spec2Isabelle.thy ===== *)
theory Spec2Isabelle
  imports Prelude Bytes GoStrings GoFloat Sha256 Sha256Vector CoreTypes Utxo Consensus Mempool
    Blockchain Transfers Templates Storage BlockIndex Restart StoreRaces Wire BlockData Rpc RpcServer RpcStart
    TemplateSubmit Bech32 Crypto Locks ChainLocks P2P P2PLocks MinerClient MinerProgram MinedHeader MinerRound
    Mining MiningInfo Node GoArgs WalletCli Explorer Config Clients
begin

text \<open>
  A verification development for the Kalon network (Go): a node with its chain, storage, JSON-RPC
  server and peer-to-peer network, and the programs around it, a miner, a wallet and an explorer.

  \<^bold>\<open>The program.\<close> A node (\<^verbatim>\<open>cmd/kalon-node-v2\<close>) reads its genesis file, opens its
  database (\<^verbatim>\<open>storage/\<close>), builds or reloads a chain (\<^verbatim>\<open>core/\<close>), serves JSON-RPC (\<^verbatim>\<open>rpc/\<close>)
  and starts the peer-to-peer network (\<^verbatim>\<open>network/\<close>), which shares nothing with the chain. A block
  reaches the chain by \<^verbatim>\<open>submitBlock\<close>: it is parsed, checked against its parent, appended, its
  transactions leave the mempool, their inputs and outputs change the set of unspent outputs, it is
  written to storage, and subscribers are told. The miner (\<^verbatim>\<open>cmd/kalon-miner-v2\<close>) asks for a
  template, searches a nonce and submits; the wallet (\<^verbatim>\<open>cmd/kalon-wallet\<close>, \<^verbatim>\<open>crypto/\<close>) keeps
  keys in files and asks for balances; the explorer (\<^verbatim>\<open>explorer/api\<close>) shows blocks over HTTP.
  \<^verbatim>\<open>mining/\<close> is a library that none of the programs uses.

  \<^bold>\<open>Shared theories.\<close> \<^verbatim>\<open>Prelude\<close>: machine types (a Go integer of w bits is a word of w
  bits, a time is an int of nanoseconds), Go panics, errors as sums, iteration over Go maps in an order given
  as an argument (\<open>range_order\<close>), and the interfaces \<open>keyed_store\<close>, \<open>keyed_table\<close> (what a
  lookup returns after an insertion and a removal) and \<open>keyed_update\<close> (an operation on one key
  leaves the others alone). \<^verbatim>\<open>Bytes\<close>: big-endian integers, hexadecimal text, and the
  interface \<open>fixed_codec\<close> of encodings of fixed length. \<^verbatim>\<open>GoStrings\<close>, \<^verbatim>\<open>GoFloat\<close>,
  \<^verbatim>\<open>GoArgs\<close>: runes and trimming; \<^verbatim>\<open>float64\<close> with rounding to nearest even; numbers in
  text, command-line flags and buffered lines. \<^verbatim>\<open>Sha256\<close>, \<^verbatim>\<open>Sha256Vector\<close>: the hash
  function, executable, with a published digest. \<^verbatim>\<open>Locks\<close>: goroutines as sequences of lock
  operations that interleave, and the interface \<open>lock_discipline\<close> of calls that take locks in the
  order of a rank. \<^verbatim>\<open>Wire\<close>: JSON values on both sides of a
  connection, where every number becomes a \<^verbatim>\<open>float64\<close>.

  \<^bold>\<open>The node.\<close>
  \<^item> \<^verbatim>\<open>CoreTypes\<close>, \<^verbatim>\<open>Config\<close> (\<^verbatim>\<open>core/types.go\<close>, \<^verbatim>\<open>network.go\<close>, \<^verbatim>\<open>logger.go\<close>):
    addresses and their spellings, blocks, transactions, the bytes that are hashed, rewards; named
    networks, log levels, outputs in JSON.
  \<^item> \<^verbatim>\<open>Utxo\<close> (\<^verbatim>\<open>core/utxo.go\<close>): the set of outputs as the Go map has it, refined to the finite
    map of unspent outpoints (\<open>unspent\<close>, an interpretation of \<open>keyed_table\<close>).
  \<^item> \<^verbatim>\<open>Consensus\<close> (\<^verbatim>\<open>core/consensus.go\<close>): every rule of the consensus manager, with a
    characterisation of the blocks it accepts, the Merkle tree and the proof-of-work target.
  \<^item> \<^verbatim>\<open>Mempool\<close>, \<^verbatim>\<open>Blockchain\<close>, \<^verbatim>\<open>Templates\<close>, \<^verbatim>\<open>Transfers\<close> (\<^verbatim>\<open>core/blockchain.go\<close>):
    pool, event bus and state manager; the chain as the record \<open>chain\<close>, its operations, the step
    relation \<open>chain_step\<close> and the reachable chains (\<open>reachable\<close>), with the invariant
    \<open>chain_inv\<close> and the ledger \<open>ledger_of\<close> that replays all blocks; templates and rewards;
    what a created transfer does to balances.
  \<^item> \<^verbatim>\<open>Storage\<close>, \<^verbatim>\<open>BlockIndex\<close>, \<^verbatim>\<open>Restart\<close>, \<^verbatim>\<open>StoreRaces\<close>
    (\<^verbatim>\<open>storage/leveldb.go\<close>): blocks under their keys in a database; the index a storage implements
    (\<open>index_block\<close>, \<open>indexes\<close>); a chain reloaded from it; calls of \<^verbatim>\<open>StoreBlock\<close> cut at their
    accesses to the database (\<open>store_turn\<close>) and interleaved by a schedule, with the turns of the index
    as their specification (\<open>implements\<close>).
  \<^item> \<^verbatim>\<open>BlockData\<close>, \<^verbatim>\<open>Rpc\<close>, \<^verbatim>\<open>RpcServer\<close>, \<^verbatim>\<open>RpcStart\<close>, \<^verbatim>\<open>TemplateSubmit\<close>
    (\<^verbatim>\<open>rpc/server_v2.go\<close>): blocks and transactions from and to JSON, each handler, the HTTP layer with
    its limits, routes and start, and the way of a template through a client back to the chain. \<open>server_state\<close> are the states a server
    reaches; its chain is always a reachable one.
  \<^item> \<^verbatim>\<open>P2P\<close> (\<^verbatim>\<open>network/p2p.go\<close>): peers and their table as a transition relation
    (\<open>p2p_reachable\<close>), broadcasts, seed nodes, the rounds of its loops, a stop and a new start.
  \<^item> \<^verbatim>\<open>ChainLocks\<close>, \<^verbatim>\<open>P2PLocks\<close>: the locks the operations of the server and the chain, and of the
    network, take; each interprets \<open>lock_discipline\<close>.
  \<^item> \<^verbatim>\<open>Node\<close> (\<^verbatim>\<open>cmd/kalon-node-v2/main.go\<close>): the parts put together; runs of a node
    (\<open>node_step\<close>), the program from its flags to its end (\<open>node_run\<close>), and a restart.

  \<^bold>\<open>The programs around it.\<close>
  \<^item> \<^verbatim>\<open>MinerClient\<close>, \<^verbatim>\<open>MinerProgram\<close>, \<^verbatim>\<open>MinedHeader\<close>, \<^verbatim>\<open>MinerRound\<close>
    (\<^verbatim>\<open>cmd/kalon-miner-v2/main.go\<close>): the client and its search loop; the program from its flags to
    its end (\<open>miner_main\<close>); a header whose hash was really mined; rounds of the miner against
    the handlers of the node (\<open>node_call\<close>).
  \<^item> \<^verbatim>\<open>Mining\<close>, \<^verbatim>\<open>MiningInfo\<close> (\<^verbatim>\<open>mining/randomx.go\<close>, \<^verbatim>\<open>miner.go\<close>): the library's hash, targets, workers
    and miner, and what it tells about itself.
  \<^item> \<^verbatim>\<open>Bech32\<close>, \<^verbatim>\<open>Crypto\<close> (\<^verbatim>\<open>crypto/\<close>): Bech32 text; keys, signatures, mnemonics, wallets.
  \<^item> \<^verbatim>\<open>WalletCli\<close> (\<^verbatim>\<open>cmd/kalon-wallet/main.go\<close>): every command as a function from
    arguments, input and directory to the directory it leaves and how it ends (\<open>wallet_main\<close>);
    sequences of runs (\<open>sessions\<close>); balances asked from the node's handlers (\<open>node_post\<close>).
  \<^item> \<^verbatim>\<open>Explorer\<close> (\<^verbatim>\<open>explorer/api/main.go\<close>): routes and handlers, alone and against the node's
    handlers (\<open>node_answers\<close>).
  \<^item> \<^verbatim>\<open>Clients\<close>: requests of all of them in any order at one node, through the interface
    \<open>reader_service\<close> of a service whose readers change nothing.

  \<^bold>\<open>What is proved.\<close> Of the chain: its unspent outputs are the replayed ledger, blocks are linked,
  numbers and height agree, it survives a restart of the node with whatever it served before, and it is
  all the server can reach; what a transfer moves; what a block's acceptance does and does not depend on.
  Of consensus: which blocks are accepted, that hash and Merkle root commit to the body, what the
  targets are. Of the storage: it implements an index, whatever the order of the stores, and calls at
  the same time lose no block, but can lose the record of the best one. Of the locks: requests never
  deadlock, and the network can only through \<^verbatim>\<open>GetNetworkInfo\<close>. Of the server: well-formed replies, no panics, the rate limit with its bound and its
  recovery. Across programs: a template comes back as an accepted block, a miner's round ends when it is
  stopped or a nonce meets the target, the wallet prints the ledger's balance, the explorer shows the chain's
  blocks, a created wallet can be restored. Of text and codes: round trips of Bech32, addresses, JSON
  and files. Where the code falls short of what it is for, a theorem says in what way: inputs a
  miner cannot spend, a network nobody can mine, rewards of any size, a signature that ignores the
  outputs, routes that are never taken, an import that fails from a pipe, a network that is deaf after it
  was started again, a miner that an interval of zero crashes.

  \<^bold>\<open>Loops and bounds.\<close> Loops over data are structural or carry a measure. The bit loop of Bech32
  (\<open>take_groups\<close>) and the search of the miner (\<open>mine_nonces\<close>) may run forever and are
  \<^theory_text>\<open>partial_function\<close>s, so that not returning is \<open>None\<close>; that the first always returns and
  exactly when the second does are theorems. Loading a chain counts the blocks still to be read, which the stored best
  block bounds. The library's workers stop at the end of their range, which is the measure.

  \<^bold>\<open>Parameters and named hypotheses.\<close> What is not under \<^verbatim>\<open>src/\<close> is an argument: the database
  (\<open>reliable\<close>: a read returns what was written), the JSON text of stored blocks (\<open>codes\<close>) and
  of wallet files (\<open>keeps_ascii\<close>), Ed25519 (\<open>ed_correct\<close>: what is signed verifies), the BIP-39
  functions, the router of the explorer (\<open>mux_documented\<close>: first match wins), what sockets,
  files and HTTP requests return, the conversion of an out-of-range \<^verbatim>\<open>float64\<close>
  (\<open>platform\<close>), the order in which a map is visited, clock readings and the parsing of times. Each of these hypotheses is
  shown to hold of a concrete instance by the witness of a theorem that uses it.

  \<^bold>\<open>Not modelled.\<close> Sockets below what accept, read and write return, signal handlers, and log output
  other than that of \<^verbatim>\<open>core/logger.go\<close> and of the miner's events and statistics. Goroutines are modelled by the
  order of their atomic steps; a data race inside a step is not. Random numbers are an argument. Types that no
  code uses (\<^verbatim>\<open>TreasuryBalance\<close>, \<^verbatim>\<open>Signature\<close>). \<^verbatim>\<open>core/blockchain_test.go\<close> calls a constructor with the
  wrong number of arguments and does not compile.
\<close>

text \<open>
  Defaults of the programs: the explorer asks the port the node serves, the wallet another one.
\<close>

theorem default_ports:
  "\<exists>cfg. node_main [] = Inr cfg \<and>
     xp_rpcURL (explorer_config (\<lambda>_. [])) = ''http://localhost'' @ nc_RPCAddr cfg \<and>
     default_rpc \<noteq> ''http://localhost'' @ nc_RPCAddr cfg"
  by (simp add: node_main_def node_flags_def str_flag_def explorer_config_def NewExplorerAPI_def default_rpc_def)

end
